(* ===== verification/Prelude.thy ===== *)
theory Prelude
  imports
    Main
    "HOL-Library.Word"
    "HOL-Library.Char_ord"
    "HOL-Library.List_Lexorder"
    "HOL-Library.Product_Lexorder"
    "HOL-Library.AList"
begin

text \<open>
  Shared vocabulary of the development.
  \<^item> Go values: byte slices and strings, \<open>uint64\<close> counters, instants and durations.
  \<^item> Go errors as values: the sentinel errors of the packages \<open>bitboxsync\<close> and
    \<open>protocol\<close>, formatted errors with and without \<open>%w\<close>, API errors and the engine's
    permanent upload errors, with \<open>errors.Is\<close> and \<open>errors.As\<close>.
  \<^item> Effects: a function from a state to a result or an error and the next state, with
    sequencing that stops at the first error, the weakest precondition of such a function
    and the equations that compute it (collection \<open>wp\<close>).
  \<^item> Generic lemmas on lists and association lists.
\<close>

section \<open>Go values\<close>

text \<open>
  A Go \<open>string\<close> and a Go \<open>[]byte\<close> are both sequences of bytes; the code converts freely
  between them. Both are \<open>char list\<close> here, a \<open>char\<close> being one byte. The code never
  distinguishes a nil slice from an empty one.
\<close>

type_synonym bytes = "char list"

type_synonym u64 = "64 word"

text \<open>
  Instants are nanoseconds since Go's zero \<open>time.Time\<close> (1 January of year 1), so that
  \<open>IsZero\<close> is equality with 0. \<open>Unix\<close> seconds are counted from 1970.
\<close>

type_synonym gotime = int

type_synonym duration = int

definition time_is_zero :: "gotime \<Rightarrow> bool" where
  "time_is_zero t \<longleftrightarrow> t = 0"

definition nanos_per_second :: int where
  "nanos_per_second = 1000000000"

definition unix_epoch_seconds :: int where
  "unix_epoch_seconds = 62135596800"

definition time_unix :: "gotime \<Rightarrow> int" where
  "time_unix t = t div nanos_per_second - unix_epoch_seconds"

lemma time_unix_mono: "t \<le> u \<Longrightarrow> time_unix t \<le> time_unix u"
  by (simp add: time_unix_def nanos_per_second_def zdiv_mono1)

section \<open>Errors\<close>

datatype sentinel =
    ErrNotFound
  | ErrRollback
  | ErrClosed
  | ErrNoDefault
  | ErrNoBackend
  | ErrCollectionRegistered
  | ErrInvalidKind
  | ErrInvalidNamespaceID
  | ErrInvalidKeyID
  | ErrInvalidItemID
  | ErrAADMismatch
  | ErrNamespaceMismatch
  | ErrInvalidWrappedDEK
  | ErrKeyIDMismatch
  | ErrUnsupportedVersion

text \<open>
  The text of a formatted error is its format string: the arguments never influence
  control flow.
\<close>

datatype err =
    Sentinel sentinel
  | Errorf string
  | Wrapf string err
  | APIError int string
  | PermanentUpload err

fun errors_is :: "sentinel \<Rightarrow> err \<Rightarrow> bool" where
  "errors_is k (Sentinel j) = (j = k)"
| "errors_is k (Errorf _) = False"
| "errors_is k (Wrapf _ e) = errors_is k e"
| "errors_is k (APIError _ _) = False"
| "errors_is k (PermanentUpload e) = errors_is k e"

text \<open>\<open>errors.As(err, &apiErr)\<close>: the status code of the first API error of the chain.\<close>

fun api_status :: "err \<Rightarrow> int option" where
  "api_status (Sentinel _) = None"
| "api_status (Errorf _) = None"
| "api_status (Wrapf _ e) = api_status e"
| "api_status (APIError status _) = Some status"
| "api_status (PermanentUpload e) = api_status e"

fun is_permanent_upload :: "err \<Rightarrow> bool" where
  "is_permanent_upload (Sentinel _) = False"
| "is_permanent_upload (Errorf _) = False"
| "is_permanent_upload (Wrapf _ e) = is_permanent_upload e"
| "is_permanent_upload (APIError _ _) = False"
| "is_permanent_upload (PermanentUpload e) = True"

section \<open>Effects\<close>

type_synonym ('s, 'a) eff = "'s \<Rightarrow> (err + 'a) \<times> 's"

definition ret :: "'a \<Rightarrow> ('s, 'a) eff" where
  "ret x = (\<lambda>s. (Inr x, s))"

definition raise :: "err \<Rightarrow> ('s, 'a) eff" where
  "raise e = (\<lambda>s. (Inl e, s))"

definition lift_result :: "err + 'a \<Rightarrow> ('s, 'a) eff" where
  "lift_result r = (\<lambda>s. (r, s))"

definition reads :: "('s \<Rightarrow> 'a) \<Rightarrow> ('s, 'a) eff" where
  "reads f = (\<lambda>s. (Inr (f s), s))"

definition writes :: "('s \<Rightarrow> 's) \<Rightarrow> ('s, unit) eff" where
  "writes f = (\<lambda>s. (Inr (), f s))"

text \<open>\<open>x, err := m(); if err != nil { return err }; f(x)\<close>\<close>

definition bindM :: "('s, 'a) eff \<Rightarrow> ('a \<Rightarrow> ('s, 'b) eff) \<Rightarrow> ('s, 'b) eff" where
  "bindM m f = (\<lambda>s. case m s of (r, s') \<Rightarrow> (case r of Inl e \<Rightarrow> (Inl e, s') | Inr x \<Rightarrow> f x s'))"

definition seqM :: "('s, 'a) eff \<Rightarrow> ('s, 'b) eff \<Rightarrow> ('s, 'b) eff" where
  "seqM m n = bindM m (\<lambda>_. n)"

text \<open>\<open>x, err := m()\<close> where the code goes on to inspect \<open>err\<close>.\<close>

definition attempt :: "('s, 'a) eff \<Rightarrow> ('s, err + 'a) eff" where
  "attempt m = (\<lambda>s. case m s of (r, s') \<Rightarrow> (Inr r, s'))"

definition guardM :: "bool \<Rightarrow> err \<Rightarrow> ('s, unit) eff" where
  "guardM ok e = (if ok then ret () else raise e)"

text \<open>\<open>for _, x := range xs { if err := f(x); err != nil { return err } }\<close>\<close>

fun forM :: "'a list \<Rightarrow> ('a \<Rightarrow> ('s, unit) eff) \<Rightarrow> ('s, unit) eff" where
  "forM [] f = ret ()"
| "forM (x # xs) f = seqM (f x) (forM xs f)"

text \<open>The same loop with local variables that survive an iteration.\<close>

fun foldM :: "('b \<Rightarrow> 'a \<Rightarrow> ('s, 'b) eff) \<Rightarrow> 'b \<Rightarrow> 'a list \<Rightarrow> ('s, 'b) eff" where
  "foldM f acc [] = ret acc"
| "foldM f acc (x # xs) = bindM (f acc x) (\<lambda>acc'. foldM f acc' xs)"

text \<open>The laws of sequencing.\<close>

lemma bindM_ret [simp]: "bindM (ret x) f = f x"
  by (simp add: bindM_def ret_def)

lemma bindM_raise [simp]: "bindM (raise e) f = raise e"
  by (simp add: bindM_def raise_def)

lemma bindM_assoc: "bindM (bindM m f) g = bindM m (\<lambda>x. bindM (f x) g)"
  by (auto simp: bindM_def fun_eq_iff split: prod.split sum.split)

lemma bindM_if: "bindM (if b then m else n) f = (if b then bindM m f else bindM n f)"
  by simp

lemma bindM_reads: "bindM (reads g) f s = f (g s) s"
  by (simp add: bindM_def reads_def)

subsection \<open>Weakest preconditions\<close>

text \<open>
  \<open>wp m Q X s\<close>: started in \<open>s\<close>, \<open>m\<close> either returns \<open>x\<close> in a state with \<open>Q x\<close> or
  fails with \<open>e\<close> in a state with \<open>X e\<close>. The equations below compute it for the
  combinators, so an unfolded effect is verified by simplification and case splits.
\<close>

named_theorems wp

definition wp :: "('s, 'a) eff \<Rightarrow> ('a \<Rightarrow> 's \<Rightarrow> bool) \<Rightarrow> (err \<Rightarrow> 's \<Rightarrow> bool) \<Rightarrow> 's \<Rightarrow> bool" where
  "wp m Q X s = (case m s of (r, s') \<Rightarrow> (case r of Inl e \<Rightarrow> X e s' | Inr x \<Rightarrow> Q x s'))"

lemma wp_ret [wp]: "wp (ret x) Q X s = Q x s"
  by (simp add: wp_def ret_def)

lemma wp_raise [wp]: "wp (raise e) Q X s = X e s"
  by (simp add: wp_def raise_def)

lemma wp_lift_result [wp]:
  "wp (lift_result r) Q X s = (case r of Inl e \<Rightarrow> X e s | Inr x \<Rightarrow> Q x s)"
  by (simp add: wp_def lift_result_def)

lemma wp_reads [wp]: "wp (reads f) Q X s = Q (f s) s"
  by (simp add: wp_def reads_def)

lemma wp_writes [wp]: "wp (writes f) Q X s = Q () (f s)"
  by (simp add: wp_def writes_def)

lemma wp_bindM [wp]: "wp (bindM m f) Q X s = wp m (\<lambda>x. wp (f x) Q X) X s"
  by (auto simp: wp_def bindM_def split: prod.split sum.split)

lemma wp_seqM [wp]: "wp (seqM m n) Q X s = wp m (\<lambda>_. wp n Q X) X s"
  by (simp add: seqM_def wp_bindM)

lemma wp_attempt [wp]:
  "wp (attempt m) Q X s = wp m (\<lambda>x. Q (Inr x)) (\<lambda>e. Q (Inl e)) s"
  by (auto simp: wp_def attempt_def split: prod.split sum.split)

lemma wp_guardM [wp]: "wp (guardM ok e) Q X s = (if ok then Q () s else X e s)"
  by (simp add: guardM_def wp)

lemma wp_if [wp]:
  "wp (if b then m else n) Q X s = (if b then wp m Q X s else wp n Q X s)"
  by simp

lemma wp_mono:
  assumes "wp m Q X s"
    and "\<And>x t. Q x t \<Longrightarrow> Q' x t" and "\<And>e t. X e t \<Longrightarrow> X' e t"
  shows "wp m Q' X' s"
  using assms by (auto simp: wp_def split: prod.splits sum.splits)

lemma wp_conj:
  assumes "wp m Q X s" and "wp m Q' X' s"
  shows "wp m (\<lambda>x t. Q x t \<and> Q' x t) (\<lambda>e t. X e t \<and> X' e t) s"
  using assms by (auto simp: wp_def split: prod.splits sum.splits)

lemma wp_True: "wp m (\<lambda>_ _. True) (\<lambda>_ _. True) s"
  by (simp add: wp_def split: prod.split sum.split)

lemma wp_snd: "wp m (\<lambda>_ t. P t) (\<lambda>_ t. P t) s = P (snd (m s))"
  by (auto simp: wp_def split: prod.split sum.split)

lemma wpD_Inr: "wp m Q X s \<Longrightarrow> m s = (Inr x, t) \<Longrightarrow> Q x t"
  by (simp add: wp_def)

lemma wpD_Inl: "wp m Q X s \<Longrightarrow> m s = (Inl e, t) \<Longrightarrow> X e t"
  by (simp add: wp_def)

lemma wp_forM:
  assumes "I s"
    and "\<And>x s. x \<in> set xs \<Longrightarrow> I s \<Longrightarrow> wp (f x) (\<lambda>_ t. I t) X s"
  shows "wp (forM xs f) (\<lambda>_ t. I t) X s"
  using assms
proof (induction xs arbitrary: s)
  case Nil
  then show ?case by (simp add: wp)
next
  case (Cons x xs)
  have "wp (f x) (\<lambda>_ t. I t) X s"
    using Cons.prems by simp
  then have "wp (f x) (\<lambda>_. wp (forM xs f) (\<lambda>_ t. I t) X) X s"
    by (rule wp_mono) (use Cons in auto)
  then show ?case by (simp add: wp)
qed

lemma wp_foldM:
  assumes "I acc s"
    and "\<And>acc x s. x \<in> set xs \<Longrightarrow> I acc s \<Longrightarrow> wp (f acc x) (\<lambda>a t. I a t) X s"
  shows "wp (foldM f acc xs) (\<lambda>a t. I a t) X s"
  using assms
proof (induction xs arbitrary: acc s)
  case Nil
  then show ?case by (simp add: wp)
next
  case (Cons x xs)
  have "wp (f acc x) (\<lambda>a t. I a t) X s"
    using Cons.prems by simp
  then have "wp (f acc x) (\<lambda>a. wp (foldM f a xs) (\<lambda>a t. I a t) X) X s"
    by (rule wp_mono) (use Cons in auto)
  then show ?case by (simp add: wp)
qed

subsection \<open>Successful runs\<close>

text \<open>What a successful run has gone through, for reading facts off a result.\<close>

named_theorems succeeds

lemma succeeds_bindM [succeeds]:
  "bindM m f s = (Inr y, u) \<longleftrightarrow> (\<exists>x t. m s = (Inr x, t) \<and> f x t = (Inr y, u))"
  by (auto simp: bindM_def split: prod.splits sum.splits)

lemma succeeds_seqM [succeeds]:
  "seqM m n s = (Inr y, u) \<longleftrightarrow> (\<exists>x t. m s = (Inr x, t) \<and> n t = (Inr y, u))"
  by (simp add: seqM_def succeeds_bindM)

lemma succeeds_basic [succeeds]:
  "ret x s = (Inr y, u) \<longleftrightarrow> y = x \<and> u = s" "raise e s = (Inr y, u) \<longleftrightarrow> False"
  "lift_result r s = (Inr y, u) \<longleftrightarrow> r = Inr y \<and> u = s" "reads g s = (Inr y, u) \<longleftrightarrow> y = g s \<and> u = s"
  "guardM ok e s = (Inr z, u) \<longleftrightarrow> ok \<and> u = s"
  by (auto simp: ret_def raise_def lift_result_def reads_def guardM_def)

subsection \<open>Steps that stay in a preorder on states\<close>

text \<open>
  \<open>stays R m\<close>: whatever \<open>m\<close> does, success or error, it ends in a state \<open>R\<close>-related to
  the one it started in. For a reflexive and transitive \<open>R\<close> this composes through every
  combinator; frame properties and monotonicity of counters are proved this way.
\<close>

definition stays :: "('s \<Rightarrow> 's \<Rightarrow> bool) \<Rightarrow> ('s, 'a) eff \<Rightarrow> bool" where
  "stays R m \<longleftrightarrow> (\<forall>s. R s (snd (m s)))"

lemma staysD: "stays R m \<Longrightarrow> R s (snd (m s))"
  by (simp add: stays_def)

lemma staysI: "(\<And>s. R s (snd (m s))) \<Longrightarrow> stays R m"
  by (simp add: stays_def)

locale step_relation =
  fixes R :: "'s \<Rightarrow> 's \<Rightarrow> bool"
  assumes R_refl: "R s s"
    and R_trans: "R s t \<Longrightarrow> R t u \<Longrightarrow> R s u"
begin

lemma ret: "stays R (ret x)"
  by (simp add: stays_def ret_def R_refl)

lemma raise: "stays R (raise e)"
  by (simp add: stays_def raise_def R_refl)

lemma lift_result: "stays R (lift_result r)"
  by (simp add: stays_def lift_result_def R_refl)

lemma reads: "stays R (reads f)"
  by (simp add: stays_def reads_def R_refl)

lemma guardM: "stays R (guardM ok e)"
  by (simp add: guardM_def ret raise)

lemma bindM:
  assumes "stays R m" and "\<And>x. stays R (f x)"
  shows "stays R (bindM m f)"
proof (rule staysI)
  fix s
  obtain r t where m: "m s = (r, t)" by (cases "m s")
  with assms(1) have st: "R s t" by (auto dest: staysD [of R m s])
  show "R s (snd (bindM m f s))"
  proof (cases r)
    case (Inl e)
    with m st show ?thesis by (simp add: bindM_def)
  next
    case (Inr x)
    have "R t (snd (f x t))" using assms(2) by (rule staysD)
    with m st Inr show ?thesis by (auto simp: bindM_def intro: R_trans)
  qed
qed

lemma bind_result:
  "(\<And>x. r = Inr x \<Longrightarrow> stays R (f x)) \<Longrightarrow> stays R (bindM (lift_result r) f)"
  by (cases r) (simp_all add: stays_def bindM_def lift_result_def R_refl)

lemma seqM: "stays R m \<Longrightarrow> stays R n \<Longrightarrow> stays R (seqM m n)"
  by (simp add: seqM_def bindM)

lemma attempt: "stays R m \<Longrightarrow> stays R (attempt m)"
  by (simp add: stays_def attempt_def split: prod.split) (metis snd_conv)

lemma ifM: "stays R m \<Longrightarrow> stays R n \<Longrightarrow> stays R (if b then m else n)"
  by simp

lemma forM: "(\<And>x. x \<in> set xs \<Longrightarrow> stays R (f x)) \<Longrightarrow> stays R (forM xs f)"
  by (induction xs) (auto intro: ret seqM)

lemma foldM: "(\<And>a x. x \<in> set xs \<Longrightarrow> stays R (f a x)) \<Longrightarrow> stays R (foldM f acc xs)"
  by (induction xs arbitrary: acc) (auto intro: ret bindM)

lemma case_optionM:
  "stays R m \<Longrightarrow> (\<And>x. stays R (f x)) \<Longrightarrow> stays R (case r of None \<Rightarrow> m | Some x \<Rightarrow> f x)"
  by (cases r) simp_all

lemma case_sumM:
  "(\<And>e. stays R (g e)) \<Longrightarrow> (\<And>x. stays R (f x)) \<Longrightarrow>
     stays R (case r of Inl e \<Rightarrow> g e | Inr x \<Rightarrow> f x)"
  by (cases r) simp_all

lemma case_prodM:
  "(\<And>a b. stays R (f a b)) \<Longrightarrow> stays R (case p of (a, b) \<Rightarrow> f a b)"
  by (cases p) simp

lemma letM: "stays R (f x) \<Longrightarrow> stays R (let y = x in f y)"
  by simp

lemmas combinators =
  ret raise lift_result reads guardM bindM seqM attempt forM foldM
  case_optionM case_sumM case_prodM

end

subsection \<open>What an effect returns\<close>

definition returns :: "('a \<Rightarrow> bool) \<Rightarrow> ('s, 'a) eff \<Rightarrow> bool" where
  "returns P m \<longleftrightarrow> (\<forall>s. wp m (\<lambda>x _. P x) (\<lambda>_ _. True) s)"

lemma returns_ret: "P x \<Longrightarrow> returns P (ret x)"
  by (simp add: returns_def wp)

lemma returns_raise: "returns P (raise e)"
  by (simp add: returns_def wp)

lemma returns_bindM: "(\<And>x. returns P (f x)) \<Longrightarrow> returns P (bindM m f)"
  unfolding returns_def wp_bindM by (blast intro: wp_mono [OF wp_True])

lemma returns_bindM_with:
  "returns Q m \<Longrightarrow> (\<And>x. Q x \<Longrightarrow> returns P (f x)) \<Longrightarrow> returns P (bindM m f)"
  unfolding returns_def wp_bindM by (blast intro: wp_mono)

lemma returns_seqM: "returns P n \<Longrightarrow> returns P (seqM m n)"
  by (simp add: seqM_def returns_bindM)

lemma returns_attempt:
  "returns P m \<Longrightarrow> returns (\<lambda>r. \<forall>x. r = Inr x \<longrightarrow> P x) (attempt m)"
  unfolding returns_def by (auto simp: wp intro: wp_mono)

lemma returns_if: "returns P m \<Longrightarrow> returns P n \<Longrightarrow> returns P (if b then m else n)"
  by simp

lemma returns_case_sum:
  "(\<And>e. r = Inl e \<Longrightarrow> returns P (g e)) \<Longrightarrow> (\<And>x. r = Inr x \<Longrightarrow> returns P (f x)) \<Longrightarrow>
     returns P (case r of Inl e \<Rightarrow> g e | Inr x \<Rightarrow> f x)"
  by (cases r) simp_all

lemma stays_bindM_result:
  assumes "step_relation R" and "stays R m" and "returns P m"
    and "\<And>x. P x \<Longrightarrow> stays R (f x)"
  shows "stays R (bindM m f)"
proof (rule staysI)
  fix s
  have "wp m (\<lambda>x t. R s t \<and> P x) (\<lambda>_ t. R s t) s"
    using wp_conj [of m "\<lambda>_. R s" "\<lambda>_. R s" s "\<lambda>x _. P x" "\<lambda>_ _. True"] assms(2,3)
    by (simp add: wp_snd returns_def stays_def)
  then have "wp m (\<lambda>x. wp (f x) (\<lambda>_. R s) (\<lambda>_. R s)) (\<lambda>_. R s) s"
    by (rule wp_mono)
      (auto simp: wp_snd intro: step_relation.R_trans [OF assms(1)] staysD [OF assms(4)])
  then show "R s (snd (bindM m f s))" by (simp flip: wp_snd add: wp)
qed

lemma stays_foldM_result:
  assumes "step_relation R" and "P acc"
    and "\<And>a x. P a \<Longrightarrow> stays R (f a x)" and "\<And>a x. P a \<Longrightarrow> returns P (f a x)"
  shows "stays R (foldM f acc xs)"
  using assms(2)
proof (induction xs arbitrary: acc)
  case Nil
  then show ?case by (simp add: step_relation.ret [OF assms(1)])
next
  case (Cons x xs)
  then show ?case
    by (simp add: stays_bindM_result [OF assms(1) assms(3) assms(4)])
qed

section \<open>Pure results\<close>

text \<open>Sequencing of pure functions that return an error or a value.\<close>

definition bindR :: "err + 'a \<Rightarrow> ('a \<Rightarrow> err + 'b) \<Rightarrow> err + 'b" where
  "bindR r f = (case r of Inl e \<Rightarrow> Inl e | Inr x \<Rightarrow> f x)"

definition ensureR :: "bool \<Rightarrow> err \<Rightarrow> err + 'b \<Rightarrow> err + 'b" where
  "ensureR ok e k = (if ok then k else Inl e)"

lemma bindR_simps [simp]:
  "bindR (Inl e) f = Inl e"
  "bindR (Inr x) f = f x"
  by (simp_all add: bindR_def)

lemma bindR_eq_Inr [simp]: "bindR r f = Inr y \<longleftrightarrow> (\<exists>x. r = Inr x \<and> f x = Inr y)"
  by (cases r) simp_all

lemma ensureR_eq_Inr [simp]: "ensureR ok e k = Inr y \<longleftrightarrow> ok \<and> k = Inr y"
  by (simp add: ensureR_def)

lemma ensureR_simps [simp]:
  "ensureR True e k = k"
  "ensureR False e k = Inl e"
  by (simp_all add: ensureR_def)

text \<open>A function applied to every element, stopping at the first error.\<close>

fun mapR :: "('a \<Rightarrow> err + 'b) \<Rightarrow> 'a list \<Rightarrow> err + 'b list" where
  "mapR f [] = Inr []"
| "mapR f (x # xs) = bindR (f x) (\<lambda>y. bindR (mapR f xs) (\<lambda>ys. Inr (y # ys)))"

lemma mapR_Inr: "(\<And>x. x \<in> set xs \<Longrightarrow> f x = Inr (g x)) \<Longrightarrow> mapR f xs = Inr (map g xs)"
  by (induction xs) simp_all

lemma mapR_length: "mapR f xs = Inr ys \<Longrightarrow> length ys = length xs"
  by (induction xs arbitrary: ys) auto

section \<open>Words\<close>

lemma unat_u64: "unat (v :: 64 word) < 18446744073709551616"
proof -
  have "unat v < 2 ^ LENGTH(64)" by (rule unsigned_less)
  then show ?thesis by simp
qed

lemma uint_u64: "uint (v :: 64 word) < 18446744073709551616"
proof -
  have "uint v < 2 ^ LENGTH(64)" by (rule unsigned_less)
  then show ?thesis by simp
qed

lemma unat_u32: "unat (v :: 32 word) < 4294967296"
proof -
  have "unat v < 2 ^ LENGTH(32)" by (rule unsigned_less)
  then show ?thesis by simp
qed

section \<open>Lists\<close>

lemma append_eq_conv_length:
  "length a = length a' \<Longrightarrow> (a @ b = a' @ b') \<longleftrightarrow> a = a' \<and> b = b'"
  by simp

lemma find_append: "find P (xs @ ys) = (case find P xs of None \<Rightarrow> find P ys | Some x \<Rightarrow> Some x)"
  by (induction xs) simp_all

lemma find_None_filter: "find P xs = None \<longleftrightarrow> filter P xs = []"
  by (induction xs) auto

lemma find_SomeD: "find P xs = Some x \<Longrightarrow> x \<in> set xs \<and> P x"
  by (induction xs) (auto split: if_splits)

end
