(* ===== verification/Wire_Encoding.thy ===== *)
theory Wire_Encoding
  imports Prelude
begin

text \<open>
  The textual and binary encodings of the wire format: lower-case hex, padded base64,
  unpadded base64url, decimal numbers and quoted ETags, big-endian integers. Modelled are
  the functions of Go's standard library the code calls (\<open>encoding/hex\<close>,
  \<open>encoding/base64\<close>, \<open>strconv\<close>, \<open>encoding/binary\<close>) and, on top of them, the \<open>Decode*\<close>,
  \<open>Encode*\<close>, \<open>Validate*\<close>, \<open>QuoteETag\<close> and \<open>ParseIfMatch\<close> functions of
  \<open>src/protocol/crypto.go\<close>.

  The property every decoder has is the interface \<open>canonical_codec\<close>: a decoder accepts
  exactly the encodings of valid values, each value by one string only. It is interpreted
  on the model of every decoder of this file.
\<close>

section \<open>Canonical codecs\<close>

locale canonical_codec =
  fixes enc :: "'a \<Rightarrow> bytes"
    and dec :: "bytes \<Rightarrow> err + 'a"
    and valid :: "'a \<Rightarrow> bool"
  assumes dec_enc: "valid a \<Longrightarrow> dec (enc a) = Inr a"
    and dec_sound: "dec s = Inr a \<Longrightarrow> valid a \<and> s = enc a"
begin

lemma accepts_iff: "dec s = Inr a \<longleftrightarrow> valid a \<and> s = enc a"
  using dec_enc dec_sound by blast

lemma unique_text: "dec s = Inr a \<Longrightarrow> dec t = Inr a \<Longrightarrow> s = t"
  by (simp add: accepts_iff)

lemma enc_inject: "valid a \<Longrightarrow> valid b \<Longrightarrow> enc a = enc b \<longleftrightarrow> a = b"
  by (metis dec_enc sum.inject(2))

end

section \<open>Big-endian integers\<close>

text \<open>
  \<open>binary.BigEndian\<close>: byte \<open>i\<close> from the right is \<open>byte(v >> 8i)\<close>, and \<open>char_of\<close> keeps
  the low eight bits.
\<close>

definition be_bytes :: "nat \<Rightarrow> nat \<Rightarrow> bytes" where
  "be_bytes w n = map (\<lambda>i. char_of (n div 256 ^ i)) (rev [0..<w])"

definition be_value :: "bytes \<Rightarrow> nat" where
  "be_value bs = foldl (\<lambda>acc c. acc * 256 + of_char c) 0 bs"

definition be_uint64 :: "u64 \<Rightarrow> bytes" where
  "be_uint64 v = be_bytes 8 (unat v)"

definition be_uint32 :: "32 word \<Rightarrow> bytes" where
  "be_uint32 v = be_bytes 4 (unat v)"

lemma length_be_bytes [simp]: "length (be_bytes w n) = w"
  by (simp add: be_bytes_def)

lemma length_be_uint [simp]: "length (be_uint64 v) = 8" "length (be_uint32 u) = 4"
  by (simp_all add: be_uint64_def be_uint32_def)

lemma be_bytes_Suc: "be_bytes (Suc w) n = char_of (n div 256 ^ w) # be_bytes w n"
  by (simp add: be_bytes_def)

lemma foldl_be: "foldl (\<lambda>acc c. acc * 256 + of_char c) a bs = a * 256 ^ length bs + be_value bs"
proof (induction bs arbitrary: a)
  case Nil
  then show ?case by (simp add: be_value_def)
next
  case (Cons b bs)
  show ?case
    using Cons.IH [of "a * 256 + of_char b"] Cons.IH [of "of_char b"]
    by (simp add: be_value_def algebra_simps)
qed

lemma be_value_Cons: "be_value (c # bs) = of_char c * 256 ^ length bs + be_value bs"
  using foldl_be [of "of_char c" bs] by (simp add: be_value_def)

lemma be_value_be_bytes: "be_value (be_bytes w n) = n mod 256 ^ w"
proof (induction w)
  case 0
  then show ?case by (simp add: be_bytes_def be_value_def)
next
  case (Suc w)
  have "n mod 256 ^ Suc w = 256 ^ w * (n div 256 ^ w mod 256) + n mod 256 ^ w"
    using mod_mult2_eq [of n "256 ^ w" 256] by (simp add: mult.commute)
  with Suc show ?case
    by (simp add: be_bytes_Suc be_value_Cons)
qed

lemma be_bytes_inject:
  "m < 256 ^ w \<Longrightarrow> n < 256 ^ w \<Longrightarrow> be_bytes w m = be_bytes w n \<longleftrightarrow> m = n"
  by (metis be_value_be_bytes mod_less)

lemma be_uint64_inject [simp]: "be_uint64 u = be_uint64 v \<longleftrightarrow> u = v"
  using unat_u64 [of u] unat_u64 [of v]
  by (simp add: be_uint64_def be_bytes_inject word_unat_eq_iff)

lemma be_uint32_inject [simp]: "be_uint32 u = be_uint32 v \<longleftrightarrow> u = v"
  using unat_u32 [of u] unat_u32 [of v]
  by (simp add: be_uint32_def be_bytes_inject word_unat_eq_iff)

section \<open>Hex\<close>

definition hex_digit :: "nat \<Rightarrow> char" where
  "hex_digit n = ''0123456789abcdef'' ! n"

definition hex_value :: "char \<Rightarrow> nat option" where
  "hex_value c =
     (let n = of_char c :: nat
      in if 48 \<le> n \<and> n \<le> 57 then Some (n - 48)
         else if 97 \<le> n \<and> n \<le> 102 then Some (n - 87)
         else if 65 \<le> n \<and> n \<le> 70 then Some (n - 55)
         else None)"

text \<open>\<open>hex.EncodeToString\<close> and \<open>hex.DecodeString\<close>; the latter accepts both cases.\<close>

fun hex_encode :: "bytes \<Rightarrow> string" where
  "hex_encode [] = []"
| "hex_encode (b # bs) =
     hex_digit (of_char b div 16) # hex_digit (of_char b mod 16) # hex_encode bs"

fun hex_decode :: "string \<Rightarrow> err + bytes" where
  "hex_decode [] = Inr []"
| "hex_decode [c] =
     (case hex_value c of
        None \<Rightarrow> Inl (Errorf ''encoding/hex: invalid byte'')
      | Some _ \<Rightarrow> Inl (Errorf ''encoding/hex: odd length hex string''))"
| "hex_decode (a # b # rest) =
     (case (hex_value a, hex_value b) of
        (Some x, Some y) \<Rightarrow>
          bindR (hex_decode rest) (\<lambda>bs. Inr (char_of (16 * x + y) # bs))
      | _ \<Rightarrow> Inl (Errorf ''encoding/hex: invalid byte''))"

text \<open>
  \<open>strings.ToLower\<close> on ASCII. On a string with other bytes Go may change them; such a
  string is refused by the hex decoder as well, so only the text of the error differs.
\<close>

definition to_lower_char :: "char \<Rightarrow> char" where
  "to_lower_char c =
     (let n = of_char c :: nat in if 65 \<le> n \<and> n \<le> 90 then char_of (n + 32) else c)"

definition to_lower :: "string \<Rightarrow> string" where
  "to_lower s = map to_lower_char s"

definition DecodeHexExact :: "string \<Rightarrow> string \<Rightarrow> nat \<Rightarrow> err + bytes" where
  "DecodeHexExact name value sz =
     (case hex_decode value of
        Inl e \<Rightarrow> Inl (Wrapf (''decode '' @ name) e)
      | Inr raw \<Rightarrow>
          if length raw \<noteq> sz then Inl (Errorf (name @ '' has the wrong length''))
          else Inr raw)"

definition DecodeLowerHexExact :: "string \<Rightarrow> string \<Rightarrow> nat \<Rightarrow> err + bytes" where
  "DecodeLowerHexExact name value sz =
     (if to_lower value \<noteq> value then Inl (Errorf (name @ '' must be lowercase hex''))
      else DecodeHexExact name value sz)"

lemma hex_digit_facts:
  assumes "n < 16"
  shows "hex_value (hex_digit n) = Some n" and "to_lower_char (hex_digit n) = hex_digit n"
proof -
  have "\<forall>n \<in> set [0..<16]. hex_value (hex_digit n) = Some n \<and>
      to_lower_char (hex_digit n) = hex_digit n"
    by code_simp
  with assms show "hex_value (hex_digit n) = Some n"
    and "to_lower_char (hex_digit n) = hex_digit n" by auto
qed

lemma char_div16: "(of_char c :: nat) div 16 < 16"
proof -
  have "(of_char c :: nat) < 256" by simp
  then show ?thesis by linarith
qed

lemma char_of_of_char_split: "char_of (16 * (of_char c div 16) + of_char c mod 16 :: nat) = c"
  by simp

lemma hex_decode_encode [simp]: "hex_decode (hex_encode bs) = Inr bs"
  by (induction bs) (simp_all add: hex_digit_facts char_div16)

lemma to_lower_hex_encode [simp]: "to_lower (hex_encode bs) = hex_encode bs"
  by (induction bs) (simp_all add: to_lower_def hex_digit_facts char_div16)

lemma length_hex_encode [simp]: "length (hex_encode bs) = 2 * length bs"
  by (induction bs) simp_all

lemma hex_digit_of_value:
  "48 \<le> k \<Longrightarrow> k < 58 \<Longrightarrow> hex_digit (k - 48) = char_of k"
  "97 \<le> k \<Longrightarrow> k < 103 \<Longrightarrow> hex_digit (k - 87) = char_of k"
proof -
  have "\<forall>k \<in> set [48..<58]. hex_digit (k - 48) = char_of k"
    and "\<forall>k \<in> set [97..<103]. hex_digit (k - 87) = char_of k"
    by code_simp+
  then show "48 \<le> k \<Longrightarrow> k < 58 \<Longrightarrow> hex_digit (k - 48) = char_of k"
    and "97 \<le> k \<Longrightarrow> k < 103 \<Longrightarrow> hex_digit (k - 87) = char_of k"
    by (simp_all only: set_upt atLeastLessThan_iff)
qed

lemma to_lower_char_upper:
  assumes "65 \<le> (of_char c :: nat)" and "(of_char c :: nat) \<le> 90"
  shows "to_lower_char c \<noteq> c"
proof
  assume "to_lower_char c = c"
  then have "of_char (char_of (of_char c + 32 :: nat) :: char) = (of_char c :: nat)"
    using assms by (simp add: to_lower_char_def)
  with assms(2) show False by simp
qed

lemma hex_value_SomeD:
  assumes "hex_value c = Some n" and "to_lower_char c = c"
  shows "n < 16 \<and> hex_digit n = c"
proof -
  define k where "k = (of_char c :: nat)"
  have c: "c = char_of k" by (simp add: k_def)
  have "\<not> (65 \<le> k \<and> k \<le> 90)"
    using to_lower_char_upper assms(2) unfolding k_def by blast
  with assms(1) consider "48 \<le> k" "k < 58" "n = k - 48" | "97 \<le> k" "k < 103" "n = k - 87"
    by (auto simp: hex_value_def Let_def k_def [symmetric] split: if_splits)
  then show ?thesis
    by cases (use c in \<open>auto simp: hex_digit_of_value\<close>)
qed

lemma hex_decode_lower:
  "hex_decode s = Inr bs \<Longrightarrow> to_lower s = s \<Longrightarrow> hex_encode bs = s"
proof (induction s arbitrary: bs rule: hex_decode.induct)
  case 1
  then show ?case by simp
next
  case (2 c)
  then show ?case by (simp split: option.splits)
next
  case (3 a b rest)
  from "3.prems"(1) obtain x y bs' where
    xy: "hex_value a = Some x" "hex_value b = Some y" and
    rest: "hex_decode rest = Inr bs'" and bs: "bs = char_of (16 * x + y) # bs'"
    by (auto split: option.splits)
  from "3.prems"(2) have low: "to_lower_char a = a" "to_lower_char b = b" "to_lower rest = rest"
    by (simp_all add: to_lower_def)
  have x: "x < 16 \<and> hex_digit x = a" and y: "y < 16 \<and> hex_digit y = b"
    using xy low hex_value_SomeD by blast+
  have "hex_encode bs' = rest"
    using "3.IH" xy rest low(3) by simp
  moreover have "(16 * x + y) mod 256 = 16 * x + y" using x y by simp
  moreover have "(16 * x + y) div 16 = x" and "(16 * x + y) mod 16 = y" using x y by simp_all
  ultimately show ?case using x y bs by simp
qed

lemma DecodeLowerHexExact_accepts:
  "DecodeLowerHexExact name s sz = Inr b \<longleftrightarrow> length b = sz \<and> s = hex_encode b"
proof
  assume "DecodeLowerHexExact name s sz = Inr b"
  then have "to_lower s = s" and "hex_decode s = Inr b" and "length b = sz"
    by (auto simp: DecodeLowerHexExact_def DecodeHexExact_def split: if_splits sum.splits)
  then show "length b = sz \<and> s = hex_encode b" by (metis hex_decode_lower)
qed (auto simp: DecodeLowerHexExact_def DecodeHexExact_def)

interpretation lower_hex:
  canonical_codec hex_encode "\<lambda>s. DecodeLowerHexExact name s sz" "\<lambda>b. length b = sz"
  for name sz
  by unfold_locales (auto simp: DecodeLowerHexExact_accepts)

lemma hex_encode_inject [simp]: "hex_encode a = hex_encode b \<longleftrightarrow> a = b"
  by (metis hex_decode_encode sum.inject(2))

section \<open>Base64\<close>

text \<open>
  \<open>base64.StdEncoding\<close> and \<open>base64.RawURLEncoding\<close>: two alphabets, and padding to a
  multiple of four characters for the first. A group of three bytes is read as one number
  and cut into four 6-bit digits.
\<close>

datatype b64_variant = B64Std | B64RawURL

fun b64_alphabet :: "b64_variant \<Rightarrow> string" where
  "b64_alphabet B64Std = ''ABCDEFGHIJKLMNOPQRSTUVWXYZabcdefghijklmnopqrstuvwxyz0123456789+/''"
| "b64_alphabet B64RawURL = ''ABCDEFGHIJKLMNOPQRSTUVWXYZabcdefghijklmnopqrstuvwxyz0123456789-_''"

fun b64_padded :: "b64_variant \<Rightarrow> bool" where
  "b64_padded B64Std = True"
| "b64_padded B64RawURL = False"

fun index_of :: "char \<Rightarrow> string \<Rightarrow> nat option" where
  "index_of c [] = None"
| "index_of c (x # xs) = (if x = c then Some 0 else map_option Suc (index_of c xs))"

definition b64_digit :: "b64_variant \<Rightarrow> nat \<Rightarrow> char" where
  "b64_digit v n = b64_alphabet v ! n"

definition b64_value :: "b64_variant \<Rightarrow> char \<Rightarrow> nat option" where
  "b64_value v c = index_of c (b64_alphabet v)"

definition b64_group :: "b64_variant \<Rightarrow> nat \<Rightarrow> string" where
  "b64_group v n =
     [b64_digit v (n div 262144), b64_digit v (n div 4096 mod 64),
      b64_digit v (n div 64 mod 64), b64_digit v (n mod 64)]"

fun b64_encode :: "b64_variant \<Rightarrow> bytes \<Rightarrow> string" where
  "b64_encode v [] = []"
| "b64_encode v [a] =
     take 2 (b64_group v (of_char a * 65536)) @ (if b64_padded v then ''=='' else [])"
| "b64_encode v [a, b] =
     take 3 (b64_group v (of_char a * 65536 + of_char b * 256)) @
     (if b64_padded v then ''='' else [])"
| "b64_encode v (a # b # c # rest) =
     b64_group v (of_char a * 65536 + of_char b * 256 + of_char c) @ b64_encode v rest"

definition b64_error :: "err + bytes" where
  "b64_error = Inl (Errorf ''illegal base64 data'')"

text \<open>
  \<open>DecodeString\<close> drops carriage returns and line feeds anywhere, takes padding only at the
  end of the input, and ignores the unused low bits of a final partial group.
\<close>

fun b64_decode_groups :: "b64_variant \<Rightarrow> string \<Rightarrow> err + bytes" where
  "b64_decode_groups v [] = Inr []"
| "b64_decode_groups v [a] = b64_error"
| "b64_decode_groups v [a, b] =
     (if b64_padded v then b64_error
      else case (b64_value v a, b64_value v b) of
        (Some x, Some y) \<Rightarrow> Inr [char_of ((x * 262144 + y * 4096) div 65536)]
      | _ \<Rightarrow> b64_error)"
| "b64_decode_groups v [a, b, c] =
     (if b64_padded v then b64_error
      else case (b64_value v a, b64_value v b, b64_value v c) of
        (Some x, Some y, Some z) \<Rightarrow>
          (let n = x * 262144 + y * 4096 + z * 64
           in Inr [char_of (n div 65536), char_of (n div 256)])
      | _ \<Rightarrow> b64_error)"
| "b64_decode_groups v (a # b # c # d # rest) =
     (case (b64_value v a, b64_value v b) of
        (Some x, Some y) \<Rightarrow>
          if b64_padded v \<and> c = CHR ''='' then
            (if d = CHR ''='' \<and> rest = []
             then Inr [char_of ((x * 262144 + y * 4096) div 65536)] else b64_error)
          else (case b64_value v c of
            None \<Rightarrow> b64_error
          | Some z \<Rightarrow>
              if b64_padded v \<and> d = CHR ''='' then
                (if rest = []
                 then let n = x * 262144 + y * 4096 + z * 64
                      in Inr [char_of (n div 65536), char_of (n div 256)]
                 else b64_error)
              else (case b64_value v d of
                None \<Rightarrow> b64_error
              | Some w \<Rightarrow>
                  let n = x * 262144 + y * 4096 + z * 64 + w
                  in bindR (b64_decode_groups v rest) (\<lambda>bs.
                       Inr (char_of (n div 65536) # char_of (n div 256) # char_of n # bs))))
      | _ \<Rightarrow> b64_error)"

definition b64_decode :: "b64_variant \<Rightarrow> string \<Rightarrow> err + bytes" where
  "b64_decode v s =
     b64_decode_groups v (filter (\<lambda>c. c \<noteq> CHR 0x0A \<and> c \<noteq> CHR 0x0D) s)"

definition EncodeBase64 :: "bytes \<Rightarrow> string" where
  "EncodeBase64 value = b64_encode B64Std value"

definition EncodeBase64URL :: "bytes \<Rightarrow> string" where
  "EncodeBase64URL value = b64_encode B64RawURL value"

definition DecodeBase64 :: "string \<Rightarrow> string \<Rightarrow> err + bytes" where
  "DecodeBase64 name value =
     (case b64_decode B64Std value of
        Inl e \<Rightarrow> Inl (Wrapf (''decode '' @ name) e)
      | Inr raw \<Rightarrow>
          if b64_encode B64Std raw \<noteq> value
          then Inl (Errorf (name @ '' must use canonical base64''))
          else Inr raw)"

definition DecodeBase64Exact :: "string \<Rightarrow> string \<Rightarrow> nat \<Rightarrow> err + bytes" where
  "DecodeBase64Exact name value sz =
     (case DecodeBase64 name value of
        Inl e \<Rightarrow> Inl e
      | Inr raw \<Rightarrow>
          if length raw \<noteq> sz then Inl (Errorf (name @ '' has the wrong length''))
          else Inr raw)"

definition DecodeBase64URLExact :: "string \<Rightarrow> string \<Rightarrow> nat \<Rightarrow> err + bytes" where
  "DecodeBase64URLExact name value sz =
     (if CHR ''='' \<in> set value then Inl (Errorf (name @ '' must be unpadded base64url''))
      else case b64_decode B64RawURL value of
        Inl e \<Rightarrow> Inl (Wrapf (''decode '' @ name) e)
      | Inr raw \<Rightarrow>
          if length raw \<noteq> sz then Inl (Errorf (name @ '' has the wrong length''))
          else if b64_encode B64RawURL raw \<noteq> value
          then Inl (Errorf (name @ '' must use canonical base64url''))
          else Inr raw)"

lemma b64_digit_facts:
  assumes "n < 64"
  shows "b64_value v (b64_digit v n) = Some n"
    and "b64_digit v n \<noteq> CHR ''=''"
    and "b64_digit v n \<noteq> CHR 0x0A"
    and "b64_digit v n \<noteq> CHR 0x0D"
proof -
  have "\<forall>n \<in> set [0..<64]. b64_value B64Std (b64_digit B64Std n) = Some n \<and>
      b64_digit B64Std n \<noteq> CHR ''='' \<and> b64_digit B64Std n \<noteq> CHR 0x0A \<and>
      b64_digit B64Std n \<noteq> CHR 0x0D"
    and "\<forall>n \<in> set [0..<64]. b64_value B64RawURL (b64_digit B64RawURL n) = Some n \<and>
      b64_digit B64RawURL n \<noteq> CHR ''='' \<and> b64_digit B64RawURL n \<noteq> CHR 0x0A \<and>
      b64_digit B64RawURL n \<noteq> CHR 0x0D"
    by code_simp+
  then have "b64_value v (b64_digit v n) = Some n \<and> b64_digit v n \<noteq> CHR ''='' \<and>
      b64_digit v n \<noteq> CHR 0x0A \<and> b64_digit v n \<noteq> CHR 0x0D"
    using assms by (cases v) (auto simp only: set_upt atLeastLessThan_iff)
  then show "b64_value v (b64_digit v n) = Some n" and "b64_digit v n \<noteq> CHR ''=''"
    and "b64_digit v n \<noteq> CHR 0x0A" and "b64_digit v n \<noteq> CHR 0x0D" by auto
qed

lemma b64_digits_sum:
  "n div 262144 * 262144 + n div 4096 mod 64 * 4096 + n div 64 mod 64 * 64 + n mod 64 = (n::nat)"
proof -
  have "n = 64 * (n div 64) + n mod 64" by simp
  moreover have "n div 64 = 64 * (n div 4096) + n div 64 mod 64"
    using div_mult2_eq [of n 64 64] by simp
  moreover have "n div 4096 = 64 * (n div 262144) + n div 4096 mod 64"
    using div_mult2_eq [of n 4096 64] by simp
  ultimately show ?thesis by linarith
qed

lemma b64_decode_group:
  assumes "n < 16777216"
  shows "b64_decode_groups v (b64_group v n @ rest) =
     bindR (b64_decode_groups v rest) (\<lambda>bs.
       Inr (char_of (n div 65536) # char_of (n div 256) # char_of n # bs))"
proof -
  have "n div 262144 < 64" using assms by linarith
  then show ?thesis
    using b64_digits_sum [of n] by (simp add: b64_group_def b64_digit_facts)
qed

lemma char_u24:
  "of_char a * 65536 + of_char b * 256 + of_char c < (16777216::nat)"
  "(of_char a * 65536 + of_char b * 256 + of_char c) div 65536 = (of_char a :: nat)"
  "char_of ((of_char a * 65536 + of_char b * 256 + of_char c) div 256 :: nat) = b"
  "char_of (of_char a * 65536 + of_char b * 256 + of_char c :: nat) = c"
proof -
  have bnd: "(of_char a :: nat) < 256" "(of_char b :: nat) < 256" "(of_char c :: nat) < 256"
    by simp_all
  then show "of_char a * 65536 + of_char b * 256 + of_char c < (16777216::nat)" by linarith
  show "(of_char a * 65536 + of_char b * 256 + of_char c) div 65536 = (of_char a :: nat)"
    using bnd by linarith
  have "(of_char a * 65536 + of_char b * 256 + of_char c) div 256 =
      (of_char b + 256 * of_char a :: nat)" using bnd by linarith
  moreover have "char_of ((of_char b + 256 * of_char a) mod 256 :: nat) = b"
    using bnd by (simp only: mod_mult_self2 mod_less) simp
  ultimately show "char_of ((of_char a * 65536 + of_char b * 256 + of_char c) div 256 :: nat) = b"
    by (simp only: char_of_mod_256)
  have "(of_char a * 65536 + of_char b * 256 + of_char c) mod 256 = (of_char c :: nat)"
    using bnd mod_mult_self2 [of "of_char c" 256 "of_char a * 256 + of_char b :: nat"]
    by (simp add: algebra_simps)
  then show "char_of (of_char a * 65536 + of_char b * 256 + of_char c :: nat) = c"
    by (metis char_of_mod_256 char_of_char)
qed

lemma b64_decode_tail1:
  "b64_decode_groups v (b64_encode v [a]) = Inr [a]"
proof -
  define n where "n = (of_char a * 65536 :: nat)"
  have n: "n = of_char a * 1024 * 64" "n div 64 = of_char a * 16 * 64" by (simp_all add: n_def)
  have "(of_char a :: nat) < 256" by simp
  then have bnd: "n < 16777216" by (simp add: n_def)
  have "n mod 64 = 0" "n div 64 mod 64 = 0"
    unfolding n(2) by (simp_all only: n(1) mod_mult_self2_is_0)
  then have "n div 262144 * 262144 + n div 4096 mod 64 * 4096 = n"
    using b64_digits_sum [of n] by simp
  then have d: "n div 4096 mod 64 < 64"
    "(n div 262144 * 262144 + n div 4096 mod 64 * 4096) div 65536 = of_char a"
    by (simp_all add: n_def)
  have "n div 262144 < 64" using bnd by linarith
  have "b64_encode v [a] =
      [b64_digit v (n div 262144), b64_digit v (n div 4096 mod 64)] @
      (if b64_padded v then ''=='' else [])"
    by (simp add: b64_group_def n_def)
  with d \<open>n div 262144 < 64\<close> show ?thesis by (simp add: b64_digit_facts)
qed

lemma b64_decode_tail2:
  "b64_decode_groups v (b64_encode v [a, b]) = Inr [a, b]"
proof -
  define n where "n = (of_char a * 65536 + of_char b * 256 :: nat)"
  have bnd: "n < 16777216" using char_u24(1) [of a b "CHR 0x00"] by (simp add: n_def)
  have "n mod 64 = (of_char a * 1024 + of_char b * 4) * 64 mod 64"
    by (simp add: n_def algebra_simps)
  then have "n mod 64 = 0" by (simp only: mod_mult_self2_is_0)
  then have d: "n div 262144 < 64" "n div 4096 mod 64 < 64" "n div 64 mod 64 < 64"
    "n div 262144 * 262144 + n div 4096 mod 64 * 4096 + n div 64 mod 64 * 64 = n"
    using b64_digits_sum [of n] bnd by auto
  have b: "char_of (n div 65536) = a" "char_of (n div 256) = b"
    using char_u24(2,3) [of a b "CHR 0x00"] unfolding n_def by simp_all
  have "b64_encode v [a, b] =
      [b64_digit v (n div 262144), b64_digit v (n div 4096 mod 64), b64_digit v (n div 64 mod 64)] @
      (if b64_padded v then ''='' else [])"
    by (simp add: b64_group_def n_def)
  with d b show ?thesis by (simp add: b64_digit_facts Let_def)
qed

lemma b64_decode_groups_encode: "b64_decode_groups v (b64_encode v bs) = Inr bs"
proof (induction v bs rule: b64_encode.induct)
  case (4 v a b c rest)
  have "b64_encode v (a # b # c # rest) =
      b64_group v (of_char a * 65536 + of_char b * 256 + of_char c) @ b64_encode v rest"
    by simp
  with "4.IH" show ?case
    using char_u24 [of a b c] by (simp only: b64_decode_group bindR_simps char_of_char)
qed (simp_all only: b64_decode_tail1 b64_decode_tail2 b64_encode.simps(1) b64_decode_groups.simps(1))

lemma b64_group_no_newline:
  "n < 16777216 \<Longrightarrow> c \<in> set (b64_group v n) \<Longrightarrow>
     c \<noteq> CHR 0x0A \<and> c \<noteq> CHR 0x0D \<and> c \<noteq> CHR ''=''"
proof -
  assume "n < 16777216" and c: "c \<in> set (b64_group v n)"
  then have "n div 262144 < 64" by linarith
  with c show ?thesis by (auto simp: b64_group_def b64_digit_facts)
qed

lemma b64_encode_chars:
  "x \<in> set (b64_encode v bs) \<Longrightarrow>
     x \<noteq> CHR 0x0A \<and> x \<noteq> CHR 0x0D \<and> (b64_padded v \<or> x \<noteq> CHR ''='')"
proof (induction v bs rule: b64_encode.induct)
  case (1 v)
  then show ?case by simp
next
  case (2 v a)
  have "(of_char a * 65536 :: nat) < 16777216" using char_u24(1) [of a "CHR 0x00" "CHR 0x00"] by simp
  from b64_group_no_newline [OF this] 2 show ?case
    by (auto dest!: in_set_takeD split: if_splits)
next
  case (3 v a b)
  have "(of_char a * 65536 + of_char b * 256 :: nat) < 16777216"
    using char_u24(1) [of a b "CHR 0x00"] by simp
  from b64_group_no_newline [OF this] 3 show ?case
    by (auto dest!: in_set_takeD split: if_splits)
next
  case (4 v a b c rest)
  then show ?case
    using b64_group_no_newline [OF char_u24(1) [of a b c], of x v] by auto
qed

lemma b64_decode_encode [simp]: "b64_decode v (b64_encode v bs) = Inr bs"
proof -
  have "filter (\<lambda>c. c \<noteq> CHR 0x0A \<and> c \<noteq> CHR 0x0D) (b64_encode v bs) = b64_encode v bs"
    by (rule filter_True) (auto dest: b64_encode_chars)
  then show ?thesis by (simp add: b64_decode_def b64_decode_groups_encode)
qed

lemma DecodeBase64_accepts: "DecodeBase64 name s = Inr b \<longleftrightarrow> s = EncodeBase64 b"
  by (auto simp: DecodeBase64_def EncodeBase64_def split: sum.splits if_splits)

lemma DecodeBase64Exact_accepts:
  "DecodeBase64Exact name s sz = Inr b \<longleftrightarrow> length b = sz \<and> s = EncodeBase64 b"
proof -
  have "DecodeBase64Exact name s sz = Inr b \<longleftrightarrow> DecodeBase64 name s = Inr b \<and> length b = sz"
    by (cases "DecodeBase64 name s") (simp_all add: DecodeBase64Exact_def, metis)
  then show ?thesis by (simp add: DecodeBase64_accepts conj_commute)
qed

lemma DecodeBase64URLExact_accepts:
  "DecodeBase64URLExact name s sz = Inr b \<longleftrightarrow> length b = sz \<and> s = EncodeBase64URL b"
proof
  assume "DecodeBase64URLExact name s sz = Inr b"
  then show "length b = sz \<and> s = EncodeBase64URL b"
    unfolding DecodeBase64URLExact_def EncodeBase64URL_def
    by (cases "b64_decode B64RawURL s") (simp_all split: if_split_asm)
next
  have "CHR ''='' \<notin> set (b64_encode B64RawURL b)"
    using b64_encode_chars [of "CHR ''=''" B64RawURL b] by auto
  moreover assume "length b = sz \<and> s = EncodeBase64URL b"
  ultimately show "DecodeBase64URLExact name s sz = Inr b"
    by (simp add: DecodeBase64URLExact_def EncodeBase64URL_def)
qed

interpretation base64: canonical_codec EncodeBase64 "DecodeBase64 name" "\<lambda>_. True" for name
  by unfold_locales (simp_all add: DecodeBase64_accepts)

interpretation base64_exact:
  canonical_codec EncodeBase64 "\<lambda>s. DecodeBase64Exact name s sz" "\<lambda>b. length b = sz" for name sz
  by unfold_locales (simp_all add: DecodeBase64Exact_accepts)

interpretation base64url:
  canonical_codec EncodeBase64URL "\<lambda>s. DecodeBase64URLExact name s sz" "\<lambda>b. length b = sz"
  for name sz
  by unfold_locales (simp_all add: DecodeBase64URLExact_accepts)

section \<open>Validation of identifiers\<close>

definition KeyIDLength :: nat where "KeyIDLength = 32"
definition NamespaceIDLength :: nat where "NamespaceIDLength = 16"
definition InviteIDLength :: nat where "InviteIDLength = 16"
definition JoinRequestHashLength :: nat where "JoinRequestHashLength = 32"
definition ItemIDLength :: nat where "ItemIDLength = 32"

definition validate_hex :: "string \<Rightarrow> string \<Rightarrow> nat \<Rightarrow> err + unit" where
  "validate_hex name value sz = bindR (DecodeLowerHexExact name value sz) (\<lambda>_. Inr ())"

definition ValidateNamespaceID :: "string \<Rightarrow> err + unit" where
  "ValidateNamespaceID value = validate_hex ''namespaceId'' value NamespaceIDLength"

definition ValidateInviteID :: "string \<Rightarrow> err + unit" where
  "ValidateInviteID value = validate_hex ''inviteId'' value InviteIDLength"

definition ValidateKeyID :: "string \<Rightarrow> err + unit" where
  "ValidateKeyID value = validate_hex ''keyId'' value KeyIDLength"

definition ValidateJoinRequestHash :: "string \<Rightarrow> err + unit" where
  "ValidateJoinRequestHash value = validate_hex ''joinRequestHash'' value JoinRequestHashLength"

definition ValidateItemID :: "string \<Rightarrow> err + unit" where
  "ValidateItemID value = validate_hex ''itemId'' value ItemIDLength"

end
