(* ===== verification/Wire_Numbers.thy ===== *)
theory Wire_Numbers
  imports Wire_Encoding
begin

text \<open>
  Numbers on the wire: decimal text (\<open>strconv.FormatUint\<close>, \<open>strconv.ParseUint\<close>) and the
  quoted entity tags that carry an item version in the \<open>If-Match\<close> header, \<open>QuoteETag\<close> and
  \<open>ParseIfMatch\<close> of \<open>src/protocol/crypto.go\<close>.
\<close>

section \<open>Decimal numbers and entity tags\<close>

definition dec_digit :: "nat \<Rightarrow> char" where
  "dec_digit n = char_of (48 + n)"

definition dec_value :: "char \<Rightarrow> nat option" where
  "dec_value c =
     (let n = of_char c :: nat in if 48 \<le> n \<and> n \<le> 57 then Some (n - 48) else None)"

text \<open>\<open>strconv.FormatUint(n, 10)\<close>\<close>

fun dec_of_nat :: "nat \<Rightarrow> string" where
  "dec_of_nat n =
     (if n < 10 then [dec_digit n] else dec_of_nat (n div 10) @ [dec_digit (n mod 10)])"

declare dec_of_nat.simps [simp del]

fun dec_digits_value :: "nat \<Rightarrow> string \<Rightarrow> nat option" where
  "dec_digits_value acc [] = Some acc"
| "dec_digits_value acc (c # cs) =
     (case dec_value c of None \<Rightarrow> None | Some d \<Rightarrow> dec_digits_value (acc * 10 + d) cs)"

text \<open>
  \<open>strconv.ParseUint(s, 10, bits)\<close>: digits only, no sign, at least one digit, and the value
  fits \<open>bits\<close> bits. Leading zeros are accepted.
\<close>

definition parse_uint :: "nat \<Rightarrow> string \<Rightarrow> err + nat" where
  "parse_uint bits s =
     (if s = [] then Inl (Errorf ''invalid syntax'')
      else case dec_digits_value 0 s of
        None \<Rightarrow> Inl (Errorf ''invalid syntax'')
      | Some n \<Rightarrow> if n < 2 ^ bits then Inr n else Inl (Errorf ''value out of range''))"

lemma dec_digits_value_append:
  "dec_digits_value acc (xs @ ys) =
     (case dec_digits_value acc xs of None \<Rightarrow> None | Some n \<Rightarrow> dec_digits_value n ys)"
  by (induction acc xs rule: dec_digits_value.induct) (simp_all split: option.split)

lemma dec_value_digit: "n < 10 \<Longrightarrow> dec_value (dec_digit n) = Some n"
  by (simp add: dec_value_def dec_digit_def Let_def)

lemma dec_digits_value_dec_of_nat: "dec_digits_value 0 (dec_of_nat n) = Some n"
proof (induction n rule: dec_of_nat.induct)
  case (1 n)
  show ?case
    by (cases "n < 10")
       (simp_all add: dec_of_nat.simps [of n] dec_value_digit dec_digits_value_append 1)
qed

lemma dec_of_nat_not_Nil [simp]: "dec_of_nat n \<noteq> []"
  by (subst dec_of_nat.simps) simp

lemma parse_uint_dec_of_nat: "n < 2 ^ bits \<Longrightarrow> parse_uint bits (dec_of_nat n) = Inr n"
  by (simp add: parse_uint_def dec_digits_value_dec_of_nat)

lemma parse_uint_bound: "parse_uint bits s = Inr n \<Longrightarrow> n < 2 ^ bits"
  by (auto simp: parse_uint_def split: if_splits option.splits)

text \<open>\<open>fmt.Sprintf("%q", ...)\<close> of a string of digits puts it between double quotes.\<close>

definition QuoteETag :: "u64 \<Rightarrow> string" where
  "QuoteETag version = CHR 0x22 # dec_of_nat (unat version) @ [CHR 0x22]"

text \<open>
  \<open>strings.TrimSpace(s) == ""\<close>: only white space, in the sense of \<open>unicode.IsSpace\<close>, given
  here by the UTF-8 sequences of the code points concerned.
\<close>

definition space_width :: "nat list \<Rightarrow> nat" where
  "space_width s =
     (if take 1 s \<in> set [[9], [10], [11], [12], [13], [32]] then 1
      else if take 2 s \<in> set [[0xC2, 0x85], [0xC2, 0xA0]] then 2
      else if take 3 s \<in> set [[0xE1, 0x9A, 0x80], [0xE2, 0x80, 0xA8], [0xE2, 0x80, 0xA9],
          [0xE2, 0x80, 0xAF], [0xE2, 0x81, 0x9F], [0xE3, 0x80, 0x80]] \<or>
        take 3 s \<in> set (map (\<lambda>b. [0xE2, 0x80, b]) [0x80..<0x8B]) then 3
      else 0)"

function blank_codes :: "nat list \<Rightarrow> bool" where
  "blank_codes s =
     (if s = [] then True
      else if space_width s = 0 then False
      else blank_codes (drop (space_width s) s))"
  by pat_completeness auto
termination
  by (relation "measure length") auto

declare blank_codes.simps [simp del]

definition blank :: "string \<Rightarrow> bool" where
  "blank s = blank_codes (map of_char s)"

lemma blank_quote: "\<not> blank (CHR 0x22 # s)"
  by (simp add: blank_def blank_codes.simps [of "34 # map of_char s"] space_width_def)

text \<open>The Go triple \<open>(version, present, err)\<close>: \<open>None\<close> is an absent header.\<close>

definition ParseIfMatch :: "string \<Rightarrow> err + u64 option" where
  "ParseIfMatch value =
     (if blank value then Inr None
      else if length value < 3 \<or> hd value \<noteq> CHR 0x22 \<or> last value \<noteq> CHR 0x22
      then Inl (Errorf ''If-Match must be a quoted decimal version'')
      else case parse_uint 64 (butlast (tl value)) of
        Inl e \<Rightarrow> Inl (Wrapf ''parse If-Match'' e)
      | Inr n \<Rightarrow>
          let version = word_of_nat n
          in if QuoteETag version \<noteq> value
             then Inl (Errorf ''If-Match must use canonical ETag encoding'')
             else Inr (Some version))"

lemma QuoteETag_shape:
  "\<not> blank (QuoteETag v)" "\<not> length (QuoteETag v) < 3"
  "hd (QuoteETag v) = CHR 0x22" "last (QuoteETag v) = CHR 0x22"
  "butlast (tl (QuoteETag v)) = dec_of_nat (unat v)"
proof -
  have "0 < length (dec_of_nat (unat v))" by simp
  then show "\<not> length (QuoteETag v) < 3" by (simp add: QuoteETag_def)
qed (simp_all add: QuoteETag_def blank_quote)

lemma ParseIfMatch_Some: "ParseIfMatch s = Inr (Some v) \<longleftrightarrow> s = QuoteETag v"
proof
  assume "ParseIfMatch s = Inr (Some v)"
  then show "s = QuoteETag v"
    by (auto simp: ParseIfMatch_def Let_def split: if_splits sum.splits)
next
  assume "s = QuoteETag v"
  moreover have "parse_uint 64 (dec_of_nat (unat v)) = Inr (unat v)"
    using unat_u64 [of v] by (simp add: parse_uint_dec_of_nat)
  ultimately show "ParseIfMatch s = Inr (Some v)"
    by (simp add: ParseIfMatch_def QuoteETag_shape Let_def)
qed

definition parse_etag :: "string \<Rightarrow> err + u64" where
  "parse_etag s = bindR (ParseIfMatch s) (\<lambda>r. case r of
     None \<Rightarrow> Inl (Errorf ''missing If-Match'') | Some v \<Rightarrow> Inr v)"

interpretation etag: canonical_codec QuoteETag parse_etag "\<lambda>_. True"
  by unfold_locales (auto simp: parse_etag_def ParseIfMatch_Some split: option.splits)

end
