(* ===== verification/Crypto_Wire.thy ===== *)
theory Crypto_Wire
  imports Wire_Numbers
begin

text \<open>
  The cryptographic wire format of \<open>src/protocol/crypto.go\<close>: key and item identifiers,
  item encryption bound to its coordinates, namespace keys wrapped for a recipient, the
  byte payloads that are signed, and the secrets derived from an invite.

  The primitives (SHA-256, XChaCha20-Poly1305, HPKE, Ed25519) are fields of the record
  \<open>crypto\<close>, an argument of every definition that uses one; HMAC and HKDF are built on
  SHA-256 as their RFCs say. What the code relies on is stated as the predicates
  \<open>sha256_length\<close>, \<open>aead_correct\<close>, \<open>hpke_correct\<close> and \<open>signature_correct\<close>, hypotheses of
  the theorems that need them.
\<close>

unbundle bit_operations_syntax

section \<open>Primitives\<close>

record crypto =
  sha256 :: "bytes \<Rightarrow> bytes"
  aead_seal :: "bytes \<Rightarrow> bytes \<Rightarrow> bytes \<Rightarrow> bytes \<Rightarrow> bytes"
  aead_open :: "bytes \<Rightarrow> bytes \<Rightarrow> bytes \<Rightarrow> bytes \<Rightarrow> bytes option"
  hpke_seal :: "bytes \<Rightarrow> bytes \<Rightarrow> bytes \<Rightarrow> bytes \<Rightarrow> err + bytes \<times> bytes"
  hpke_open :: "bytes \<Rightarrow> bytes \<Rightarrow> bytes \<Rightarrow> bytes \<Rightarrow> err + bytes"
  x25519_public :: "bytes \<Rightarrow> bytes"
  ed25519_public :: "bytes \<Rightarrow> bytes"
  ed25519_sign :: "bytes \<Rightarrow> bytes \<Rightarrow> bytes"
  ed25519_verify :: "bytes \<Rightarrow> bytes \<Rightarrow> bytes \<Rightarrow> bool"

text \<open>
  Argument orders: \<open>aead_seal key nonce plaintext aad\<close>, \<open>aead_open key nonce ciphertext aad\<close>,
  \<open>hpke_seal public info plaintext randomness\<close> giving the encapsulated key and the
  ciphertext, \<open>hpke_open private info enc ciphertext\<close>.
\<close>

definition sha256_length :: "crypto \<Rightarrow> bool" where
  "sha256_length C \<longleftrightarrow> (\<forall>x. length (sha256 C x) = 32)"

definition aead_correct :: "crypto \<Rightarrow> bool" where
  "aead_correct C \<longleftrightarrow> (\<forall>k n p a. aead_open C k n (aead_seal C k n p a) a = Some p)"

definition hpke_correct :: "crypto \<Rightarrow> bool" where
  "hpke_correct C \<longleftrightarrow> (\<forall>priv info pt r enc ct.
     hpke_seal C (x25519_public C priv) info pt r = Inr (enc, ct) \<longrightarrow>
     length enc = 32 \<and> length ct = length pt + 16 \<and> hpke_open C priv info enc ct = Inr pt)"

text \<open>The X25519 public key of a private key of 32 bytes has 32 bytes.\<close>

definition x25519_length :: "crypto \<Rightarrow> bool" where
  "x25519_length C \<longleftrightarrow> (\<forall>k. length k = 32 \<longrightarrow> length (x25519_public C k) = 32)"

definition signature_correct :: "crypto \<Rightarrow> bool" where
  "signature_correct C \<longleftrightarrow> (\<forall>sk m.
     ed25519_verify C (ed25519_public C sk) m (ed25519_sign C sk m) \<and>
     length (ed25519_public C sk) = 32 \<and> length (ed25519_sign C sk m) = 64)"

definition xor_pad :: "nat \<Rightarrow> bytes \<Rightarrow> bytes" where
  "xor_pad p key = map (\<lambda>c. char_of ((of_char c :: nat) XOR p)) key"

text \<open>HMAC (RFC 2104) with the 64-byte block of SHA-256.\<close>

definition hmac_sha256 :: "crypto \<Rightarrow> bytes \<Rightarrow> bytes \<Rightarrow> bytes" where
  "hmac_sha256 C key msg =
     (let k = (if length key > 64 then sha256 C key else key);
          block = k @ replicate (64 - length k) (CHR 0x00)
      in sha256 C (xor_pad 0x5C block @ sha256 C (xor_pad 0x36 block @ msg)))"

text \<open>
  \<open>hkdf.Key(sha256.New, secret, nil, info, 32)\<close> (RFC 5869): extraction with a salt of 32
  zero bytes, then the first block of the expansion.
\<close>

definition hkdf_sha256_32 :: "crypto \<Rightarrow> bytes \<Rightarrow> string \<Rightarrow> bytes" where
  "hkdf_sha256_32 C secret info =
     (let prk = hmac_sha256 C (replicate 32 (CHR 0x00)) secret
      in hmac_sha256 C prk (info @ [CHR 0x01]))"

lemma length_hmac: "sha256_length C \<Longrightarrow> length (hmac_sha256 C k m) = 32"
  by (simp add: hmac_sha256_def sha256_length_def Let_def)

lemma length_hkdf: "sha256_length C \<Longrightarrow> length (hkdf_sha256_32 C k i) = 32"
  by (simp add: hkdf_sha256_32_def length_hmac Let_def)

section \<open>Constants\<close>

definition IdentityKindKeystore :: string where "IdentityKindKeystore = ''keystore''"
definition NamespaceKindDefault :: string where "NamespaceKindDefault = ''default''"
definition NamespaceKindShared :: string where "NamespaceKindShared = ''shared''"
definition SpamControlKindNone :: string where "SpamControlKindNone = ''none''"
definition SpamControlKindAttestation :: string where
  "SpamControlKindAttestation = ''attestation''"
definition ChallengePurposeLogin :: string where "ChallengePurposeLogin = ''login''"
definition ChallengePurposeRefresh :: string where "ChallengePurposeRefresh = ''refresh''"
definition ChallengePurposeSensitiveAction :: string where
  "ChallengePurposeSensitiveAction = ''sensitive-action''"
definition SensitiveActionRevokeAllTokens :: string where
  "SensitiveActionRevokeAllTokens = ''revoke-all-tokens''"
definition SensitiveActionCreateNamespaceInvite :: string where
  "SensitiveActionCreateNamespaceInvite = ''create-namespace-invite''"

definition InviteSecretLength :: nat where "InviteSecretLength = 32"
definition InviteServerSecretHashLength :: nat where "InviteServerSecretHashLength = 32"
definition InviteProofLength :: nat where "InviteProofLength = 32"
definition ServerOriginHashLength :: nat where "ServerOriginHashLength = 32"
definition NamespaceDEKLen :: nat where "NamespaceDEKLen = 32"
definition ItemNonceLength :: nat where "ItemNonceLength = 24"
definition MaxItemCiphertextSize :: nat where "MaxItemCiphertextSize = 64 * 1024"
definition aead_overhead :: nat where "aead_overhead = 16"
definition WrappedDEKLenV1 :: nat where
  "WrappedDEKLenV1 = 1 + 32 + NamespaceIDLength + NamespaceDEKLen + 16"

definition namespaceBlobKeyInfo :: string where
  "namespaceBlobKeyInfo = ''bitboxsync-namespace-blob-aead-v1''"
definition namespaceItemKeyInfo :: string where
  "namespaceItemKeyInfo = ''bitboxsync-namespace-item-id-v1''"
definition wrapDEKInfo :: string where "wrapDEKInfo = ''bitboxsync-wrap-dek-v1''"
definition itemAADPrefix :: string where "itemAADPrefix = ''bitboxsync-item-aad''"
definition intentPrefix :: string where "intentPrefix = ''bitboxsync-intent''"
definition joinRequestPrefix :: string where "joinRequestPrefix = ''bitboxsync-join-request''"
definition inviteServerSecretInfo :: string where
  "inviteServerSecretInfo = ''bitboxsync-invite-server-secret-v1''"
definition inviteProofKeyInfo :: string where
  "inviteProofKeyInfo = ''bitboxsync-invite-proof-key-v1''"

lemmas length_constants =
  KeyIDLength_def NamespaceIDLength_def InviteIDLength_def JoinRequestHashLength_def
  ItemIDLength_def InviteSecretLength_def InviteServerSecretHashLength_def
  InviteProofLength_def ServerOriginHashLength_def NamespaceDEKLen_def ItemNonceLength_def
  MaxItemCiphertextSize_def aead_overhead_def WrappedDEKLenV1_def

lemmas prefix_constants =
  itemAADPrefix_def intentPrefix_def joinRequestPrefix_def

section \<open>Keys and identifiers\<close>

definition KeyIDFromAuthPublicKey :: "crypto \<Rightarrow> bytes \<Rightarrow> bytes" where
  "KeyIDFromAuthPublicKey C authPublicKey = sha256 C authPublicKey"

definition VerifyKeyIDMatchesAuthPublicKey :: "crypto \<Rightarrow> string \<Rightarrow> bytes \<Rightarrow> err + unit" where
  "VerifyKeyIDMatchesAuthPublicKey C keyIDHex authPublicKey =
     bindR (DecodeLowerHexExact ''keyId'' keyIDHex KeyIDLength) (\<lambda>keyID.
       ensureR (KeyIDFromAuthPublicKey C authPublicKey = keyID) (Sentinel ErrKeyIDMismatch)
         (Inr ()))"

definition EncodeEd25519PublicKey :: "bytes \<Rightarrow> string" where
  "EncodeEd25519PublicKey authPublicKey = hex_encode authPublicKey"

definition ParseEd25519PublicKeyHex :: "string \<Rightarrow> string \<Rightarrow> err + bytes" where
  "ParseEd25519PublicKeyHex name value = DecodeLowerHexExact name value 32"

definition EncodeX25519PublicKey :: "bytes \<Rightarrow> string" where
  "EncodeX25519PublicKey wrapPublicKey = hex_encode wrapPublicKey"

text \<open>\<open>ecdh.X25519().NewPublicKey\<close> accepts every slice of 32 bytes.\<close>

definition ParseX25519PublicKeyHex :: "string \<Rightarrow> string \<Rightarrow> err + bytes" where
  "ParseX25519PublicKeyHex name value = DecodeLowerHexExact name value 32"

definition NamespaceBlobKey :: "crypto \<Rightarrow> bytes \<Rightarrow> err + bytes" where
  "NamespaceBlobKey C namespaceDEK =
     ensureR (length namespaceDEK = NamespaceDEKLen)
       (Errorf ''namespace dek must be 32 bytes'')
       (Inr (hkdf_sha256_32 C namespaceDEK namespaceBlobKeyInfo))"

definition NamespaceMapKey :: "crypto \<Rightarrow> bytes \<Rightarrow> err + bytes" where
  "NamespaceMapKey C namespaceDEK =
     ensureR (length namespaceDEK = NamespaceDEKLen)
       (Errorf ''namespace dek must be 32 bytes'')
       (Inr (hkdf_sha256_32 C namespaceDEK namespaceItemKeyInfo))"

definition ItemID :: "crypto \<Rightarrow> bytes \<Rightarrow> string \<Rightarrow> err + string" where
  "ItemID C namespaceDEK logicalKey =
     bindR (NamespaceMapKey C namespaceDEK) (\<lambda>mapKey.
       Inr (hex_encode (hmac_sha256 C mapKey logicalKey)))"

section \<open>Item encryption\<close>

definition BuildItemAADFromBytes :: "bytes \<Rightarrow> bytes \<Rightarrow> u64 \<Rightarrow> bytes" where
  "BuildItemAADFromBytes namespaceID itemID version =
     itemAADPrefix @ [CHR 0x01] @ namespaceID @ itemID @ be_uint64 version"

definition BuildItemAAD :: "string \<Rightarrow> string \<Rightarrow> u64 \<Rightarrow> err + bytes" where
  "BuildItemAAD namespaceIDHex itemIDHex version =
     bindR (DecodeLowerHexExact ''namespaceId'' namespaceIDHex NamespaceIDLength) (\<lambda>namespaceID.
     bindR (DecodeLowerHexExact ''itemId'' itemIDHex ItemIDLength) (\<lambda>itemID.
       Inr (BuildItemAADFromBytes namespaceID itemID version)))"

text \<open>\<open>chacha20poly1305.NewX\<close> refuses a key that is not 32 bytes long.\<close>

definition new_item_aead :: "bytes \<Rightarrow> err + bytes" where
  "new_item_aead blobKey =
     ensureR (length blobKey = 32)
       (Wrapf ''construct item aead'' (Errorf ''chacha20poly1305: bad key length'')) (Inr blobKey)"

text \<open>The fresh nonce of \<open>EncryptItem\<close> is an argument.\<close>

definition EncryptItem ::
  "crypto \<Rightarrow> bytes \<Rightarrow> string \<Rightarrow> string \<Rightarrow> u64 \<Rightarrow> bytes \<Rightarrow> bytes \<Rightarrow> err + bytes \<times> bytes \<times> bytes" where
  "EncryptItem C nonce namespaceIDHex itemIDHex version namespaceDEK plaintext =
     bindR (BuildItemAAD namespaceIDHex itemIDHex version) (\<lambda>aad.
     bindR (NamespaceBlobKey C namespaceDEK) (\<lambda>blobKey.
     bindR (new_item_aead blobKey) (\<lambda>key.
       Inr (nonce, aad, aead_seal C key nonce plaintext aad))))"

definition DecryptItem :: "crypto \<Rightarrow> bytes \<Rightarrow> bytes \<Rightarrow> bytes \<Rightarrow> bytes \<Rightarrow> err + bytes" where
  "DecryptItem C namespaceDEK nonce aad ciphertext =
     ensureR (length nonce = ItemNonceLength) (Errorf ''nonce must be 24 bytes'')
       (bindR (NamespaceBlobKey C namespaceDEK) (\<lambda>blobKey.
        bindR (new_item_aead blobKey) (\<lambda>key.
          case aead_open C key nonce ciphertext aad of
            None \<Rightarrow> Inl (Wrapf ''decrypt item'' (Errorf ''message authentication failed''))
          | Some plaintext \<Rightarrow> Inr plaintext)))"

definition VerifyAAD :: "string \<Rightarrow> string \<Rightarrow> u64 \<Rightarrow> bytes \<Rightarrow> err + unit" where
  "VerifyAAD namespaceIDHex itemIDHex version aad =
     bindR (BuildItemAAD namespaceIDHex itemIDHex version) (\<lambda>expected.
       ensureR (expected = aad) (Sentinel ErrAADMismatch) (Inr ()))"

lemma BuildItemAAD_accepts:
  "BuildItemAAD ns item v = Inr aad \<longleftrightarrow>
     (\<exists>n i. length n = 16 \<and> length i = 32 \<and> ns = hex_encode n \<and> item = hex_encode i \<and>
        aad = BuildItemAADFromBytes n i v)"
  by (auto simp: BuildItemAAD_def DecodeLowerHexExact_accepts length_constants)

lemma BuildItemAADFromBytes_inject:
  "length n = 16 \<Longrightarrow> length n' = 16 \<Longrightarrow> length i = 32 \<Longrightarrow> length i' = 32 \<Longrightarrow>
     BuildItemAADFromBytes n i v = BuildItemAADFromBytes n' i' v' \<longleftrightarrow>
       n = n' \<and> i = i' \<and> v = v'"
  by (simp add: BuildItemAADFromBytes_def)

lemma BuildItemAAD_inject:
  "BuildItemAAD ns item v = Inr aad \<Longrightarrow> BuildItemAAD ns' item' v' = Inr aad \<Longrightarrow>
     ns = ns' \<and> item = item' \<and> v = v'"
  by (auto simp: BuildItemAAD_accepts BuildItemAADFromBytes_inject)

lemma VerifyAAD_accepts: "VerifyAAD ns item v aad = Inr u \<longleftrightarrow> BuildItemAAD ns item v = Inr aad"
  by (auto simp: VerifyAAD_def)

section \<open>Wrapped namespace keys\<close>

text \<open>The sender's randomness is an argument.\<close>

definition WrapNamespaceDEK ::
  "crypto \<Rightarrow> bytes \<Rightarrow> bytes \<Rightarrow> bytes \<Rightarrow> bytes \<Rightarrow> err + bytes" where
  "WrapNamespaceDEK C rnd recipientWrapPublicKey namespaceID namespaceDEK =
     ensureR (length namespaceID = NamespaceIDLength) (Sentinel ErrInvalidNamespaceID)
     (ensureR (length namespaceDEK = NamespaceDEKLen) (Errorf ''namespace dek must be 32 bytes'')
     (case hpke_seal C recipientWrapPublicKey wrapDEKInfo (namespaceID @ namespaceDEK) rnd of
        Inl e \<Rightarrow> Inl (Wrapf ''seal wrapped dek'' e)
      | Inr (enc, ciphertext) \<Rightarrow> Inr ([CHR 0x01] @ enc @ ciphertext)))"

definition WrappedDEKLengthForVersion :: "char \<Rightarrow> err + nat" where
  "WrappedDEKLengthForVersion version =
     (if version = CHR 0x01 then Inr WrappedDEKLenV1 else Inl (Sentinel ErrUnsupportedVersion))"

definition ValidateWrappedDEK :: "bytes \<Rightarrow> err + unit" where
  "ValidateWrappedDEK wrappedDEK =
     ensureR (length wrappedDEK \<noteq> 0) (Sentinel ErrInvalidWrappedDEK)
     (bindR (WrappedDEKLengthForVersion (wrappedDEK ! 0)) (\<lambda>expectedLen.
      ensureR (length wrappedDEK = expectedLen) (Sentinel ErrInvalidWrappedDEK) (Inr ())))"

definition UnwrapNamespaceDEK :: "crypto \<Rightarrow> bytes \<Rightarrow> bytes \<Rightarrow> bytes \<Rightarrow> err + bytes" where
  "UnwrapNamespaceDEK C recipientWrapPrivateKey expectedNamespaceID wrappedDEK =
     ensureR (length expectedNamespaceID = NamespaceIDLength) (Sentinel ErrInvalidNamespaceID)
     (bindR (ValidateWrappedDEK wrappedDEK) (\<lambda>_.
      let enc = take 32 (drop 1 wrappedDEK); ciphertext = drop 33 wrappedDEK
      in ensureR (length recipientWrapPrivateKey = 32)
           (Wrapf ''parse wrap private key'' (Errorf ''invalid private key size''))
         (case hpke_open C recipientWrapPrivateKey wrapDEKInfo enc ciphertext of
            Inl e \<Rightarrow> Inl (Wrapf ''open wrapped dek'' e)
          | Inr plaintext \<Rightarrow>
              ensureR (length plaintext = NamespaceIDLength + NamespaceDEKLen)
                (Sentinel ErrInvalidWrappedDEK)
              (ensureR (take NamespaceIDLength plaintext = expectedNamespaceID)
                (Sentinel ErrNamespaceMismatch)
                (Inr (drop NamespaceIDLength plaintext))))))"

lemma ValidateWrappedDEK_accepts:
  "ValidateWrappedDEK w = Inr u \<longleftrightarrow> w \<noteq> [] \<and> hd w = CHR 0x01 \<and> length w = 97"
  by (cases w)
    (auto simp: ValidateWrappedDEK_def WrappedDEKLengthForVersion_def length_constants split: if_splits)

lemma unwrap_wrapped:
  assumes "hpke_correct C" and "length priv = 32" and "length m = NamespaceIDLength"
    and "WrapNamespaceDEK C rnd (x25519_public C priv) n dek = Inr w"
  shows "UnwrapNamespaceDEK C priv m w =
    (if m = n then Inr dek else Inl (Sentinel ErrNamespaceMismatch))"
proof -
  obtain enc ct where seal: "hpke_seal C (x25519_public C priv) wrapDEKInfo (n @ dek) rnd = Inr (enc, ct)"
    and w: "w = CHR 0x01 # enc @ ct" and len: "length n = 16" "length dek = 32"
    using assms(4) by (auto simp: WrapNamespaceDEK_def length_constants split: sum.splits)
  from assms(1) seal have "length enc = 32" and ct: "length ct = 64"
    and "hpke_open C priv wrapDEKInfo enc ct = Inr (n @ dek)"
    by (auto simp: hpke_correct_def len)
  with assms(2,3) len show ?thesis
    by (auto simp: UnwrapNamespaceDEK_def Let_def w ValidateWrappedDEK_def
        WrappedDEKLengthForVersion_def length_constants)
qed

end
