(* ===== verification/Signed_Payloads.thy ===== *)
theory Signed_Payloads
  imports Crypto_Wire
begin

text \<open>
  The canonical byte strings that are signed or authenticated with HMAC
  (\<open>src/protocol/crypto.go\<close>): login, refresh and sensitive-action intents, the action
  fields of an invite creation, join requests, and the invite secrets and proofs.

  \<open>signed_message\<close> lists what a key ever signs; \<open>signed_payload\<close> is the payload the code
  builds for it. The lemmas show that the payload determines the message, across all kinds.
\<close>

definition kindCode :: "string \<Rightarrow> err + char" where
  "kindCode kind =
     (if kind = IdentityKindKeystore then Inr (CHR 0x01) else Inl (Sentinel ErrInvalidKind))"

definition sensitiveActionCode :: "string \<Rightarrow> err + char" where
  "sensitiveActionCode action =
     (if action = SensitiveActionRevokeAllTokens then Inr (CHR 0x01)
      else if action = SensitiveActionCreateNamespaceInvite then Inr (CHR 0x02)
      else Inl (Errorf ''unsupported sensitive action''))"

definition LoginIntent :: "bytes \<Rightarrow> string \<Rightarrow> bytes \<Rightarrow> bytes \<Rightarrow> bytes \<Rightarrow> err + bytes" where
  "LoginIntent challenge kind keyID authPublicKey wrapPublicKey =
     ensureR (length challenge = 32) (Errorf ''challenge must be 32 bytes'')
     (ensureR (length keyID = KeyIDLength) (Sentinel ErrInvalidKeyID)
     (ensureR (length authPublicKey = 32) (Errorf ''auth public key must be 32 bytes'')
     (ensureR (length wrapPublicKey = 32) (Errorf ''wrap public key must be 32 bytes'')
     (bindR (kindCode kind) (\<lambda>code.
        Inr (intentPrefix @ [CHR 0x01, CHR 0x01] @ challenge @ [code] @ keyID @
             authPublicKey @ wrapPublicKey))))))"

definition RefreshIntent :: "bytes \<Rightarrow> string \<Rightarrow> bytes \<Rightarrow> err + bytes" where
  "RefreshIntent challenge kind keyID =
     ensureR (length challenge = 32) (Errorf ''challenge must be 32 bytes'')
     (ensureR (length keyID = KeyIDLength) (Sentinel ErrInvalidKeyID)
     (bindR (kindCode kind) (\<lambda>code.
        Inr (intentPrefix @ [CHR 0x01, CHR 0x02] @ challenge @ [code] @ keyID))))"

definition SensitiveActionIntent ::
  "bytes \<Rightarrow> string \<Rightarrow> string \<Rightarrow> bytes \<Rightarrow> bytes \<Rightarrow> err + bytes" where
  "SensitiveActionIntent challenge action kind keyID actionFields =
     ensureR (length challenge = 32) (Errorf ''challenge must be 32 bytes'')
     (ensureR (length keyID = KeyIDLength) (Sentinel ErrInvalidKeyID)
     (bindR (sensitiveActionCode action) (\<lambda>actionCode.
      bindR (kindCode kind) (\<lambda>code.
        Inr (intentPrefix @ [CHR 0x01, CHR 0x03, actionCode] @ challenge @ [code] @ keyID @
             actionFields)))))"

definition CreateNamespaceInviteActionFields ::
  "bytes \<Rightarrow> bytes \<Rightarrow> bytes \<Rightarrow> u64 \<Rightarrow> 32 word \<Rightarrow> err + bytes" where
  "CreateNamespaceInviteActionFields namespaceID inviteID inviteServerSecretHash expiresAt
     maxAccepted =
     ensureR (length namespaceID = NamespaceIDLength) (Sentinel ErrInvalidNamespaceID)
     (ensureR (length inviteID = InviteIDLength) (Errorf ''invite id must be 16 bytes'')
     (ensureR (length inviteServerSecretHash = InviteServerSecretHashLength)
        (Errorf ''invite server secret hash must be 32 bytes'')
        (Inr (namespaceID @ inviteID @ inviteServerSecretHash @ be_uint64 expiresAt @
              be_uint32 maxAccepted))))"

definition JoinRequestPayload ::
  "string \<Rightarrow> bytes \<Rightarrow> bytes \<Rightarrow> bytes \<Rightarrow> bytes \<Rightarrow> bytes \<Rightarrow> bytes \<Rightarrow> u64 \<Rightarrow> err + bytes" where
  "JoinRequestPayload kind namespaceID inviteID serverOriginHash keyID authPublicKey
     wrapPublicKey expiresAt =
     ensureR (length namespaceID = NamespaceIDLength) (Sentinel ErrInvalidNamespaceID)
     (ensureR (length inviteID = InviteIDLength) (Errorf ''invite id must be 16 bytes'')
     (ensureR (length serverOriginHash = ServerOriginHashLength)
        (Errorf ''server origin hash must be 32 bytes'')
     (ensureR (length keyID = KeyIDLength) (Sentinel ErrInvalidKeyID)
     (ensureR (length authPublicKey = 32) (Errorf ''auth public key must be 32 bytes'')
     (ensureR (length wrapPublicKey = 32) (Errorf ''wrap public key must be 32 bytes'')
     (bindR (kindCode kind) (\<lambda>code.
        Inr (joinRequestPrefix @ [CHR 0x01] @ namespaceID @ inviteID @ serverOriginHash @
             [code] @ keyID @ authPublicKey @ wrapPublicKey @ be_uint64 expiresAt))))))))"

section \<open>Invite secrets and proofs\<close>

definition DeriveInviteServerSecret :: "crypto \<Rightarrow> bytes \<Rightarrow> err + bytes" where
  "DeriveInviteServerSecret C inviteSecret =
     ensureR (length inviteSecret = InviteSecretLength) (Errorf ''invite secret must be 32 bytes'')
       (Inr (hmac_sha256 C inviteSecret inviteServerSecretInfo))"

definition DeriveInviteProofKey :: "crypto \<Rightarrow> bytes \<Rightarrow> err + bytes" where
  "DeriveInviteProofKey C inviteSecret =
     ensureR (length inviteSecret = InviteSecretLength) (Errorf ''invite secret must be 32 bytes'')
       (Inr (hmac_sha256 C inviteSecret inviteProofKeyInfo))"

definition InviteProof :: "crypto \<Rightarrow> bytes \<Rightarrow> bytes \<Rightarrow> err + bytes" where
  "InviteProof C inviteSecret joinRequestPayload =
     bindR (DeriveInviteProofKey C inviteSecret) (\<lambda>inviteProofKey.
       Inr (hmac_sha256 C inviteProofKey joinRequestPayload))"

definition VerifyInviteProof :: "crypto \<Rightarrow> bytes \<Rightarrow> bytes \<Rightarrow> bytes \<Rightarrow> err + unit" where
  "VerifyInviteProof C inviteSecret joinRequestPayload inviteProof =
     ensureR (length inviteProof = InviteProofLength) (Errorf ''invite proof must be 32 bytes'')
     (bindR (InviteProof C inviteSecret joinRequestPayload) (\<lambda>expected.
        ensureR (expected = inviteProof) (Errorf ''invalid invite proof'') (Inr ())))"

definition JoinRequestHash :: "crypto \<Rightarrow> bytes \<Rightarrow> bytes" where
  "JoinRequestHash C joinRequestPayload = sha256 C joinRequestPayload"

lemma VerifyInviteProof_accepts:
  assumes "sha256_length C"
  shows "VerifyInviteProof C secret payload proof = Inr u \<longleftrightarrow>
     InviteProof C secret payload = Inr proof"
  using assms
  by (auto simp: VerifyInviteProof_def InviteProof_def DeriveInviteProofKey_def length_constants
      length_hmac)

section \<open>What is signed\<close>

datatype signed_message =
    Login (m_challenge: bytes) (m_kind: string) (m_key: bytes) (m_auth: bytes) (m_wrap: bytes)
  | Refresh (m_challenge: bytes) (m_kind: string) (m_key: bytes)
  | Sensitive (m_challenge: bytes) (m_action: string) (m_kind: string) (m_key: bytes)
      (m_fields: bytes)
  | JoinRequest (m_kind: string) (m_namespace: bytes) (m_invite: bytes) (m_origin: bytes)
      (m_key: bytes) (m_auth: bytes) (m_wrap: bytes) (m_expiry: u64)

fun signed_payload :: "signed_message \<Rightarrow> err + bytes" where
  "signed_payload (Login ch k kid a w) = LoginIntent ch k kid a w"
| "signed_payload (Refresh ch k kid) = RefreshIntent ch k kid"
| "signed_payload (Sensitive ch act k kid flds) = SensitiveActionIntent ch act k kid flds"
| "signed_payload (JoinRequest k n i so kid a w e) = JoinRequestPayload k n i so kid a w e"

lemma kindCode_accepts: "kindCode k = Inr c \<longleftrightarrow> k = IdentityKindKeystore \<and> c = CHR 0x01"
  by (auto simp: kindCode_def)

lemma sensitiveActionCode_inject:
  "sensitiveActionCode a = Inr c \<Longrightarrow> sensitiveActionCode b = Inr c \<Longrightarrow> a = b"
  by (auto simp: sensitiveActionCode_def split: if_splits)

lemmas payload_defs =
  LoginIntent_def RefreshIntent_def SensitiveActionIntent_def JoinRequestPayload_def

text \<open>Byte 11 tells join requests from intents, byte 18 one intent from another.\<close>

fun payload_tag :: "signed_message \<Rightarrow> char \<times> char option" where
  "payload_tag (Login _ _ _ _ _) = (CHR ''i'', Some (CHR 0x01))"
| "payload_tag (Refresh _ _ _) = (CHR ''i'', Some (CHR 0x02))"
| "payload_tag (Sensitive _ _ _ _ _) = (CHR ''i'', Some (CHR 0x03))"
| "payload_tag (JoinRequest _ _ _ _ _ _ _ _) = (CHR ''j'', None)"

lemma signed_payload_tag:
  "signed_payload m = Inr p \<Longrightarrow>
     payload_tag m = (p ! 11, if p ! 11 = CHR ''i'' then Some (p ! 18) else None)"
  by (cases m) (auto simp: payload_defs prefix_constants)

lemma LoginIntent_inject:
  assumes "LoginIntent ch k kid a w = Inr p" and "LoginIntent ch' k' kid' a' w' = Inr p"
  shows "ch = ch' \<and> k = k' \<and> kid = kid' \<and> a = a' \<and> w = w'"
proof -
  have "length ch = length ch'" "length kid = length kid'" "length a = length a'"
    using assms by (simp_all add: LoginIntent_def)
  with assms show ?thesis
    by (auto simp: LoginIntent_def kindCode_accepts)
qed

lemma RefreshIntent_inject:
  assumes "RefreshIntent ch k kid = Inr p" and "RefreshIntent ch' k' kid' = Inr p"
  shows "ch = ch' \<and> k = k' \<and> kid = kid'"
proof -
  have "length ch = length ch'" using assms by (simp add: RefreshIntent_def)
  with assms show ?thesis
    by (auto simp: RefreshIntent_def kindCode_accepts)
qed

lemma SensitiveActionIntent_inject:
  assumes "SensitiveActionIntent ch act k kid f = Inr p"
    and "SensitiveActionIntent ch' act' k' kid' f' = Inr p"
  shows "ch = ch' \<and> act = act' \<and> k = k' \<and> kid = kid' \<and> f = f'"
proof -
  have "length ch = length ch'" "length kid = length kid'"
    using assms by (simp_all add: SensitiveActionIntent_def)
  with assms show ?thesis
    by (auto simp: SensitiveActionIntent_def kindCode_accepts dest: sensitiveActionCode_inject)
qed

lemma JoinRequestPayload_inject:
  assumes "JoinRequestPayload k n i so kid a w e = Inr p"
    and "JoinRequestPayload k' n' i' so' kid' a' w' e' = Inr p"
  shows "k = k' \<and> n = n' \<and> i = i' \<and> so = so' \<and> kid = kid' \<and> a = a' \<and> w = w' \<and> e = e'"
proof -
  have "length n = length n'" "length i = length i'" "length so = length so'"
    "length kid = length kid'" "length a = length a'" "length w = length w'"
    using assms by (simp_all add: JoinRequestPayload_def)
  with assms show ?thesis
    by (auto simp: JoinRequestPayload_def kindCode_accepts)
qed

lemma CreateNamespaceInviteActionFields_inject:
  assumes "CreateNamespaceInviteActionFields n i h e m = Inr p"
    and "CreateNamespaceInviteActionFields n' i' h' e' m' = Inr p"
  shows "n = n' \<and> i = i' \<and> h = h' \<and> e = e' \<and> m = m'"
proof -
  have "length n = length n'" "length i = length i'" "length h = length h'"
    using assms by (simp_all add: CreateNamespaceInviteActionFields_def)
  with assms show ?thesis
    by (auto simp: CreateNamespaceInviteActionFields_def)
qed

lemma signed_payload_inject:
  assumes "signed_payload m = Inr p" and "signed_payload m' = Inr p"
  shows "m = m'"
proof -
  have "payload_tag m = payload_tag m'"
    using assms by (simp add: signed_payload_tag)
  with assms show ?thesis
    by (cases m; cases m')
      (auto dest: LoginIntent_inject RefreshIntent_inject SensitiveActionIntent_inject
        JoinRequestPayload_inject)
qed

end
