(* ===== verification/Sync_Types.thy ===== *)
theory Sync_Types
  imports Signed_Payloads
begin

text \<open>
  The data of \<open>src/bitboxsync/types.go\<close> and \<open>src/protocol/api.go\<close>: configuration,
  persisted state, events, and the request and response bodies of the API. Field names
  carry the name of their struct as a prefix where Go reuses a field name.
\<close>

section \<open>Persisted state\<close>

record IdentityState =
  id_KeyID :: string
  id_Kind :: string
  id_AccessToken :: string
  id_TokenExpiry :: gotime
  id_DefaultNamespaceID :: string
  id_UpdatedAt :: gotime

record NamespaceState =
  ns_KeyID :: string
  ns_NamespaceID :: string
  ns_Kind :: string
  ns_NamespaceHead :: u64
  ns_ActiveScopeHash :: string
  ns_DEK :: bytes
  ns_UpdatedAt :: gotime

record ItemState =
  it_KeyID :: string
  it_NamespaceID :: string
  it_Collection :: string
  it_Key :: string
  it_ItemID :: string
  it_Version :: u64
  it_BaseVersion :: u64
  it_BaseValue :: bytes
  it_Dirty :: bool
  it_Conflict :: bool
  it_ConflictRemoteVersion :: u64
  it_ConflictRemoteValue :: bytes
  it_UpdatedAt :: gotime

text \<open>A new item: the fields a composite literal leaves out are Go's zero values.\<close>

definition new_item :: "string \<Rightarrow> string \<Rightarrow> string \<Rightarrow> string \<Rightarrow> string \<Rightarrow> ItemState" where
  "new_item keyID namespaceID collection key itemID =
     \<lparr>it_KeyID = keyID, it_NamespaceID = namespaceID, it_Collection = collection,
      it_Key = key, it_ItemID = itemID, it_Version = 0, it_BaseVersion = 0,
      it_BaseValue = [], it_Dirty = False, it_Conflict = False,
      it_ConflictRemoteVersion = 0, it_ConflictRemoteValue = [], it_UpdatedAt = 0\<rparr>"

definition new_namespace :: "string \<Rightarrow> string \<Rightarrow> string \<Rightarrow> NamespaceState" where
  "new_namespace keyID namespaceID kind =
     \<lparr>ns_KeyID = keyID, ns_NamespaceID = namespaceID, ns_Kind = kind, ns_NamespaceHead = 0,
      ns_ActiveScopeHash = [], ns_DEK = [], ns_UpdatedAt = 0\<rparr>"

section \<open>Events\<close>

datatype EventType =
    EventAuthLoginRequired
  | EventAuthRefreshRecommended
  | EventAuthSessionReady
  | EventSyncStarted
  | EventSyncFinished
  | EventSyncFailed
  | EventNamespaceWatchFailed
  | EventNamespaceChanged
  | EventItemChanged
  | EventItemDownloaded
  | EventItemUploaded
  | EventItemQueued
  | EventConflictDetected
  | EventUnknownRemoteItem

record Event =
  ev_Type :: EventType
  ev_NamespaceID :: string
  ev_Collection :: string
  ev_Key :: string
  ev_ItemID :: string
  ev_Err :: "err option"
  ev_TokenExpiresAt :: gotime
  ev_At :: gotime

definition plain_event :: "EventType \<Rightarrow> Event" where
  "plain_event t =
     \<lparr>ev_Type = t, ev_NamespaceID = [], ev_Collection = [], ev_Key = [], ev_ItemID = [],
      ev_Err = None, ev_TokenExpiresAt = 0, ev_At = 0\<rparr>"

section \<open>Configuration\<close>

text \<open>
  The three dependencies are present or nil; durations are nanoseconds. The dependencies
  themselves are part of the environment of the engine.
\<close>

record Config =
  cfg_Client :: bool
  cfg_Identity :: bool
  cfg_Store :: bool
  cfg_PollInterval :: duration
  cfg_IdlePolling :: bool
  cfg_MaxPollInterval :: duration
  cfg_DisableNamespaceWatch :: bool
  cfg_RefreshSkew :: duration
  cfg_EventBuffer :: int
  cfg_InviteTTL :: duration

definition time_Minute :: duration where "time_Minute = 60 * nanos_per_second"
definition time_Hour :: duration where "time_Hour = 60 * time_Minute"
definition MaxInviteTTL :: duration where "MaxInviteTTL = time_Hour"
definition DefaultInviteTTL :: duration where "DefaultInviteTTL = 10 * time_Minute"
definition MaxJoinRequestTTL :: duration where "MaxJoinRequestTTL = 10 * time_Minute"
definition MaxAcceptedJoinRequestsPerInvite :: int where "MaxAcceptedJoinRequestsPerInvite = 10"
definition NamespaceJoinRequestVersion :: int where "NamespaceJoinRequestVersion = 1"
definition NamespaceJoinRequestStatusPending :: string where
  "NamespaceJoinRequestStatusPending = ''pending''"

lemmas duration_constants =
  nanos_per_second_def time_Minute_def time_Hour_def MaxInviteTTL_def DefaultInviteTTL_def
  MaxJoinRequestTTL_def

definition withDefaults :: "Config \<Rightarrow> err + Config" where
  "withDefaults c =
     (if \<not> cfg_Client c then Inl (Errorf ''sync client is required'')
      else if \<not> cfg_Identity c then Inl (Errorf ''sync identity is required'')
      else if \<not> cfg_Store c then Inl (Errorf ''sync store is required'')
      else
        let c = (if cfg_PollInterval c \<le> 0 then c\<lparr>cfg_PollInterval := 5 * time_Minute\<rparr> else c);
            c = (if cfg_MaxPollInterval c < cfg_PollInterval c
                 then c\<lparr>cfg_MaxPollInterval := max (60 * time_Minute) (cfg_PollInterval c)\<rparr> else c);
            c = (if cfg_RefreshSkew c \<le> 0 then c\<lparr>cfg_RefreshSkew := 24 * time_Hour\<rparr> else c);
            c = (if cfg_EventBuffer c \<le> 0 then c\<lparr>cfg_EventBuffer := 64\<rparr> else c);
            c = (if cfg_InviteTTL c \<le> 0 then c\<lparr>cfg_InviteTTL := DefaultInviteTTL\<rparr> else c)
        in Inr c)"

definition config_ok :: "Config \<Rightarrow> bool" where
  "config_ok c \<longleftrightarrow>
     cfg_Client c \<and> cfg_Identity c \<and> cfg_Store c \<and> 0 < cfg_PollInterval c \<and>
     cfg_PollInterval c \<le> cfg_MaxPollInterval c \<and> 0 < cfg_RefreshSkew c \<and>
     0 < cfg_EventBuffer c \<and> 0 < cfg_InviteTTL c"

lemma withDefaults_ok: "withDefaults c = Inr c' \<Longrightarrow> config_ok c'"
  by (auto simp: withDefaults_def config_ok_def Let_def duration_constants split: if_splits)

lemma withDefaults_keeps: "config_ok c \<Longrightarrow> withDefaults c = Inr c"
  by (simp add: withDefaults_def config_ok_def)

section \<open>Invites and join requests\<close>

record NamespaceInviteOptions =
  io_ServerOrigin :: string
  io_InviteID :: string
  io_InviteSecret :: string
  io_TTL :: duration
  io_MaxAccepted :: int

record NamespaceJoinRequestOptions =
  jo_TTL :: duration
  jo_ExpiresAt :: int

record NamespaceInviteToken =
  tok_Version :: int
  tok_ServerOrigin :: string
  tok_NamespaceID :: string
  tok_InviteID :: string
  tok_ExpiresAt :: int
  tok_InviteSecret :: string

record NamespaceJoinRequest =
  jr_Version :: int
  jr_NamespaceID :: string
  jr_InviteID :: string
  jr_ServerOrigin :: string
  jr_Kind :: string
  jr_KeyID :: string
  jr_AuthPublicKey :: string
  jr_WrapPublicKey :: string
  jr_ExpiresAt :: int
  jr_Signature :: string
  jr_InviteProof :: string

record NamespaceJoinRequestEntry =
  je_InviteID :: string
  je_JoinRequestHash :: string
  je_CreatedAt :: gotime
  je_Status :: string
  je_JoinRequest :: NamespaceJoinRequest

record NamespaceInviteSummary =
  inv_InviteID :: string
  inv_CreatedByKeyID :: string
  inv_CreatedAt :: gotime
  inv_ExpiresAt :: int
  inv_MaxAccepted :: int
  inv_ActiveRequestCount :: int
  inv_AcceptedCount :: int
  inv_RevokedAt :: "gotime option"

section \<open>API bodies\<close>

record NamespaceSummary =
  sum_NamespaceID :: string
  sum_Kind :: string
  sum_NamespaceHead :: u64

record NamespaceMember =
  mem_Kind :: string
  mem_KeyID :: string

record ChallengeRequest =
  chq_Purpose :: string
  chq_Kind :: string
  chq_Action :: string
  chq_ActionFieldsHash :: string

record LoginRequest =
  lgq_Kind :: string
  lgq_KeyID :: string
  lgq_AuthPublicKey :: string
  lgq_WrapPublicKey :: string
  lgq_Challenge :: string
  lgq_IntentSignature :: string
  lgq_Attestation :: string

record RefreshRequest =
  rfq_Kind :: string
  rfq_KeyID :: string
  rfq_Challenge :: string
  rfq_IntentSignature :: string
  rfq_Attestation :: string

record RevokeAllTokensRequest =
  rvq_Kind :: string
  rvq_KeyID :: string
  rvq_Challenge :: string
  rvq_IntentSignature :: string

record CreateNamespaceInviteRequest =
  ciq_Kind :: string
  ciq_KeyID :: string
  ciq_InviteID :: string
  ciq_InviteServerSecretHash :: string
  ciq_Challenge :: string
  ciq_IntentSignature :: string
  ciq_ExpiresAt :: int
  ciq_MaxAccepted :: int

record PutItemRequest =
  piq_Nonce :: string
  piq_AAD :: string
  piq_Ciphertext :: string

record ChallengeResponse =
  chr_Challenge :: string
  chr_ExpiresAt :: gotime
  chr_SpamControl :: string

record LoginResponse =
  lgr_Kind :: string
  lgr_AccessToken :: string
  lgr_ExpiresAt :: gotime
  lgr_DefaultNamespaceID :: "string option"

record RefreshResponse =
  rfr_Kind :: string
  rfr_AccessToken :: string
  rfr_ExpiresAt :: gotime

record EnsureDefaultNamespaceResponse =
  edr_NamespaceID :: string
  edr_Kind :: string
  edr_WrappedDEK :: string
  edr_Created :: bool

record CreateSharedNamespaceResponse =
  csr_NamespaceID :: string
  csr_Kind :: string
  csr_Created :: bool

record CreateNamespaceInviteResponse =
  cir_NamespaceID :: string
  cir_InviteID :: string
  cir_ExpiresAt :: int
  cir_MaxAccepted :: int

record SubmitNamespaceJoinRequestResponse =
  sjr_NamespaceID :: string
  sjr_InviteID :: string
  sjr_RequesterKind :: string
  sjr_RequesterKeyID :: string
  sjr_JoinRequestHash :: string
  sjr_Status :: string

record ApproveNamespaceJoinRequestResponse =
  apr_NamespaceID :: string
  apr_MemberKind :: string
  apr_MemberKeyID :: string
  apr_JoinRequestHash :: string

record RejectNamespaceJoinRequestResponse =
  rjr_NamespaceID :: string
  rjr_RequesterKeyID :: string
  rjr_JoinRequestHash :: string
  rjr_Rejected :: bool

record RevokeNamespaceInviteResponse =
  rir_NamespaceID :: string
  rir_InviteID :: string
  rir_Revoked :: bool

record GetWrappedDEKResponse =
  wdr_NamespaceID :: string
  wdr_KeyID :: string
  wdr_WrappedDEK :: string

text \<open>The item map of a namespace: item ID to version, in the order of the response.\<close>

record GetNamespaceItemsResponse =
  nir_NamespaceID :: string
  nir_NamespaceHead :: u64
  nir_Items :: "(string \<times> u64) list"

record GetItemResponse =
  gir_NamespaceID :: string
  gir_ItemID :: string
  gir_Version :: u64
  gir_Nonce :: string
  gir_AAD :: string
  gir_Ciphertext :: string

record PutItemResponse =
  pir_NamespaceID :: string
  pir_ItemID :: string
  pir_Version :: u64

datatype api_request =
    NoBody
  | ChallengeReq ChallengeRequest
  | LoginReq LoginRequest
  | RefreshReq RefreshRequest
  | RevokeAllTokensReq RevokeAllTokensRequest
  | EnsureDefaultNamespaceReq string string
  | WatchNamespacesReq "(string \<times> u64) list"
  | CreateSharedNamespaceReq string string
  | CreateNamespaceInviteReq CreateNamespaceInviteRequest
  | SubmitNamespaceJoinRequestReq string NamespaceJoinRequest
  | ApproveNamespaceJoinRequestReq string string
  | PutItemReq PutItemRequest

datatype api_response =
    NoContent
  | ChallengeResp ChallengeResponse
  | LoginResp LoginResponse
  | RefreshResp RefreshResponse
  | DefaultNamespaceResp string string
  | EnsureDefaultNamespaceResp EnsureDefaultNamespaceResponse
  | ListNamespacesResp "NamespaceSummary list"
  | WatchNamespacesResp "NamespaceSummary list" bool
  | CreateSharedNamespaceResp CreateSharedNamespaceResponse
  | GetNamespaceMembersResp string "NamespaceMember list"
  | CreateNamespaceInviteResp CreateNamespaceInviteResponse
  | ListNamespaceInvitesResp string "NamespaceInviteSummary list"
  | RevokeNamespaceInviteResp RevokeNamespaceInviteResponse
  | SubmitNamespaceJoinRequestResp SubmitNamespaceJoinRequestResponse
  | ListNamespaceJoinRequestsResp string "NamespaceJoinRequestEntry list"
  | ApproveNamespaceJoinRequestResp ApproveNamespaceJoinRequestResponse
  | RejectNamespaceJoinRequestResp RejectNamespaceJoinRequestResponse
  | GetWrappedDEKResp GetWrappedDEKResponse
  | GetNamespaceItemsResp GetNamespaceItemsResponse
  | GetItemResp GetItemResponse
  | PutItemResp PutItemResponse

end
