(* ===== verification/Sqlite_Store.thy ===== *)
theory Sqlite_Store
  imports Sync_Types
begin

text \<open>
  The persistent store, \<open>src/storage/sqlite/store.go\<close>: three tables with their columns,
  the upserts, queries, orderings and transactions of the code, and the conversions between
  Go values and column values. SQLite itself is represented by its documented behaviour: a
  statement or a committed transaction takes effect as a whole or fails and changes nothing;
  \<open>INSERT ... ON CONFLICT(pk) DO UPDATE\<close> replaces the row with the same primary key; a
  unique index refuses a second row with the same columns. Text columns compare by bytes;
  rows that tie in an \<open>ORDER BY\<close> come in the order of the table.

  The contract of a keyed table is the locale \<open>keyed_table\<close>, interpreted on the three
  tables; a database reached through the store satisfies \<open>db_wf\<close>.
\<close>

section \<open>Keyed tables\<close>

definition upsert :: "('r \<Rightarrow> 'k) \<Rightarrow> 'r \<Rightarrow> 'r list \<Rightarrow> 'r list" where
  "upsert key r t =
     (if key r \<in> key ` set t then map (\<lambda>x. if key x = key r then r else x) t else t @ [r])"

definition lookup_row :: "('r \<Rightarrow> 'k) \<Rightarrow> 'k \<Rightarrow> 'r list \<Rightarrow> 'r option" where
  "lookup_row key k t = find (\<lambda>x. key x = k) t"

definition keys_distinct :: "('r \<Rightarrow> 'k) \<Rightarrow> 'r list \<Rightarrow> bool" where
  "keys_distinct key t \<longleftrightarrow> distinct (map key t)"

locale keyed_table =
  fixes key :: "'r \<Rightarrow> 'k"
    and put :: "'r \<Rightarrow> 'r list \<Rightarrow> 'r list"
    and get :: "'k \<Rightarrow> 'r list \<Rightarrow> 'r option"
    and wf :: "'r list \<Rightarrow> bool"
  assumes wf_Nil: "wf []"
    and wf_put: "wf t \<Longrightarrow> wf (put r t)"
    and get_put: "get k (put r t) = (if k = key r then Some r else get k t)"
    and get_iff: "wf t \<Longrightarrow> get k t = Some r \<longleftrightarrow> r \<in> set t \<and> key r = k"
begin

lemma get_put_same: "get (key r) (put r t) = Some r"
  by (simp add: get_put)

lemma get_put_other: "k \<noteq> key r \<Longrightarrow> get k (put r t) = get k t"
  by (simp add: get_put)

lemma last_write_wins: "key r = key r' \<Longrightarrow> get k (put r' (put r t)) = get k (put r' t)"
  by (simp add: get_put)

lemma writes_commute:
  "key r \<noteq> key r' \<Longrightarrow> get k (put r' (put r t)) = get k (put r (put r' t))"
  by (simp add: get_put)

lemma set_put:
  assumes "wf t"
  shows "set (put r t) = insert r {x \<in> set t. key x \<noteq> key r}"
proof (intro set_eqI)
  fix x
  have "x \<in> set (put r t) \<longleftrightarrow> get (key x) (put r t) = Some x"
    using get_iff [OF wf_put [OF assms], of "key x" r x] by simp
  also have "\<dots> \<longleftrightarrow> x = r \<or> key x \<noteq> key r \<and> get (key x) t = Some x"
    by (auto simp: get_put)
  also have "\<dots> \<longleftrightarrow> x \<in> insert r {x \<in> set t. key x \<noteq> key r}"
    using get_iff [OF assms, of "key x" x] by auto
  finally show "x \<in> set (put r t) \<longleftrightarrow> x \<in> insert r {x \<in> set t. key x \<noteq> key r}" .
qed

lemma ball_put:
  "wf t \<Longrightarrow> (\<forall>x \<in> set (put r t). P x) \<longleftrightarrow> P r \<and> (\<forall>x \<in> set t. key x \<noteq> key r \<longrightarrow> P x)"
  by (auto simp: set_put)

end

lemma map_key_upsert:
  "map key (upsert key r t) = (if key r \<in> key ` set t then map key t else map key t @ [key r])"
  by (auto simp: upsert_def comp_def)

lemma lookup_row_replace:
  "find (\<lambda>x. key x = k) (map (\<lambda>x. if key x = key r then r else x) t) =
     (if k = key r then (if key r \<in> key ` set t then Some r else None)
      else find (\<lambda>x. key x = k) t)"
  by (induction t) auto

lemma find_key_None: "k \<notin> key ` set t \<Longrightarrow> find (\<lambda>x. key x = k) t = None"
  by (induction t) auto

lemma lookup_row_upsert:
  "lookup_row key k (upsert key r t) = (if k = key r then Some r else lookup_row key k t)"
  by (auto simp: lookup_row_def upsert_def lookup_row_replace find_append find_key_None
      split: option.split)

lemma lookup_row_iff:
  "keys_distinct key t \<Longrightarrow> lookup_row key k t = Some r \<longleftrightarrow> r \<in> set t \<and> key r = k"
  by (induction t) (auto simp: lookup_row_def keys_distinct_def rev_image_eqI)

lemma lookup_row_NoneD: "lookup_row key k t = None \<Longrightarrow> r \<in> set t \<Longrightarrow> key r \<noteq> k"
  by (induction t) (auto simp: lookup_row_def split: if_splits)

lemma keys_distinct_upsert: "keys_distinct key t \<Longrightarrow> keys_distinct key (upsert key r t)"
  by (auto simp: keys_distinct_def map_key_upsert)

lemma keys_distinct_filter: "keys_distinct key t \<Longrightarrow> keys_distinct key (filter P t)"
  by (simp add: keys_distinct_def distinct_map_filter)

lemma keys_distinct_map:
  "(\<And>r. key (f r) = key r) \<Longrightarrow> keys_distinct key (map f t) = keys_distinct key t"
  by (simp add: keys_distinct_def comp_def)

section \<open>Rows and the database\<close>

text \<open>Columns that may be \<open>NULL\<close> are options; integer columns are signed 64-bit values.\<close>

record identity_row =
  idr_key_id :: string
  idr_kind :: string
  idr_access_token :: string
  idr_token_expiry :: "gotime option"
  idr_default_namespace_id :: "string option"
  idr_updated_at :: gotime

record namespace_row =
  nsr_key_id :: string
  nsr_namespace_id :: string
  nsr_kind :: string
  nsr_namespace_head :: int
  nsr_active_scope_hash :: string
  nsr_dek :: "bytes option"
  nsr_updated_at :: gotime

record item_row =
  itr_key_id :: string
  itr_namespace_id :: string
  itr_collection_name :: string
  itr_item_key :: string
  itr_item_id :: string
  itr_version :: int
  itr_base_version :: int
  itr_base_value :: "bytes option"
  itr_dirty :: int
  itr_conflict :: int
  itr_conflict_remote_version :: int
  itr_conflict_remote_value :: "bytes option"
  itr_updated_at :: gotime

record database =
  identity_states :: "identity_row list"
  namespaces :: "namespace_row list"
  items :: "item_row list"

definition empty_database :: database where
  "empty_database = \<lparr>identity_states = [], namespaces = [], items = []\<rparr>"

text \<open>Primary keys, and the unique index \<open>idx_items_logical_key\<close>.\<close>

definition namespace_pk :: "namespace_row \<Rightarrow> string \<times> string" where
  "namespace_pk r = (nsr_key_id r, nsr_namespace_id r)"

definition item_pk :: "item_row \<Rightarrow> string \<times> string \<times> string" where
  "item_pk r = (itr_key_id r, itr_namespace_id r, itr_item_id r)"

definition item_logical :: "item_row \<Rightarrow> string \<times> string \<times> string \<times> string" where
  "item_logical r =
     (itr_key_id r, itr_namespace_id r, itr_collection_name r, itr_item_key r)"

interpretation identity_table:
  keyed_table idr_key_id "upsert idr_key_id" "lookup_row idr_key_id" "keys_distinct idr_key_id"
  by unfold_locales
    (simp_all add: keys_distinct_upsert lookup_row_upsert lookup_row_iff, simp add: keys_distinct_def)

interpretation namespace_table:
  keyed_table namespace_pk "upsert namespace_pk" "lookup_row namespace_pk"
    "keys_distinct namespace_pk"
  by unfold_locales
    (simp_all add: keys_distinct_upsert lookup_row_upsert lookup_row_iff, simp add: keys_distinct_def)

interpretation item_table:
  keyed_table item_pk "upsert item_pk" "lookup_row item_pk" "keys_distinct item_pk"
  by unfold_locales
    (simp_all add: keys_distinct_upsert lookup_row_upsert lookup_row_iff, simp add: keys_distinct_def)

section \<open>Column conversions\<close>

definition nullString :: "string \<Rightarrow> string option" where
  "nullString value = (if value = [] then None else Some value)"

definition nullTime :: "gotime \<Rightarrow> gotime option" where
  "nullTime value = (if time_is_zero value then None else Some value)"

text \<open>
  A nil slice becomes \<open>NULL\<close>. The model does not tell nil from empty, and both read back
  as an empty slice.
\<close>

definition nullBytes :: "bytes \<Rightarrow> bytes option" where
  "nullBytes value = (if value = [] then None else Some value)"

definition boolToInt :: "bool \<Rightarrow> int" where
  "boolToInt value = (if value then 1 else 0)"

definition scan_bytes :: "bytes option \<Rightarrow> bytes" where
  "scan_bytes v = (case v of None \<Rightarrow> [] | Some b \<Rightarrow> b)"

text \<open>
  \<open>database/sql\<close> refuses an unsigned argument with the high bit set, and a negative integer
  where an unsigned destination is scanned.
\<close>

definition sql_uint64 :: "u64 \<Rightarrow> err + int" where
  "sql_uint64 v =
     (if uint v < 2 ^ 63 then Inr (uint v)
      else Inl (Errorf ''uint64 values with high bit set are not supported''))"

definition scan_uint64 :: "int \<Rightarrow> err + u64" where
  "scan_uint64 i =
     (if 0 \<le> i \<and> i < 2 ^ 64 then Inr (word_of_int i)
      else Inl (Errorf ''converting driver.Value type int64 to a uint64''))"

definition storable :: "u64 \<Rightarrow> bool" where
  "storable v \<longleftrightarrow> uint v < 2 ^ 63"

lemma sql_uint64_storable: "sql_uint64 v = Inr i \<longleftrightarrow> storable v \<and> i = uint v"
  by (auto simp: sql_uint64_def storable_def)

lemma scan_sql_uint64 [simp]: "scan_uint64 (uint v) = Inr v"
  using uint_u64 [of v] by (simp add: scan_uint64_def)

lemma scan_nullBytes [simp]: "scan_bytes (nullBytes b) = b"
  by (simp add: scan_bytes_def nullBytes_def)

lemma boolToInt_nonzero [simp]: "boolToInt b \<noteq> 0 \<longleftrightarrow> b"
  by (simp add: boolToInt_def)

definition sql_now :: "gotime \<Rightarrow> gotime \<Rightarrow> gotime" where
  "sql_now now t = (if time_is_zero t then now else t)"

definition identity_to_row :: "gotime \<Rightarrow> IdentityState \<Rightarrow> identity_row" where
  "identity_to_row now state =
     \<lparr>idr_key_id = id_KeyID state, idr_kind = id_Kind state,
      idr_access_token = id_AccessToken state,
      idr_token_expiry = nullTime (id_TokenExpiry state),
      idr_default_namespace_id = nullString (id_DefaultNamespaceID state),
      idr_updated_at = sql_now now (id_UpdatedAt state)\<rparr>"

definition scan_identity :: "identity_row \<Rightarrow> IdentityState" where
  "scan_identity r =
     \<lparr>id_KeyID = idr_key_id r, id_Kind = idr_kind r, id_AccessToken = idr_access_token r,
      id_TokenExpiry = (case idr_token_expiry r of None \<Rightarrow> 0 | Some t \<Rightarrow> t),
      id_DefaultNamespaceID = (case idr_default_namespace_id r of None \<Rightarrow> [] | Some s \<Rightarrow> s),
      id_UpdatedAt = idr_updated_at r\<rparr>"

definition namespace_to_row :: "gotime \<Rightarrow> NamespaceState \<Rightarrow> err + namespace_row" where
  "namespace_to_row now state =
     bindR (sql_uint64 (ns_NamespaceHead state)) (\<lambda>head.
       Inr \<lparr>nsr_key_id = ns_KeyID state, nsr_namespace_id = ns_NamespaceID state,
            nsr_kind = ns_Kind state, nsr_namespace_head = head,
            nsr_active_scope_hash = ns_ActiveScopeHash state,
            nsr_dek = nullBytes (ns_DEK state),
            nsr_updated_at = sql_now now (ns_UpdatedAt state)\<rparr>)"

definition scan_namespace :: "namespace_row \<Rightarrow> err + NamespaceState" where
  "scan_namespace r =
     bindR (scan_uint64 (nsr_namespace_head r)) (\<lambda>head.
       Inr \<lparr>ns_KeyID = nsr_key_id r, ns_NamespaceID = nsr_namespace_id r,
            ns_Kind = nsr_kind r, ns_NamespaceHead = head,
            ns_ActiveScopeHash = nsr_active_scope_hash r,
            ns_DEK = scan_bytes (nsr_dek r), ns_UpdatedAt = nsr_updated_at r\<rparr>)"

definition item_to_row :: "gotime \<Rightarrow> ItemState \<Rightarrow> err + item_row" where
  "item_to_row now state =
     bindR (sql_uint64 (it_Version state)) (\<lambda>version.
     bindR (sql_uint64 (it_BaseVersion state)) (\<lambda>base.
     bindR (sql_uint64 (it_ConflictRemoteVersion state)) (\<lambda>remote.
       Inr \<lparr>itr_key_id = it_KeyID state, itr_namespace_id = it_NamespaceID state,
            itr_collection_name = it_Collection state, itr_item_key = it_Key state,
            itr_item_id = it_ItemID state, itr_version = version, itr_base_version = base,
            itr_base_value = nullBytes (it_BaseValue state),
            itr_dirty = boolToInt (it_Dirty state),
            itr_conflict = boolToInt (it_Conflict state),
            itr_conflict_remote_version = remote,
            itr_conflict_remote_value = nullBytes (it_ConflictRemoteValue state),
            itr_updated_at = sql_now now (it_UpdatedAt state)\<rparr>)))"

definition scan_item :: "item_row \<Rightarrow> err + ItemState" where
  "scan_item r =
     bindR (scan_uint64 (itr_version r)) (\<lambda>version.
     bindR (scan_uint64 (itr_base_version r)) (\<lambda>base.
     bindR (scan_uint64 (itr_conflict_remote_version r)) (\<lambda>remote.
       Inr \<lparr>it_KeyID = itr_key_id r, it_NamespaceID = itr_namespace_id r,
            it_Collection = itr_collection_name r, it_Key = itr_item_key r,
            it_ItemID = itr_item_id r, it_Version = version, it_BaseVersion = base,
            it_BaseValue = scan_bytes (itr_base_value r), it_Dirty = (itr_dirty r \<noteq> 0),
            it_Conflict = (itr_conflict r \<noteq> 0), it_ConflictRemoteVersion = remote,
            it_ConflictRemoteValue = scan_bytes (itr_conflict_remote_value r),
            it_UpdatedAt = itr_updated_at r\<rparr>)))"

lemma scan_identity_to_row:
  "scan_identity (identity_to_row now state) =
     state\<lparr>id_UpdatedAt := sql_now now (id_UpdatedAt state)\<rparr>"
  by (simp add: scan_identity_def identity_to_row_def nullTime_def nullString_def time_is_zero_def)

lemma scan_namespace_to_row:
  "namespace_to_row now state = Inr r \<Longrightarrow>
     scan_namespace r = Inr (state\<lparr>ns_UpdatedAt := sql_now now (ns_UpdatedAt state)\<rparr>)"
  by (auto simp: scan_namespace_def namespace_to_row_def sql_uint64_storable)

lemma scan_item_to_row:
  "item_to_row now state = Inr r \<Longrightarrow>
     scan_item r = Inr (state\<lparr>it_UpdatedAt := sql_now now (it_UpdatedAt state)\<rparr>)"
  by (auto simp: scan_item_def item_to_row_def sql_uint64_storable)

end
