(* ===== verification/Store_Operations.thy ===== *)
theory Store_Operations
  imports Sqlite_Store
begin

text \<open>
  The operations of the SQLite store (\<open>src/storage/sqlite/store.go\<close>) as effects on the
  database, its well-formedness invariant, and the view of the item table as a map from
  primary key to item state, which \<open>SaveItem\<close> updates at one point and \<open>GetItemByID\<close> reads.
\<close>

section \<open>Operations\<close>

definition LoadIdentity :: "string \<Rightarrow> (database, IdentityState) eff" where
  "LoadIdentity keyID = (\<lambda>d.
     (case lookup_row idr_key_id keyID (identity_states d) of
        None \<Rightarrow> Inl (Sentinel ErrNotFound)
      | Some r \<Rightarrow> Inr (scan_identity r), d))"

definition SaveIdentity :: "gotime \<Rightarrow> IdentityState \<Rightarrow> (database, unit) eff" where
  "SaveIdentity now state = (\<lambda>d.
     (Inr (), d\<lparr>identity_states :=
        upsert idr_key_id (identity_to_row now state) (identity_states d)\<rparr>))"

definition GetNamespace :: "string \<Rightarrow> string \<Rightarrow> (database, NamespaceState) eff" where
  "GetNamespace keyID namespaceID = (\<lambda>d.
     (case lookup_row namespace_pk (keyID, namespaceID) (namespaces d) of
        None \<Rightarrow> Inl (Sentinel ErrNotFound)
      | Some r \<Rightarrow> scan_namespace r, d))"

definition ListNamespaces :: "string \<Rightarrow> (database, NamespaceState list) eff" where
  "ListNamespaces keyID = (\<lambda>d.
     (mapR scan_namespace
        (sort_key (\<lambda>r. (nsr_updated_at r, nsr_namespace_id r))
           (filter (\<lambda>r. nsr_key_id r = keyID) (namespaces d))), d))"

definition SaveNamespace :: "gotime \<Rightarrow> NamespaceState \<Rightarrow> (database, unit) eff" where
  "SaveNamespace now state = (\<lambda>d.
     case namespace_to_row now state of
       Inl e \<Rightarrow> (Inl e, d)
     | Inr r \<Rightarrow> (Inr (), d\<lparr>namespaces := upsert namespace_pk r (namespaces d)\<rparr>))"

text \<open>The two updates of one transaction.\<close>

definition ForgetIdentitySecrets :: "gotime \<Rightarrow> string \<Rightarrow> (database, unit) eff" where
  "ForgetIdentitySecrets now keyID = (\<lambda>d.
     (Inr (), d\<lparr>identity_states :=
          map (\<lambda>r. if idr_key_id r = keyID
                   then r\<lparr>idr_access_token := [], idr_token_expiry := None,
                          idr_updated_at := now\<rparr> else r) (identity_states d),
        namespaces :=
          map (\<lambda>r. if nsr_key_id r = keyID
                   then r\<lparr>nsr_dek := None, nsr_updated_at := now\<rparr> else r) (namespaces d)\<rparr>))"

definition ResetSyncState :: "gotime \<Rightarrow> string \<Rightarrow> (database, unit) eff" where
  "ResetSyncState now keyID = (\<lambda>d.
     (Inr (), d\<lparr>items := filter (\<lambda>r. itr_key_id r \<noteq> keyID) (items d),
        namespaces := filter (\<lambda>r. nsr_key_id r \<noteq> keyID) (namespaces d),
        identity_states :=
          map (\<lambda>r. if idr_key_id r = keyID
                   then r\<lparr>idr_default_namespace_id := None, idr_updated_at := now\<rparr> else r)
            (identity_states d)\<rparr>))"

definition getItem :: "(item_row \<Rightarrow> bool) \<Rightarrow> (database, ItemState) eff" where
  "getItem query = (\<lambda>d.
     (case find query (items d) of
        None \<Rightarrow> Inl (Sentinel ErrNotFound)
      | Some r \<Rightarrow> scan_item r, d))"

definition GetItemByID :: "string \<Rightarrow> string \<Rightarrow> string \<Rightarrow> (database, ItemState) eff" where
  "GetItemByID keyID namespaceID itemID =
     getItem (\<lambda>r. item_pk r = (keyID, namespaceID, itemID))"

definition GetItemByLogicalKey ::
  "string \<Rightarrow> string \<Rightarrow> string \<Rightarrow> string \<Rightarrow> (database, ItemState) eff" where
  "GetItemByLogicalKey keyID namespaceID collection key =
     getItem (\<lambda>r. item_logical r = (keyID, namespaceID, collection, key))"

definition ListNamespaceItems :: "string \<Rightarrow> string \<Rightarrow> (database, ItemState list) eff" where
  "ListNamespaceItems keyID namespaceID = (\<lambda>d.
     (mapR scan_item
        (sort_key (\<lambda>r. (itr_updated_at r, itr_item_id r))
           (filter (\<lambda>r. itr_key_id r = keyID \<and> itr_namespace_id r = namespaceID) (items d))), d))"

definition ListDirtyItems :: "string \<Rightarrow> (database, ItemState list) eff" where
  "ListDirtyItems keyID = (\<lambda>d.
     (mapR scan_item
        (sort_key (\<lambda>r. (itr_updated_at r, itr_item_id r))
           (filter (\<lambda>r. itr_key_id r = keyID \<and> itr_dirty r = 1) (items d))), d))"

definition SaveItem :: "gotime \<Rightarrow> ItemState \<Rightarrow> (database, unit) eff" where
  "SaveItem now state = (\<lambda>d.
     case item_to_row now state of
       Inl e \<Rightarrow> (Inl e, d)
     | Inr r \<Rightarrow>
         if \<exists>x \<in> set (items d). item_logical x = item_logical r \<and> item_pk x \<noteq> item_pk r
         then (Inl (Errorf ''UNIQUE constraint failed''), d)
         else (Inr (), d\<lparr>items := upsert item_pk r (items d)\<rparr>))"

lemmas store_read_defs =
  LoadIdentity_def GetNamespace_def ListNamespaces_def getItem_def GetItemByID_def
  GetItemByLogicalKey_def ListNamespaceItems_def ListDirtyItems_def

lemmas store_write_defs =
  SaveIdentity_def SaveNamespace_def ForgetIdentitySecrets_def ResetSyncState_def SaveItem_def

lemma store_reads_only:
  "snd (LoadIdentity k d) = d" "snd (GetNamespace k n d) = d" "snd (ListNamespaces k d) = d"
  "snd (GetItemByID k n i d) = d" "snd (GetItemByLogicalKey k n c y d) = d"
  "snd (ListNamespaceItems k n d) = d" "snd (ListDirtyItems k d) = d"
  by (simp_all add: store_read_defs)

section \<open>Well-formed databases\<close>

definition int_column_ok :: "int \<Rightarrow> bool" where
  "int_column_ok i \<longleftrightarrow> 0 \<le> i \<and> i < 2 ^ 63"

definition item_row_ok :: "item_row \<Rightarrow> bool" where
  "item_row_ok r \<longleftrightarrow>
     int_column_ok (itr_version r) \<and> int_column_ok (itr_base_version r) \<and>
     int_column_ok (itr_conflict_remote_version r) \<and>
     itr_dirty r \<in> {0, 1} \<and> itr_conflict r \<in> {0, 1}"

definition namespace_row_ok :: "namespace_row \<Rightarrow> bool" where
  "namespace_row_ok r \<longleftrightarrow> int_column_ok (nsr_namespace_head r)"

definition db_wf :: "database \<Rightarrow> bool" where
  "db_wf d \<longleftrightarrow>
     keys_distinct idr_key_id (identity_states d) \<and>
     keys_distinct namespace_pk (namespaces d) \<and>
     keys_distinct item_pk (items d) \<and>
     keys_distinct item_logical (items d) \<and>
     (\<forall>r \<in> set (namespaces d). namespace_row_ok r) \<and>
     (\<forall>r \<in> set (items d). item_row_ok r)"

lemma db_wf_empty: "db_wf empty_database"
  by (simp add: db_wf_def empty_database_def keys_distinct_def)

lemma storable_int_column: "storable v \<Longrightarrow> int_column_ok (uint v)"
  by (simp add: storable_def int_column_ok_def)

lemma item_to_row_ok: "item_to_row now s = Inr r \<Longrightarrow> item_row_ok r"
  by (auto simp: item_to_row_def sql_uint64_storable item_row_ok_def storable_int_column
      boolToInt_def)

lemma namespace_to_row_ok: "namespace_to_row now s = Inr r \<Longrightarrow> namespace_row_ok r"
  by (auto simp: namespace_to_row_def sql_uint64_storable namespace_row_ok_def storable_int_column)

lemma keys_distinct_upsert_other:
  assumes "keys_distinct key t" and "keys_distinct other t"
    and "\<And>x. x \<in> set t \<Longrightarrow> other x = other r \<Longrightarrow> key x = key r"
  shows "keys_distinct other (upsert key r t)"
proof (cases "key r \<in> key ` set t")
  case False
  have "other r \<notin> other ` set t"
  proof
    assume "other r \<in> other ` set t"
    then obtain x where "x \<in> set t" "other x = other r" by (metis imageE)
    with assms(3) have "key r \<in> key ` set t" by (metis imageI)
    with False show False by blast
  qed
  with False assms(2) show ?thesis
    by (simp add: upsert_def keys_distinct_def)
next
  case True
  have "keys_distinct other (map (\<lambda>x. if key x = key r then r else x) t)"
    using assms
  proof (induction t)
    case Nil
    then show ?case by simp
  next
    case (Cons y t)
    then have IH: "keys_distinct other (map (\<lambda>x. if key x = key r then r else x) t)"
      by (simp add: keys_distinct_def)
    show ?case
    proof (cases "key y = key r")
      case yes: True
      then have "\<forall>x \<in> set t. key x \<noteq> key r"
        using Cons.prems(1) by (auto simp: keys_distinct_def rev_image_eqI)
      then have "map (\<lambda>x. if key x = key r then r else x) t = t" and "other r \<notin> other ` set t"
        using Cons.prems(3) by (auto intro: map_idI)
      with yes Cons.prems(2) show ?thesis
        by (simp add: keys_distinct_def)
    next
      case no: False
      then have "other y \<noteq> other r" using Cons.prems(3) [of y] by auto
      with no IH Cons.prems(2) show ?thesis
        by (auto simp: keys_distinct_def split: if_splits)
    qed
  qed
  with True show ?thesis by (simp add: upsert_def)
qed

lemma db_wf_SaveIdentity: "db_wf d \<Longrightarrow> db_wf (snd (SaveIdentity now s d))"
  by (simp add: db_wf_def SaveIdentity_def keys_distinct_upsert)

lemma db_wf_SaveNamespace:
  assumes "db_wf d"
  shows "db_wf (snd (SaveNamespace now s d))"
proof (cases "namespace_to_row now s")
  case (Inl e)
  with assms show ?thesis by (simp add: SaveNamespace_def)
next
  case (Inr r)
  with assms show ?thesis
    by (simp add: SaveNamespace_def db_wf_def keys_distinct_upsert namespace_to_row_ok
        namespace_table.set_put)
qed

lemma db_wf_SaveItem:
  assumes "db_wf d"
  shows "db_wf (snd (SaveItem now s d))"
proof (cases "item_to_row now s")
  case (Inl e)
  with assms show ?thesis by (simp add: SaveItem_def)
next
  case (Inr r)
  show ?thesis
  proof (cases "\<exists>x \<in> set (items d). item_logical x = item_logical r \<and> item_pk x \<noteq> item_pk r")
    case True
    with assms Inr show ?thesis by (simp add: SaveItem_def)
  next
    case False
    then have "keys_distinct item_logical (upsert item_pk r (items d))"
      using assms by (intro keys_distinct_upsert_other) (auto simp: db_wf_def)
    with False assms Inr show ?thesis
      by (simp add: SaveItem_def db_wf_def keys_distinct_upsert item_to_row_ok
          item_table.set_put)
  qed
qed

lemma db_wf_ForgetIdentitySecrets: "db_wf d \<Longrightarrow> db_wf (snd (ForgetIdentitySecrets now k d))"
  by (auto simp: db_wf_def ForgetIdentitySecrets_def keys_distinct_map namespace_pk_def
      namespace_row_ok_def)

lemma db_wf_ResetSyncState: "db_wf d \<Longrightarrow> db_wf (snd (ResetSyncState now k d))"
  by (auto simp: db_wf_def ResetSyncState_def keys_distinct_map keys_distinct_filter)

section \<open>The items as a map\<close>

definition item_of :: "database \<Rightarrow> string \<times> string \<times> string \<Rightarrow> ItemState option" where
  "item_of d k =
     (case lookup_row item_pk k (items d) of
        None \<Rightarrow> None
      | Some r \<Rightarrow> (case scan_item r of Inl _ \<Rightarrow> None | Inr s \<Rightarrow> Some s))"

definition item_key :: "ItemState \<Rightarrow> string \<times> string \<times> string" where
  "item_key s = (it_KeyID s, it_NamespaceID s, it_ItemID s)"

definition logical_key :: "ItemState \<Rightarrow> string \<times> string \<times> string \<times> string" where
  "logical_key s = (it_KeyID s, it_NamespaceID s, it_Collection s, it_Key s)"

definition item_storable :: "ItemState \<Rightarrow> bool" where
  "item_storable s \<longleftrightarrow>
     storable (it_Version s) \<and> storable (it_BaseVersion s) \<and>
     storable (it_ConflictRemoteVersion s)"

lemma int_column_scan: "int_column_ok i \<Longrightarrow> \<exists>v. scan_uint64 i = Inr v \<and> storable v \<and> uint v = i"
  by (auto simp: int_column_ok_def scan_uint64_def storable_def uint_word_of_int)

lemma item_row_ok_scan:
  assumes "item_row_ok r"
  obtains s where "scan_item r = Inr s" and "item_storable s" and "item_key s = item_pk r"
    and "logical_key s = item_logical r" and "it_Dirty s \<longleftrightarrow> itr_dirty r = 1"
    and "uint (it_Version s) = itr_version r" and "it_UpdatedAt s = itr_updated_at r"
proof -
  from assms obtain v b c where
    "scan_uint64 (itr_version r) = Inr v" "storable v" "uint v = itr_version r"
    "scan_uint64 (itr_base_version r) = Inr b" "storable b"
    "scan_uint64 (itr_conflict_remote_version r) = Inr c" "storable c"
    unfolding item_row_ok_def by (metis int_column_scan)
  with assms that show thesis
    by (auto simp: scan_item_def item_storable_def item_key_def item_pk_def logical_key_def
        item_logical_def item_row_ok_def)
qed

lemma item_of_key:
  assumes "db_wf d" and "item_of d k = Some s"
  shows "item_key s = k" and "item_storable s"
proof -
  from assms(2) obtain r where r: "lookup_row item_pk k (items d) = Some r" "scan_item r = Inr s"
    by (auto simp: item_of_def split: option.splits sum.splits)
  then have "item_pk r = k" and "item_row_ok r"
    using assms(1) by (auto simp: db_wf_def lookup_row_iff)
  then show "item_key s = k" and "item_storable s"
    using r(2) by (metis item_row_ok_scan sum.inject(2))+
qed

lemma GetItemByID_item_of:
  assumes "db_wf d"
  shows "GetItemByID k n i d =
     ((case item_of d (k, n, i) of None \<Rightarrow> Inl (Sentinel ErrNotFound) | Some s \<Rightarrow> Inr s), d)"
proof (cases "lookup_row item_pk (k, n, i) (items d)")
  case None
  then show ?thesis
    by (simp add: GetItemByID_def getItem_def item_of_def lookup_row_def)
next
  case (Some r)
  then have "r \<in> set (items d)" using assms by (simp add: db_wf_def lookup_row_iff)
  then have "item_row_ok r" using assms by (simp add: db_wf_def)
  then obtain s where "scan_item r = Inr s" by (rule item_row_ok_scan)
  with Some show ?thesis
    by (simp add: GetItemByID_def getItem_def item_of_def lookup_row_def)
qed

lemma SaveItem_item_of:
  assumes "SaveItem now s d = (Inr u, d')"
  shows "item_of d' =
     (item_of d)(item_key s \<mapsto> s\<lparr>it_UpdatedAt := sql_now now (it_UpdatedAt s)\<rparr>)"
    and "namespaces d' = namespaces d" and "identity_states d' = identity_states d"
    and "item_storable s"
proof -
  from assms obtain r where r: "item_to_row now s = Inr r"
    and d': "d' = d\<lparr>items := upsert item_pk r (items d)\<rparr>"
    by (auto simp: SaveItem_def split: sum.splits if_splits)
  have pk: "item_pk r = item_key s" and st: "item_storable s"
    using r by (auto simp: item_to_row_def sql_uint64_storable item_pk_def item_key_def
        item_storable_def)
  show "item_of d' =
     (item_of d)(item_key s \<mapsto> s\<lparr>it_UpdatedAt := sql_now now (it_UpdatedAt s)\<rparr>)"
    using r pk by (auto simp: fun_eq_iff item_of_def d' item_table.get_put scan_item_to_row)
  show "namespaces d' = namespaces d" "identity_states d' = identity_states d"
    by (simp_all add: d')
  show "item_storable s" by (rule st)
qed

lemma SaveItem_error: "SaveItem now s d = (Inl e, d') \<Longrightarrow> d' = d"
  by (auto simp: SaveItem_def split: sum.splits if_splits)

section \<open>Queries over many rows\<close>

lemma scan_item_item_of:
  assumes "db_wf d" and "r \<in> set (items d)" and "scan_item r = Inr i"
  shows "item_of d (item_pk r) = Some i"
proof -
  have "lookup_row item_pk (item_pk r) (items d) = Some r"
    using assms(1,2) by (simp add: db_wf_def lookup_row_iff)
  with assms(3) show ?thesis by (simp add: item_of_def)
qed

lemma mapR_Inr_set: "mapR f xs = Inr ys \<Longrightarrow> y \<in> set ys \<longleftrightarrow> (\<exists>x \<in> set xs. f x = Inr y)"
  by (induction xs arbitrary: ys) auto

lemma mapR_total: "(\<And>x. x \<in> set xs \<Longrightarrow> \<exists>y. f x = Inr y) \<Longrightarrow> \<exists>ys. mapR f xs = Inr ys"
proof (induction xs)
  case Nil
  then show ?case by simp
next
  case (Cons x xs)
  then obtain y ys where "f x = Inr y" "mapR f xs = Inr ys"
    by (metis list.set_intros(1,2))
  then show ?case by simp
qed

lemma db_wf_scan:
  assumes "db_wf d" and "r \<in> set (items d)"
  obtains i where "scan_item r = Inr i" and "item_key i = item_pk r"
    and "it_Dirty i \<longleftrightarrow> itr_dirty r = 1"
proof -
  from assms have "item_row_ok r" by (simp add: db_wf_def)
  then show thesis by (rule item_row_ok_scan) (rule that)
qed

text \<open>The rows a query selects, as items.\<close>

lemma query_items:
  assumes wf: "db_wf d"
    and sel: "\<And>r i. r \<in> set (items d) \<Longrightarrow> scan_item r = Inr i \<Longrightarrow> sel r \<longleftrightarrow> P i"
  shows "\<exists>xs. mapR scan_item (sort_key key (filter sel (items d))) = Inr xs \<and>
    (\<forall>i. i \<in> set xs \<longleftrightarrow> item_of d (item_key i) = Some i \<and> P i)"
proof -
  let ?rows = "sort_key key (filter sel (items d))"
  have "\<exists>xs. mapR scan_item ?rows = Inr xs"
    by (rule mapR_total) (use wf in \<open>auto elim: db_wf_scan\<close>)
  then obtain xs where xs: "mapR scan_item ?rows = Inr xs" ..
  have "i \<in> set xs \<longleftrightarrow> item_of d (item_key i) = Some i \<and> P i" for i
  proof
    assume "i \<in> set xs"
    with xs obtain r where r: "r \<in> set (items d)" "sel r" "scan_item r = Inr i"
      by (auto simp: mapR_Inr_set)
    with wf have "item_key i = item_pk r" by (metis db_wf_scan sum.inject(2))
    with r wf sel [OF r(1) r(3)] show "item_of d (item_key i) = Some i \<and> P i"
      by (simp add: scan_item_item_of)
  next
    assume i: "item_of d (item_key i) = Some i \<and> P i"
    then obtain r where r: "lookup_row item_pk (item_key i) (items d) = Some r" "scan_item r = Inr i"
      by (auto simp: item_of_def split: option.splits sum.splits)
    with wf have "r \<in> set (items d)" by (simp add: db_wf_def lookup_row_iff)
    with r i sel xs show "i \<in> set xs" by (auto simp: mapR_Inr_set)
  qed
  with xs show ?thesis by blast
qed

lemma ListNamespaceItems_exact:
  assumes "db_wf d"
  shows "\<exists>xs. ListNamespaceItems k n d = (Inr xs, d) \<and>
    (\<forall>i. i \<in> set xs \<longleftrightarrow> item_of d (k, n, it_ItemID i) = Some i)"
proof -
  have "\<exists>xs. mapR scan_item (sort_key (\<lambda>r. (itr_updated_at r, itr_item_id r))
        (filter (\<lambda>r. itr_key_id r = k \<and> itr_namespace_id r = n) (items d))) = Inr xs \<and>
      (\<forall>i. i \<in> set xs \<longleftrightarrow>
        item_of d (item_key i) = Some i \<and> it_KeyID i = k \<and> it_NamespaceID i = n)"
    using assms
    by (rule query_items) (auto simp: scan_item_def)
  moreover have "item_of d (item_key i) = Some i \<and> it_KeyID i = k \<and> it_NamespaceID i = n \<longleftrightarrow>
      item_of d (k, n, it_ItemID i) = Some i" for i
    using item_of_key(1) [OF assms, of "(k, n, it_ItemID i)" i] by (auto simp: item_key_def)
  ultimately show ?thesis by (auto simp: ListNamespaceItems_def)
qed

lemma mapR_map:
  assumes "mapR f xs = Inr ys" and "\<And>x y. x \<in> set xs \<Longrightarrow> f x = Inr y \<Longrightarrow> g y = h x"
  shows "map g ys = map h xs"
  using assms by (induction xs arbitrary: ys) auto

lemma ListDirtyItems_exact:
  assumes "db_wf d"
  shows "\<exists>xs. ListDirtyItems k d = (Inr xs, d) \<and>
    (\<forall>i. i \<in> set xs \<longleftrightarrow> item_of d (k, it_NamespaceID i, it_ItemID i) = Some i \<and> it_Dirty i)"
proof -
  have "\<exists>xs. mapR scan_item (sort_key (\<lambda>r. (itr_updated_at r, itr_item_id r))
        (filter (\<lambda>r. itr_key_id r = k \<and> itr_dirty r = 1) (items d))) = Inr xs \<and>
      (\<forall>i. i \<in> set xs \<longleftrightarrow> item_of d (item_key i) = Some i \<and> it_KeyID i = k \<and> it_Dirty i)"
  proof (rule query_items [OF assms])
    fix r i
    assume r: "r \<in> set (items d)" and i: "scan_item r = Inr i"
    with assms have "it_Dirty i \<longleftrightarrow> itr_dirty r = 1" by (metis db_wf_scan sum.inject(2))
    with i show "(itr_key_id r = k \<and> itr_dirty r = 1) \<longleftrightarrow> it_KeyID i = k \<and> it_Dirty i"
      by (auto simp: scan_item_def)
  qed
  moreover have "item_of d (item_key i) = Some i \<and> it_KeyID i = k \<and> it_Dirty i \<longleftrightarrow>
      item_of d (k, it_NamespaceID i, it_ItemID i) = Some i \<and> it_Dirty i" for i
    using item_of_key(1) [OF assms, of "(k, it_NamespaceID i, it_ItemID i)" i]
    by (auto simp: item_key_def)
  ultimately show ?thesis by (auto simp: ListDirtyItems_def)
qed

lemma GetItemByLogicalKey_found:
  assumes "db_wf d" and "fst (GetItemByLogicalKey k n c y d) = Inr i"
  shows "item_of d (item_key i) = Some i" and "logical_key i = (k, n, c, y)"
proof -
  from assms(2) obtain r where "find (\<lambda>r. item_logical r = (k, n, c, y)) (items d) = Some r"
    and i: "scan_item r = Inr i"
    by (auto simp: GetItemByLogicalKey_def getItem_def split: option.splits)
  then have r: "r \<in> set (items d)" "item_logical r = (k, n, c, y)"
    by (auto dest: find_SomeD)
  have "item_pk r = item_key i" "item_logical r = logical_key i"
    using i by (auto simp: scan_item_def item_pk_def item_key_def item_logical_def logical_key_def)
  with r scan_item_item_of [OF assms(1) r(1) i]
  show "item_of d (item_key i) = Some i" "logical_key i = (k, n, c, y)" by simp_all
qed

lemma GetItemByLogicalKey_missing:
  assumes "db_wf d" and "fst (GetItemByLogicalKey k n c y d) = Inl e"
  shows "e = Sentinel ErrNotFound" and "item_of d kk = Some i \<Longrightarrow> logical_key i \<noteq> (k, n, c, y)"
proof -
  have none: "find (\<lambda>r. item_logical r = (k, n, c, y)) (items d) = None"
  proof (rule ccontr)
    assume "find (\<lambda>r. item_logical r = (k, n, c, y)) (items d) \<noteq> None"
    then obtain r where r: "find (\<lambda>r. item_logical r = (k, n, c, y)) (items d) = Some r" by blast
    then have "r \<in> set (items d)" by (auto dest: find_SomeD)
    with assms(1) obtain i where "scan_item r = Inr i" by (metis db_wf_scan)
    with r assms(2) show False by (simp add: GetItemByLogicalKey_def getItem_def)
  qed
  with assms(2) show "e = Sentinel ErrNotFound"
    by (simp add: GetItemByLogicalKey_def getItem_def)
  assume "item_of d kk = Some i"
  then obtain r where "lookup_row item_pk kk (items d) = Some r" and i: "scan_item r = Inr i"
    by (auto simp: item_of_def split: option.splits sum.splits)
  then have "r \<in> set (items d)" by (auto simp: lookup_row_def dest: find_SomeD)
  with none have "item_logical r \<noteq> (k, n, c, y)" by (auto simp: find_None_iff)
  with i show "logical_key i \<noteq> (k, n, c, y)"
    by (auto simp: scan_item_def item_logical_def logical_key_def)
qed

end
