(* ===== verification/Engine_World.thy ===== *)
theory Engine_World
  imports Store_Operations
begin

text \<open>
  The state of an engine and the world around it (\<open>src/bitboxsync/engine.go\<close>,
  \<open>src/bitboxsync/engine_events.go\<close>, the interfaces \<open>raw.Identity\<close> of
  \<open>src/raw/identity.go\<close> and \<open>registeredCollection\<close>).

  Everything outside the repository is a value \<open>st_world\<close> of an arbitrary type \<open>'w\<close> and
  the functions of the record \<open>env\<close> that act on it: the clock, the random source, the HTTP
  transport, the key device, the disk under the database. The backends of the application
  act on the same world. A call into any of them may change the world in any way, so writes
  of the application and of other clients between two steps of the engine are included.
\<close>

section \<open>Interfaces\<close>

record 'w Identity =
  ident_Kind :: string
  ident_AuthPublicKey :: bytes
  ident_WrapPublicKey :: bytes
  ident_SignLoginIntent :: "bytes \<Rightarrow> ('w, bytes) eff"
  ident_SignRefreshIntent :: "bytes \<Rightarrow> ('w, bytes) eff"
  ident_SignRevokeAllTokensIntent :: "bytes \<Rightarrow> ('w, bytes) eff"
  ident_SignCreateNamespaceInviteIntent ::
    "bytes \<Rightarrow> bytes \<Rightarrow> bytes \<Rightarrow> bytes \<Rightarrow> int \<Rightarrow> int \<Rightarrow> ('w, bytes) eff"
  ident_SignNamespaceJoinRequestIntent ::
    "bytes \<Rightarrow> bytes \<Rightarrow> string \<Rightarrow> int \<Rightarrow> ('w, bytes) eff"
  ident_Attest :: "bytes \<Rightarrow> ('w, bytes) eff"
  ident_UnwrapNamespaceDEK :: "bytes \<Rightarrow> bytes \<Rightarrow> ('w, bytes) eff"

record 'w registeredCollection =
  rc_namespaceID :: string
  rc_name :: string
  rc_keys :: "('w, string list) eff"
  rc_snapshot :: "('w, (string \<times> bytes) list) eff"
  rc_get :: "string \<Rightarrow> ('w, bytes) eff"
  rc_set :: "string \<Rightarrow> bytes \<Rightarrow> ('w, unit) eff"
  rc_setIfCurrent :: "string \<Rightarrow> bytes \<Rightarrow> bool \<Rightarrow> bytes \<Rightarrow> ('w, bool) eff"
  rc_mergeBytes :: "string \<Rightarrow> bytes option \<Rightarrow> bytes \<Rightarrow> bytes \<Rightarrow> err + bytes \<times> bool"

text \<open>
  One HTTP exchange: what \<open>doJSON\<close> sends, and the status, the error message and the body
  decoded into the response type the request asks for.
\<close>

datatype http_method = GET | POST | PUT | DELETE

record http_request =
  rq_method :: http_method
  rq_path :: string
  rq_accessToken :: string
  rq_body :: api_request
  rq_headers :: "(string \<times> string) list"

record http_response =
  rs_status :: int
  rs_message :: string
  rs_body :: "err + api_response"

record 'w env =
  env_cfg :: Config
  env_crypto :: crypto
  env_keyIDRaw :: bytes
  env_identity :: "'w Identity"
  env_now :: "'w \<Rightarrow> gotime \<times> 'w"
  env_rand :: "nat \<Rightarrow> 'w \<Rightarrow> bytes \<times> 'w"
  env_db_fault :: "'w \<Rightarrow> string option \<times> 'w"
  env_http :: "http_request \<Rightarrow> ('w, http_response) eff"

section \<open>Engine state\<close>

text \<open>
  \<open>st_events\<close> is what was sent on the event channel and \<open>st_requests\<close> what was sent to the
  server, oldest first: the two observable outputs of the client. \<open>st_collections\<close> is the
  Go map of registrations. The three channels of capacity one that carry wake-ups are
  booleans: full or empty.
\<close>

record 'w st =
  st_db :: database
  st_identity :: IdentityState
  st_collections :: "(string \<times> 'w registeredCollection) list"
  st_events :: "Event list"
  st_requests :: "http_request list"
  st_activitySeq :: u64
  st_idlePolling :: bool
  st_wakeSync :: bool
  st_loginSucceededRun :: bool
  st_loginSucceededWatch :: bool
  st_eventsClosed :: bool
  st_closed :: bool
  st_world :: 'w

definition env_keyID :: "'w env \<Rightarrow> string" where
  "env_keyID E = hex_encode (env_keyIDRaw E)"

definition outside :: "('w, 'a) eff \<Rightarrow> ('w st, 'a) eff" where
  "outside m = (\<lambda>s. case m (st_world s) of (r, w) \<Rightarrow> (r, s\<lparr>st_world := w\<rparr>))"

definition world_value :: "('w \<Rightarrow> 'a \<times> 'w) \<Rightarrow> ('w st, 'a) eff" where
  "world_value f = (\<lambda>s. case f (st_world s) of (x, w) \<Rightarrow> (Inr x, s\<lparr>st_world := w\<rparr>))"

definition on_db :: "(database, 'a) eff \<Rightarrow> ('w st, 'a) eff" where
  "on_db m = (\<lambda>s. case m (st_db s) of (r, d) \<Rightarrow> (r, s\<lparr>st_db := d\<rparr>))"

text \<open>\<open>time.Now().UTC()\<close> and \<open>rand.Read\<close>, which never fails.\<close>

definition time_now :: "'w env \<Rightarrow> ('w st, gotime) eff" where
  "time_now E = world_value (env_now E)"

definition rand_bytes :: "'w env \<Rightarrow> nat \<Rightarrow> ('w st, bytes) eff" where
  "rand_bytes E n = world_value (env_rand E n)"

definition RandomNamespaceID :: "'w env \<Rightarrow> ('w st, bytes) eff" where
  "RandomNamespaceID E = rand_bytes E NamespaceIDLength"

definition RandomInviteID :: "'w env \<Rightarrow> ('w st, bytes) eff" where
  "RandomInviteID E = rand_bytes E InviteIDLength"

definition RandomInviteSecret :: "'w env \<Rightarrow> ('w st, bytes) eff" where
  "RandomInviteSecret E = rand_bytes E InviteSecretLength"

definition RandomNamespaceDEK :: "'w env \<Rightarrow> ('w st, bytes) eff" where
  "RandomNamespaceDEK E = rand_bytes E NamespaceDEKLen"

text \<open>
  A call of the store: it may fail for reasons of its own, changing nothing. Such a failure is
  an error of the SQL driver, never one of the sentinels.
\<close>

definition stored :: "'w env \<Rightarrow> (database, 'a) eff \<Rightarrow> ('w st, 'a) eff" where
  "stored E m =
     bindM (world_value (env_db_fault E)) (\<lambda>fault.
       case fault of Some msg \<Rightarrow> raise (Errorf msg) | None \<Rightarrow> on_db m)"

text \<open>A store write stamps an unset \<open>UpdatedAt\<close> with the current time.\<close>

definition store_SaveItem :: "'w env \<Rightarrow> ItemState \<Rightarrow> ('w st, unit) eff" where
  "store_SaveItem E state = bindM (time_now E) (\<lambda>now. stored E (SaveItem now state))"

definition store_SaveNamespace :: "'w env \<Rightarrow> NamespaceState \<Rightarrow> ('w st, unit) eff" where
  "store_SaveNamespace E state = bindM (time_now E) (\<lambda>now. stored E (SaveNamespace now state))"

definition store_SaveIdentity :: "'w env \<Rightarrow> IdentityState \<Rightarrow> ('w st, unit) eff" where
  "store_SaveIdentity E state = bindM (time_now E) (\<lambda>now. stored E (SaveIdentity now state))"

section \<open>Events\<close>

definition isSyncActivityEvent :: "EventType \<Rightarrow> bool" where
  "isSyncActivityEvent t \<longleftrightarrow>
     t \<in> {EventNamespaceChanged, EventItemChanged, EventItemDownloaded, EventItemUploaded,
          EventConflictDetected, EventUnknownRemoteItem}"

text \<open>
  The channel is read by the application; a full channel blocks the sender, which delays
  the step but does not change it.
\<close>

definition emit :: "'w env \<Rightarrow> Event \<Rightarrow> ('w st, unit) eff" where
  "emit E event =
     bindM (if time_is_zero (ev_At event)
            then bindM (time_now E) (\<lambda>now. ret (event\<lparr>ev_At := now\<rparr>)) else ret event) (\<lambda>event.
     writes (\<lambda>s.
       if st_eventsClosed s then s
       else s\<lparr>st_activitySeq :=
                (if isSyncActivityEvent (ev_Type event) then st_activitySeq s + 1
                 else st_activitySeq s),
              st_events := st_events s @ [event]\<rparr>))"

definition emitItem :: "'w env \<Rightarrow> ItemState \<Rightarrow> EventType \<Rightarrow> ('w st, unit) eff" where
  "emitItem E item eventType =
     emit E ((plain_event eventType)\<lparr>ev_NamespaceID := it_NamespaceID item,
       ev_Collection := it_Collection item, ev_Key := it_Key item, ev_ItemID := it_ItemID item\<rparr>)"

definition emitAuthEvent :: "'w env \<Rightarrow> EventType \<Rightarrow> gotime \<Rightarrow> ('w st, unit) eff" where
  "emitAuthEvent E eventType tokenExpiresAt =
     emit E ((plain_event eventType)\<lparr>ev_TokenExpiresAt := tokenExpiresAt\<rparr>)"

section \<open>Opening and closing\<close>

definition Open :: "Config \<Rightarrow> 'w env \<Rightarrow> database \<Rightarrow> 'w \<Rightarrow> (err + 'w env \<times> 'w st) \<times> 'w" where
  "Open cfg E db w =
     (case withDefaults cfg of
        Inl e \<Rightarrow> (Inl e, w)
      | Inr cfg \<Rightarrow>
          let E = E\<lparr>env_cfg := cfg,
                    env_keyIDRaw :=
                      KeyIDFromAuthPublicKey (env_crypto E) (ident_AuthPublicKey (env_identity E))\<rparr>;
              s = \<lparr>st_db = db,
                   st_identity =
                     \<lparr>id_KeyID = env_keyID E, id_Kind = ident_Kind (env_identity E),
                      id_AccessToken = [], id_TokenExpiry = 0, id_DefaultNamespaceID = [],
                      id_UpdatedAt = 0\<rparr>,
                   st_collections = [], st_events = [], st_requests = [], st_activitySeq = 0,
                   st_idlePolling = cfg_IdlePolling cfg, st_wakeSync = False,
                   st_loginSucceededRun = False, st_loginSucceededWatch = False,
                   st_eventsClosed = False, st_closed = False, st_world = w\<rparr>
          in case stored E (LoadIdentity (env_keyID E)) s of
               (Inr state, s) \<Rightarrow> (Inr (E, s\<lparr>st_identity := state\<rparr>), st_world s)
             | (Inl e, s) \<Rightarrow>
                 if errors_is ErrNotFound e then (Inr (E, s), st_world s)
                 else (Inl e, st_world s))"

text \<open>The first call of \<open>Close\<close> closes; later ones do nothing.\<close>

definition Close :: "('w st, unit) eff" where
  "Close = writes (\<lambda>s. if st_closed s then s else s\<lparr>st_closed := True, st_eventsClosed := True\<rparr>)"

section \<open>Weakest preconditions of the primitives\<close>

lemma wp_outside [wp]:
  "wp (outside m) Q X s =
     (case m (st_world s) of (r, w) \<Rightarrow>
        (case r of Inl e \<Rightarrow> X e (s\<lparr>st_world := w\<rparr>) | Inr x \<Rightarrow> Q x (s\<lparr>st_world := w\<rparr>)))"
  by (auto simp: wp_def outside_def split: prod.split sum.split)

lemma succeeds_outside:
  "outside m s = (Inr x, u) \<longleftrightarrow> (\<exists>w. m (st_world s) = (Inr x, w) \<and> u = s\<lparr>st_world := w\<rparr>)"
  by (auto simp: outside_def split: prod.splits)

lemma wp_world_value [wp]:
  "wp (world_value f) Q X s =
     (case f (st_world s) of (x, w) \<Rightarrow> Q x (s\<lparr>st_world := w\<rparr>))"
  by (auto simp: wp_def world_value_def split: prod.split)

lemma wp_on_db [wp]:
  "wp (on_db m) Q X s =
     (case m (st_db s) of (r, d) \<Rightarrow>
        (case r of Inl e \<Rightarrow> X e (s\<lparr>st_db := d\<rparr>) | Inr x \<Rightarrow> Q x (s\<lparr>st_db := d\<rparr>)))"
  by (auto simp: wp_def on_db_def split: prod.split sum.split)

text \<open>
  Abstract versions: what holds after a primitive whatever the world answers. A predicate on
  states that does not look at the world and the outputs is \<open>worldly\<close>.
\<close>

lemma wp_outside_any:
  assumes "\<And>x w. Q x (s\<lparr>st_world := w\<rparr>)" and "\<And>e w. X e (s\<lparr>st_world := w\<rparr>)"
  shows "wp (outside m) Q X s"
  using assms by (auto simp: wp split: prod.split sum.split)

lemma wp_time_now:
  assumes "\<And>t w. Q t (s\<lparr>st_world := w\<rparr>)"
  shows "wp (time_now E) Q X s"
  using assms by (auto simp: time_now_def wp split: prod.split)

lemma wp_rand_bytes:
  assumes "\<And>b w. Q b (s\<lparr>st_world := w\<rparr>)"
  shows "wp (rand_bytes E n) Q X s"
  using assms by (auto simp: rand_bytes_def wp split: prod.split)

lemma wp_stored:
  assumes "\<And>w. case m (st_db s) of (r, d) \<Rightarrow>
      (case r of Inl e \<Rightarrow> X e (s\<lparr>st_world := w, st_db := d\<rparr>)
       | Inr x \<Rightarrow> Q x (s\<lparr>st_world := w, st_db := d\<rparr>))"
    and "\<And>msg w. X (Errorf msg) (s\<lparr>st_world := w\<rparr>)"
  shows "wp (stored E m) Q X s"
  using assms by (auto simp: stored_def wp split: prod.splits option.splits)

section \<open>What is sent\<close>

text \<open>
  An item write is conditional on a version and bound to the next one: it goes to the path of
  one item, its \<open>If-Match\<close> header names the version it replaces (none for a first write), and
  the data its ciphertext is authenticated with names the namespace, the item and the version
  after that one. \<open>requests_grow\<close>: requests are only added, and item writes have this form.
\<close>

definition item_write_ok :: "http_request \<Rightarrow> bool" where
  "item_write_ok r \<longleftrightarrow>
     (\<forall>body. rq_body r = PutItemReq body \<longrightarrow>
       (\<exists>ns item v aad. BuildItemAAD ns item (v + 1) = Inr aad \<and>
          piq_AAD body = EncodeBase64 aad \<and> rq_method r = PUT \<and>
          rq_path r = ''/v1/kv/'' @ ns @ ''/'' @ item \<and>
          rq_headers r = (if v = 0 then [] else [(''If-Match'', QuoteETag v)])))"

definition requests_grow :: "http_request list \<Rightarrow> http_request list \<Rightarrow> bool" where
  "requests_grow old new \<longleftrightarrow> (\<exists>rs. new = old @ rs \<and> list_all item_write_ok rs)"

lemma requests_grow_refl [simp]: "requests_grow rs rs"
  by (simp add: requests_grow_def)

lemma requests_grow_trans: "requests_grow a b \<Longrightarrow> requests_grow b c \<Longrightarrow> requests_grow a c"
  by (auto simp: requests_grow_def)

lemma requests_grow_add: "item_write_ok r \<Longrightarrow> requests_grow rs (rs @ [r])"
  by (simp add: requests_grow_def)

section \<open>Steps that only use the world\<close>

text \<open>
  \<open>outputs_only s t\<close>: between \<open>s\<close> and \<open>t\<close> only the world, the requests sent and the
  events emitted may differ; both outputs only grow, item writes are bound to the version they
  replace, and no event is sent once the event
  channel is closed. All calls of the API, the key device, the backends and the
  store's queries are such steps, whatever they return.
\<close>

definition outputs_only :: "'w st \<Rightarrow> 'w st \<Rightarrow> bool" where
  "outputs_only s t \<longleftrightarrow>
     st_db t = st_db s \<and> st_identity t = st_identity s \<and>
     st_collections t = st_collections s \<and> st_idlePolling t = st_idlePolling s \<and>
     st_wakeSync t = st_wakeSync s \<and> st_loginSucceededRun t = st_loginSucceededRun s \<and>
     st_loginSucceededWatch t = st_loginSucceededWatch s \<and>
     st_eventsClosed t = st_eventsClosed s \<and> st_closed t = st_closed s \<and>
     (\<exists>es. st_events t = st_events s @ es) \<and> requests_grow (st_requests s) (st_requests t) \<and>
     (st_eventsClosed s \<longrightarrow> st_events t = st_events s)"

lemma outputs_only_trans:
  assumes "outputs_only s t" and "outputs_only t u"
  shows "outputs_only s u"
proof -
  have "\<exists>es. st_events t = st_events s @ es" "\<exists>fs. st_events u = st_events t @ fs"
    using assms by (simp_all add: outputs_only_def)
  then have "\<exists>gs. st_events u = st_events s @ gs"
    by (elim exE, simp)
  moreover have "requests_grow (st_requests s) (st_requests u)"
    using assms by (auto simp: outputs_only_def intro: requests_grow_trans)
  ultimately show ?thesis
    using assms by (simp add: outputs_only_def)
qed

interpretation outputs: step_relation outputs_only
  by unfold_locales (simp add: outputs_only_def, fact outputs_only_trans)

lemma outputs_only_world [simp]: "outputs_only s (s\<lparr>st_world := w\<rparr>)"
  by (simp add: outputs_only_def)

lemma outputs_only_db:
  "outputs_only s t \<Longrightarrow> st_db t = st_db s"
  "outputs_only s t \<Longrightarrow> st_identity t = st_identity s"
  "outputs_only s t \<Longrightarrow> st_collections t = st_collections s"
  by (simp_all add: outputs_only_def)

named_theorems calls

lemma stays_outside [calls]: "stays outputs_only (outside m)"
  by (auto simp: stays_def outside_def outputs_only_def split: prod.split)

lemma stays_world_value [calls]: "stays outputs_only (world_value f)"
  by (auto simp: stays_def world_value_def outputs_only_def split: prod.split)

lemma stays_time_now [calls]: "stays outputs_only (time_now E)"
  by (simp add: time_now_def stays_world_value)

lemma stays_rand_bytes [calls]: "stays outputs_only (rand_bytes E n)"
  by (simp add: rand_bytes_def stays_world_value)

lemma stays_random [calls]:
  "stays outputs_only (RandomNamespaceID E)" "stays outputs_only (RandomInviteID E)"
  "stays outputs_only (RandomInviteSecret E)" "stays outputs_only (RandomNamespaceDEK E)"
  by (simp_all add: RandomNamespaceID_def RandomInviteID_def RandomInviteSecret_def
      RandomNamespaceDEK_def stays_rand_bytes)

lemma stays_query:
  assumes "\<And>d. snd (m d) = d"
  shows "stays outputs_only (stored E m)"
proof -
  have "outputs_only s (snd (on_db m s))" for s
  proof -
    obtain r d where m: "m (st_db s) = (r, d)" by (cases "m (st_db s)") blast
    with assms [of "st_db s"] have "d = st_db s" by simp
    with m have "snd (on_db m s) = s" by (simp add: on_db_def)
    then show ?thesis by (simp add: outputs.R_refl)
  qed
  then have "stays outputs_only (on_db m)" by (rule staysI)
  then show ?thesis
    unfolding stored_def
    by (intro outputs.combinators stays_world_value)
qed

lemma stays_queries [calls]:
  "stays outputs_only (stored E (LoadIdentity k))"
  "stays outputs_only (stored E (GetNamespace k n))"
  "stays outputs_only (stored E (ListNamespaces k))"
  "stays outputs_only (stored E (GetItemByID k n i))"
  "stays outputs_only (stored E (GetItemByLogicalKey k n c y))"
  "stays outputs_only (stored E (ListNamespaceItems k n))"
  "stays outputs_only (stored E (ListDirtyItems k))"
  by (rule stays_query, rule store_reads_only)+

lemma stays_emit [calls]: "stays outputs_only (emit E ev)"
proof -
  have "stays outputs_only (writes (\<lambda>s.
       if st_eventsClosed s then s
       else s\<lparr>st_activitySeq :=
                (if isSyncActivityEvent (ev_Type event) then st_activitySeq s + 1
                 else st_activitySeq s),
              st_events := st_events s @ [event]\<rparr>))" for event
    by (simp add: stays_def writes_def outputs_only_def)
  then show ?thesis
    unfolding emit_def
    by (intro outputs.bindM) (auto intro!: outputs.combinators calls)
qed

lemma stays_emits [calls]:
  "stays outputs_only (emitItem E item ty)" "stays outputs_only (emitAuthEvent E ty t)"
  by (simp_all add: emitItem_def emitAuthEvent_def stays_emit)

text \<open>Using such a fact inside a weakest precondition.\<close>

lemma wp_stays:
  assumes "stays R m"
    and "\<And>x t. R s t \<Longrightarrow> Q x t" and "\<And>e t. R s t \<Longrightarrow> X e t"
  shows "wp m Q X s"
  using assms by (auto simp: wp_def stays_def split: prod.split sum.split) (metis snd_conv)+

lemma wp_store_SaveItem:
  assumes "\<And>t now d. outputs_only s t \<Longrightarrow> SaveItem now item (st_db s) = (Inr (), d) \<Longrightarrow>
      Q () (t\<lparr>st_db := d\<rparr>)"
    and "\<And>e t. outputs_only s t \<Longrightarrow> X e t"
  shows "wp (store_SaveItem E item) Q X s"
  unfolding store_SaveItem_def wp_bindM
proof (intro wp_time_now wp_stored, goal_cases)
  case (1 now w w')
  obtain r d where save: "SaveItem now item (st_db s) = (r, d)" by (meson surj_pair)
  show ?case
  proof (cases r)
    case (Inl e)
    with save have "d = st_db s" by (simp add: SaveItem_error)
    then have "s\<lparr>st_world := w, st_world := w', st_db := d\<rparr> = s\<lparr>st_world := w'\<rparr>" by simp
    with assms(2) [of "s\<lparr>st_world := w'\<rparr>" e] save Inl show ?thesis by simp
  next
    case (Inr u)
    with assms(1) [of "s\<lparr>st_world := w'\<rparr>" now d] save show ?thesis by simp
  qed
next
  case (2 now w msg w')
  then show ?case using assms(2) [of "s\<lparr>st_world := w'\<rparr>" "Errorf msg"] by simp
qed

end
