(* ===== verification/Raw_Client.thy ===== *)
theory Raw_Client
  imports Engine_World
begin

text \<open>
  The API client, \<open>src/raw/client.go\<close>: one function per endpoint, with the validation of
  its arguments, the request it sends and the checks on the response. Transport and JSON
  are the field \<open>env_http\<close> of the environment: it returns the status, the error message and
  the body decoded into the type of the request's response. A body of another type is a
  decoding error.
\<close>

section \<open>Requests\<close>

definition json_request :: "http_method \<Rightarrow> string \<Rightarrow> string \<Rightarrow> api_request \<Rightarrow> http_request" where
  "json_request meth path accessToken body =
     \<lparr>rq_method = meth, rq_path = path, rq_accessToken = accessToken, rq_body = body,
      rq_headers = []\<rparr>"

definition doJSON :: "'w env \<Rightarrow> http_request \<Rightarrow> ('w st, api_response) eff" where
  "doJSON E req =
     seqM (writes (\<lambda>s. s\<lparr>st_requests := st_requests s @ [req]\<rparr>))
     (bindM (outside (env_http E req)) (\<lambda>resp.
        if rs_status resp \<ge> 400 then raise (APIError (rs_status resp) (rs_message resp))
        else lift_result (rs_body resp)))"

definition unexpected_body :: "('w st, 'a) eff" where
  "unexpected_body = raise (Errorf ''decode response'')"

definition mismatch :: "string \<Rightarrow> err" where
  "mismatch what = Errorf (what @ '' mismatch'')"

definition validated :: "err + unit \<Rightarrow> ('w st, 'a) eff \<Rightarrow> ('w st, 'a) eff" where
  "validated check k = seqM (lift_result check) k"

definition namespaces_path :: "string \<Rightarrow> string \<Rightarrow> string" where
  "namespaces_path namespaceID rest = ''/v1/namespaces/'' @ namespaceID @ rest"

definition item_path :: "string \<Rightarrow> string \<Rightarrow> string" where
  "item_path namespaceID itemID = ''/v1/kv/'' @ namespaceID @ ''/'' @ itemID"

definition validateNamespaceResponse :: "string \<Rightarrow> string \<Rightarrow> string \<Rightarrow> string \<Rightarrow> err + unit" where
  "validateNamespaceResponse label namespaceID kind wantKind =
     (case ValidateNamespaceID namespaceID of
        Inl e \<Rightarrow> Inl (Wrapf (label @ '' namespace'') e)
      | Inr _ \<Rightarrow> ensureR (kind = wantKind) (mismatch (label @ '' kind'')) (Inr ()))"

section \<open>Authentication\<close>

definition client_Challenge :: "'w env \<Rightarrow> string \<Rightarrow> ('w st, ChallengeResponse) eff" where
  "client_Challenge E purpose =
     bindM (doJSON E (json_request POST ''/v1/auth/challenge'' []
       (ChallengeReq \<lparr>chq_Purpose = purpose, chq_Kind = IdentityKindKeystore,
          chq_Action = [], chq_ActionFieldsHash = []\<rparr>))) (\<lambda>body.
     case body of ChallengeResp resp \<Rightarrow> ret resp | _ \<Rightarrow> unexpected_body)"

definition client_SensitiveActionChallenge ::
  "'w env \<Rightarrow> string \<Rightarrow> string \<Rightarrow> ('w st, ChallengeResponse) eff" where
  "client_SensitiveActionChallenge E action actionFieldsHash =
     bindM (doJSON E (json_request POST ''/v1/auth/challenge'' []
       (ChallengeReq \<lparr>chq_Purpose = ChallengePurposeSensitiveAction,
          chq_Kind = IdentityKindKeystore, chq_Action = action,
          chq_ActionFieldsHash = actionFieldsHash\<rparr>))) (\<lambda>body.
     case body of ChallengeResp resp \<Rightarrow> ret resp | _ \<Rightarrow> unexpected_body)"

definition client_Login :: "'w env \<Rightarrow> LoginRequest \<Rightarrow> ('w st, LoginResponse) eff" where
  "client_Login E req =
     bindM (doJSON E (json_request POST ''/v1/auth/login'' [] (LoginReq req))) (\<lambda>body.
     case body of
       LoginResp resp \<Rightarrow>
         seqM (guardM (lgr_Kind resp = lgq_Kind req) (mismatch ''login response kind''))
         (case lgr_DefaultNamespaceID resp of
            None \<Rightarrow> ret resp
          | Some nsid \<Rightarrow>
              (case ValidateNamespaceID nsid of
                 Inl e \<Rightarrow> raise (Wrapf ''login response default namespace'' e)
               | Inr _ \<Rightarrow> ret resp))
     | _ \<Rightarrow> unexpected_body)"

definition client_Refresh :: "'w env \<Rightarrow> string \<Rightarrow> RefreshRequest \<Rightarrow> ('w st, RefreshResponse) eff" where
  "client_Refresh E accessToken req =
     bindM (doJSON E (json_request POST ''/v1/auth/refresh'' accessToken (RefreshReq req))) (\<lambda>body.
     case body of
       RefreshResp resp \<Rightarrow>
         seqM (guardM (rfr_Kind resp = rfq_Kind req) (mismatch ''refresh response kind'')) (ret resp)
     | _ \<Rightarrow> unexpected_body)"

definition client_RevokeAllTokens ::
  "'w env \<Rightarrow> string \<Rightarrow> RevokeAllTokensRequest \<Rightarrow> ('w st, unit) eff" where
  "client_RevokeAllTokens E accessToken req =
     bindM (doJSON E (json_request DELETE ''/v1/auth/tokens'' accessToken
       (RevokeAllTokensReq req))) (\<lambda>_. ret ())"

section \<open>Namespaces\<close>

definition client_GetDefaultNamespace ::
  "'w env \<Rightarrow> string \<Rightarrow> ('w st, string \<times> string) eff" where
  "client_GetDefaultNamespace E accessToken =
     bindM (doJSON E (json_request GET ''/v1/namespaces/default'' accessToken NoBody)) (\<lambda>body.
     case body of
       DefaultNamespaceResp namespaceID kind \<Rightarrow>
         seqM (lift_result (validateNamespaceResponse ''default namespace response''
           namespaceID kind NamespaceKindDefault)) (ret (namespaceID, kind))
     | _ \<Rightarrow> unexpected_body)"

definition client_EnsureDefaultNamespace ::
  "'w env \<Rightarrow> string \<Rightarrow> string \<Rightarrow> string \<Rightarrow> ('w st, EnsureDefaultNamespaceResponse) eff" where
  "client_EnsureDefaultNamespace E accessToken proposedNamespaceID wrappedDEK =
     validated (ValidateNamespaceID proposedNamespaceID)
     (bindM (doJSON E (json_request PUT ''/v1/namespaces/default'' accessToken
        (EnsureDefaultNamespaceReq proposedNamespaceID wrappedDEK))) (\<lambda>body.
      case body of
        EnsureDefaultNamespaceResp resp \<Rightarrow>
          seqM (lift_result (validateNamespaceResponse ''ensure default namespace response''
            (edr_NamespaceID resp) (edr_Kind resp) NamespaceKindDefault))
          (seqM (guardM (edr_Created resp \<longrightarrow> edr_NamespaceID resp = proposedNamespaceID)
            (mismatch ''ensure default namespace response namespace''))
          (ret resp))
      | _ \<Rightarrow> unexpected_body))"

definition client_ListNamespaces :: "'w env \<Rightarrow> string \<Rightarrow> ('w st, NamespaceSummary list) eff" where
  "client_ListNamespaces E accessToken =
     bindM (doJSON E (json_request GET ''/v1/namespaces/mine'' accessToken NoBody)) (\<lambda>body.
     case body of ListNamespacesResp nss \<Rightarrow> ret nss | _ \<Rightarrow> unexpected_body)"

definition client_WatchNamespaces ::
  "'w env \<Rightarrow> string \<Rightarrow> (string \<times> u64) list \<Rightarrow> ('w st, NamespaceSummary list \<times> bool) eff" where
  "client_WatchNamespaces E accessToken knownHeads =
     seqM (forM knownHeads (\<lambda>(namespaceID, _). lift_result (ValidateNamespaceID namespaceID)))
     (bindM (doJSON E (json_request POST ''/v1/namespaces/watch'' accessToken
        (WatchNamespacesReq knownHeads))) (\<lambda>body.
      case body of
        WatchNamespacesResp nss timedOut \<Rightarrow> ret (nss, timedOut)
      | _ \<Rightarrow> unexpected_body))"

definition client_CreateSharedNamespace ::
  "'w env \<Rightarrow> string \<Rightarrow> string \<Rightarrow> string \<Rightarrow> ('w st, CreateSharedNamespaceResponse) eff" where
  "client_CreateSharedNamespace E accessToken namespaceID wrappedDEK =
     validated (ValidateNamespaceID namespaceID)
     (bindM (doJSON E (json_request POST ''/v1/namespaces'' accessToken
        (CreateSharedNamespaceReq namespaceID wrappedDEK))) (\<lambda>body.
      case body of
        CreateSharedNamespaceResp resp \<Rightarrow>
          seqM (lift_result (validateNamespaceResponse ''create shared namespace response''
            (csr_NamespaceID resp) (csr_Kind resp) NamespaceKindShared))
          (seqM (guardM (csr_NamespaceID resp = namespaceID)
            (mismatch ''create shared namespace response namespace''))
          (ret resp))
      | _ \<Rightarrow> unexpected_body))"

definition client_GetMembers ::
  "'w env \<Rightarrow> string \<Rightarrow> string \<Rightarrow> ('w st, NamespaceMember list) eff" where
  "client_GetMembers E accessToken namespaceID =
     validated (ValidateNamespaceID namespaceID)
     (bindM (doJSON E (json_request GET (namespaces_path namespaceID ''/members'') accessToken
        NoBody)) (\<lambda>body.
      case body of
        GetNamespaceMembersResp nsid members \<Rightarrow>
          seqM (guardM (nsid = namespaceID) (mismatch ''members response namespace'')) (ret members)
      | _ \<Rightarrow> unexpected_body))"

definition client_GetWrappedDEK ::
  "'w env \<Rightarrow> string \<Rightarrow> string \<Rightarrow> string \<Rightarrow> ('w st, GetWrappedDEKResponse) eff" where
  "client_GetWrappedDEK E accessToken namespaceID keyID =
     validated (ValidateNamespaceID namespaceID)
     (validated (ValidateKeyID keyID)
     (bindM (doJSON E (json_request GET
        (namespaces_path namespaceID (''/wrapped-deks/'' @ keyID)) accessToken NoBody)) (\<lambda>body.
      case body of
        GetWrappedDEKResp resp \<Rightarrow>
          seqM (guardM (wdr_NamespaceID resp = namespaceID)
            (mismatch ''wrapped dek response namespace''))
          (seqM (guardM (wdr_KeyID resp = keyID) (mismatch ''wrapped dek response key''))
          (ret resp))
      | _ \<Rightarrow> unexpected_body)))"

section \<open>Invites and join requests\<close>

definition client_CreateNamespaceInvite ::
  "'w env \<Rightarrow> string \<Rightarrow> string \<Rightarrow> CreateNamespaceInviteRequest \<Rightarrow>
   ('w st, CreateNamespaceInviteResponse) eff" where
  "client_CreateNamespaceInvite E accessToken namespaceID req =
     validated (ValidateNamespaceID namespaceID)
     (validated (ValidateInviteID (ciq_InviteID req))
     (bindM (doJSON E (json_request POST (namespaces_path namespaceID ''/invites'') accessToken
        (CreateNamespaceInviteReq req))) (\<lambda>body.
      case body of
        CreateNamespaceInviteResp resp \<Rightarrow>
          seqM (guardM (cir_NamespaceID resp = namespaceID)
            (mismatch ''create invite response namespace''))
          (seqM (guardM (cir_InviteID resp = ciq_InviteID req)
            (mismatch ''create invite response invite''))
          (ret resp))
      | _ \<Rightarrow> unexpected_body)))"

definition client_ListNamespaceInvites ::
  "'w env \<Rightarrow> string \<Rightarrow> string \<Rightarrow> ('w st, NamespaceInviteSummary list) eff" where
  "client_ListNamespaceInvites E accessToken namespaceID =
     validated (ValidateNamespaceID namespaceID)
     (bindM (doJSON E (json_request GET (namespaces_path namespaceID ''/invites'') accessToken
        NoBody)) (\<lambda>body.
      case body of
        ListNamespaceInvitesResp nsid invites \<Rightarrow>
          seqM (guardM (nsid = namespaceID) (mismatch ''list invites response namespace''))
          (ret invites)
      | _ \<Rightarrow> unexpected_body))"

definition client_RevokeNamespaceInvite ::
  "'w env \<Rightarrow> string \<Rightarrow> string \<Rightarrow> string \<Rightarrow> ('w st, RevokeNamespaceInviteResponse) eff" where
  "client_RevokeNamespaceInvite E accessToken namespaceID inviteID =
     validated (ValidateNamespaceID namespaceID)
     (validated (ValidateInviteID inviteID)
     (bindM (doJSON E (json_request DELETE
        (namespaces_path namespaceID (''/invites/'' @ inviteID)) accessToken NoBody)) (\<lambda>body.
      case body of
        RevokeNamespaceInviteResp resp \<Rightarrow>
          seqM (guardM (rir_NamespaceID resp = namespaceID)
            (mismatch ''revoke invite response namespace''))
          (seqM (guardM (rir_InviteID resp = inviteID) (mismatch ''revoke invite response invite''))
          (seqM (guardM (rir_Revoked resp)
            (Errorf ''revoke invite response must report revoked''))
          (ret resp)))
      | _ \<Rightarrow> unexpected_body)))"

definition client_SubmitNamespaceJoinRequest ::
  "'w env \<Rightarrow> string \<Rightarrow> string \<Rightarrow> string \<Rightarrow> string \<Rightarrow> NamespaceJoinRequest \<Rightarrow>
   ('w st, SubmitNamespaceJoinRequestResponse) eff" where
  "client_SubmitNamespaceJoinRequest E accessToken namespaceID inviteID inviteServerSecret
     joinRequest =
     validated (ValidateNamespaceID namespaceID)
     (validated (ValidateInviteID inviteID)
     (bindM (doJSON E (json_request POST
        (namespaces_path namespaceID (''/invites/'' @ inviteID @ ''/join-requests'')) accessToken
        (SubmitNamespaceJoinRequestReq inviteServerSecret joinRequest))) (\<lambda>body.
      case body of
        SubmitNamespaceJoinRequestResp resp \<Rightarrow>
          seqM (guardM (sjr_NamespaceID resp = namespaceID)
            (mismatch ''submit join request response namespace''))
          (case ValidateInviteID (sjr_InviteID resp) of
             Inl e \<Rightarrow> raise (Wrapf ''submit join request response invite'' e)
           | Inr _ \<Rightarrow>
          (case ValidateJoinRequestHash (sjr_JoinRequestHash resp) of
             Inl e \<Rightarrow> raise (Wrapf ''submit join request response hash'' e)
           | Inr _ \<Rightarrow>
          (seqM (guardM (sjr_RequesterKind resp = jr_Kind joinRequest)
            (mismatch ''submit join request response kind''))
          (seqM (guardM (sjr_RequesterKeyID resp = jr_KeyID joinRequest)
            (mismatch ''submit join request response key''))
          (seqM (guardM (sjr_Status resp = NamespaceJoinRequestStatusPending)
            (mismatch ''submit join request response status''))
          (ret resp))))))
      | _ \<Rightarrow> unexpected_body)))"

definition client_ListNamespaceJoinRequests ::
  "'w env \<Rightarrow> string \<Rightarrow> string \<Rightarrow> ('w st, NamespaceJoinRequestEntry list) eff" where
  "client_ListNamespaceJoinRequests E accessToken namespaceID =
     validated (ValidateNamespaceID namespaceID)
     (bindM (doJSON E (json_request GET (namespaces_path namespaceID ''/join-requests'')
        accessToken NoBody)) (\<lambda>body.
      case body of
        ListNamespaceJoinRequestsResp nsid requests \<Rightarrow>
          seqM (guardM (nsid = namespaceID) (mismatch ''list join requests response namespace''))
          (ret requests)
      | _ \<Rightarrow> unexpected_body))"

definition join_request_path :: "string \<Rightarrow> string \<Rightarrow> string \<Rightarrow> string \<Rightarrow> string" where
  "join_request_path namespaceID keyID hash rest =
     namespaces_path namespaceID (''/join-requests/'' @ keyID @ ''/'' @ hash @ rest)"

definition client_ApproveNamespaceJoinRequest ::
  "'w env \<Rightarrow> string \<Rightarrow> string \<Rightarrow> string \<Rightarrow> string \<Rightarrow> string \<Rightarrow> string \<Rightarrow>
   ('w st, ApproveNamespaceJoinRequestResponse) eff" where
  "client_ApproveNamespaceJoinRequest E accessToken namespaceID keyID joinRequestHash
     inviteServerSecret wrappedDEK =
     validated (ValidateNamespaceID namespaceID)
     (validated (ValidateKeyID keyID)
     (validated (ValidateJoinRequestHash joinRequestHash)
     (bindM (doJSON E (json_request PUT
        (join_request_path namespaceID keyID joinRequestHash ''/approve'') accessToken
        (ApproveNamespaceJoinRequestReq inviteServerSecret wrappedDEK))) (\<lambda>body.
      case body of
        ApproveNamespaceJoinRequestResp resp \<Rightarrow>
          seqM (guardM (apr_NamespaceID resp = namespaceID)
            (mismatch ''approve join request response namespace''))
          (seqM (guardM (apr_MemberKeyID resp = keyID)
            (mismatch ''approve join request response key''))
          (seqM (guardM (apr_JoinRequestHash resp = joinRequestHash)
            (mismatch ''approve join request response hash''))
          (ret resp)))
      | _ \<Rightarrow> unexpected_body))))"

definition client_RejectNamespaceJoinRequest ::
  "'w env \<Rightarrow> string \<Rightarrow> string \<Rightarrow> string \<Rightarrow> string \<Rightarrow>
   ('w st, RejectNamespaceJoinRequestResponse) eff" where
  "client_RejectNamespaceJoinRequest E accessToken namespaceID keyID joinRequestHash =
     validated (ValidateNamespaceID namespaceID)
     (validated (ValidateKeyID keyID)
     (validated (ValidateJoinRequestHash joinRequestHash)
     (bindM (doJSON E (json_request DELETE
        (join_request_path namespaceID keyID joinRequestHash []) accessToken NoBody)) (\<lambda>body.
      case body of
        RejectNamespaceJoinRequestResp resp \<Rightarrow>
          seqM (guardM (rjr_NamespaceID resp = namespaceID)
            (mismatch ''reject join request response namespace''))
          (seqM (guardM (rjr_RequesterKeyID resp = keyID)
            (mismatch ''reject join request response key''))
          (seqM (guardM (rjr_JoinRequestHash resp = joinRequestHash)
            (mismatch ''reject join request response hash''))
          (seqM (guardM (rjr_Rejected resp)
            (Errorf ''reject join request response must report rejected''))
          (ret resp))))
      | _ \<Rightarrow> unexpected_body))))"

section \<open>Items\<close>

definition client_GetNamespaceItems ::
  "'w env \<Rightarrow> string \<Rightarrow> string \<Rightarrow> ('w st, GetNamespaceItemsResponse) eff" where
  "client_GetNamespaceItems E accessToken namespaceID =
     validated (ValidateNamespaceID namespaceID)
     (bindM (doJSON E (json_request GET (namespaces_path namespaceID ''/items'') accessToken
        NoBody)) (\<lambda>body.
      case body of
        GetNamespaceItemsResp resp \<Rightarrow>
          seqM (guardM (nir_NamespaceID resp = namespaceID)
            (mismatch ''namespace items response namespace''))
          (ret resp)
      | _ \<Rightarrow> unexpected_body))"

definition client_GetItem ::
  "'w env \<Rightarrow> string \<Rightarrow> string \<Rightarrow> string \<Rightarrow> ('w st, GetItemResponse) eff" where
  "client_GetItem E accessToken namespaceID itemID =
     validated (ValidateNamespaceID namespaceID)
     (validated (ValidateItemID itemID)
     (bindM (doJSON E (json_request GET (item_path namespaceID itemID) accessToken NoBody)) (\<lambda>body.
      case body of
        GetItemResp resp \<Rightarrow>
          seqM (guardM (gir_NamespaceID resp = namespaceID) (mismatch ''item response namespace''))
          (seqM (guardM (gir_ItemID resp = itemID) (mismatch ''item response item''))
          (ret resp))
      | _ \<Rightarrow> unexpected_body)))"

definition put_item_request ::
  "string \<Rightarrow> string \<Rightarrow> string \<Rightarrow> PutItemRequest \<Rightarrow> u64 option \<Rightarrow> http_request" where
  "put_item_request accessToken namespaceID itemID req ifMatch =
     (json_request PUT (item_path namespaceID itemID) accessToken (PutItemReq req))
       \<lparr>rq_headers :=
          (case ifMatch of None \<Rightarrow> [] | Some v \<Rightarrow> [(''If-Match'', QuoteETag v)])\<rparr>"

definition client_PutItem ::
  "'w env \<Rightarrow> string \<Rightarrow> string \<Rightarrow> string \<Rightarrow> PutItemRequest \<Rightarrow> u64 option \<Rightarrow>
   ('w st, PutItemResponse) eff" where
  "client_PutItem E accessToken namespaceID itemID req ifMatch =
     validated (ValidateNamespaceID namespaceID)
     (validated (ValidateItemID itemID)
     (bindM (doJSON E (put_item_request accessToken namespaceID itemID req ifMatch)) (\<lambda>body.
      case body of
        PutItemResp resp \<Rightarrow>
          seqM (guardM (pir_NamespaceID resp = namespaceID)
            (mismatch ''put item response namespace''))
          (seqM (guardM (pir_ItemID resp = itemID) (mismatch ''put item response item''))
          (let expectedVersion = (case ifMatch of None \<Rightarrow> 1 | Some v \<Rightarrow> v + 1)
           in seqM (guardM (pir_Version resp = expectedVersion)
                (mismatch ''put item response version''))
              (ret resp)))
      | _ \<Rightarrow> unexpected_body)))"

section \<open>Frame\<close>

text \<open>A request changes nothing but the outputs and the world, whatever the server answers.\<close>

lemma stays_doJSON:
  assumes "item_write_ok req"
  shows "stays outputs_only (doJSON E req)"
proof -
  have "stays outputs_only (writes (\<lambda>s. s\<lparr>st_requests := st_requests s @ [req]\<rparr>))"
    by (simp add: stays_def writes_def outputs_only_def requests_grow_add assms)
  then show ?thesis
    unfolding doJSON_def by (auto intro!: outputs.combinators calls)
qed

lemma stays_json_request [calls]:
  "\<forall>b. body \<noteq> PutItemReq b \<Longrightarrow> stays outputs_only (doJSON E (json_request meth path token body))"
  by (rule stays_doJSON) (simp add: item_write_ok_def json_request_def)

lemma item_write_ok_put:
  assumes "BuildItemAAD ns item ((case im of None \<Rightarrow> 0 | Some v \<Rightarrow> v) + 1) = Inr aad"
    and "im \<noteq> Some 0" and "piq_AAD req = EncodeBase64 aad"
  shows "item_write_ok (put_item_request token ns item req im)"
  using assms
  by (auto simp: item_write_ok_def put_item_request_def json_request_def item_path_def
      split: option.splits intro!: exI)

lemma stays_validated [calls]: "stays outputs_only k \<Longrightarrow> stays outputs_only (validated check k)"
  by (simp add: validated_def outputs.combinators)

lemma stays_unexpected_body [calls]: "stays outputs_only unexpected_body"
  by (simp add: unexpected_body_def outputs.combinators)

lemmas client_defs =
  client_Challenge_def client_SensitiveActionChallenge_def client_Login_def
  client_Refresh_def client_RevokeAllTokens_def client_GetDefaultNamespace_def
  client_EnsureDefaultNamespace_def client_ListNamespaces_def client_WatchNamespaces_def
  client_CreateSharedNamespace_def client_GetMembers_def client_GetWrappedDEK_def
  client_CreateNamespaceInvite_def client_ListNamespaceInvites_def
  client_RevokeNamespaceInvite_def client_SubmitNamespaceJoinRequest_def
  client_ListNamespaceJoinRequests_def client_ApproveNamespaceJoinRequest_def
  client_RejectNamespaceJoinRequest_def client_GetNamespaceItems_def client_GetItem_def
  client_PutItem_def

lemma stays_client [calls]:
  "stays outputs_only (client_Challenge E s1)"
  "stays outputs_only (client_SensitiveActionChallenge E s1 s2)"
  "stays outputs_only (client_Login E lr)"
  "stays outputs_only (client_Refresh E s1 rr)"
  "stays outputs_only (client_RevokeAllTokens E s1 rv)"
  "stays outputs_only (client_GetDefaultNamespace E s1)"
  "stays outputs_only (client_EnsureDefaultNamespace E s1 s2 s3)"
  "stays outputs_only (client_ListNamespaces E s1)"
  "stays outputs_only (client_WatchNamespaces E s1 kh)"
  "stays outputs_only (client_CreateSharedNamespace E s1 s2 s3)"
  "stays outputs_only (client_GetMembers E s1 s2)"
  "stays outputs_only (client_GetWrappedDEK E s1 s2 s3)"
  "stays outputs_only (client_CreateNamespaceInvite E s1 s2 ci)"
  "stays outputs_only (client_ListNamespaceInvites E s1 s2)"
  "stays outputs_only (client_RevokeNamespaceInvite E s1 s2 s3)"
  "stays outputs_only (client_SubmitNamespaceJoinRequest E s1 s2 s3 s4 jr)"
  "stays outputs_only (client_ListNamespaceJoinRequests E s1 s2)"
  "stays outputs_only (client_ApproveNamespaceJoinRequest E s1 s2 s3 s4 s5 s6)"
  "stays outputs_only (client_RejectNamespaceJoinRequest E s1 s2 s3 s4)"
  "stays outputs_only (client_GetNamespaceItems E s1 s2)"
  "stays outputs_only (client_GetItem E s1 s2 s3)"
  by (auto simp: client_defs intro!: outputs.combinators calls
      split: api_response.split option.split sum.split)

lemma stays_PutItem:
  assumes "item_write_ok (put_item_request token ns item req im)"
  shows "stays outputs_only (client_PutItem E token ns item req im)"
  using stays_doJSON [OF assms]
  by (auto simp: client_defs Let_def intro!: outputs.combinators calls
      split: api_response.split option.split sum.split)

end
