(* ===== verification/Engine_Auth.thy ===== *)
theory Engine_Auth
  imports Raw_Client
begin

text \<open>
  Authentication (\<open>src/bitboxsync/engine_auth.go\<close>) and the engine's use of the key device
  (\<open>src/bitboxsync/engine_identity.go\<close>): challenge/response login and refresh, the choice
  between them before a call, and the single retry after a rejected token.
\<close>

section \<open>The key device\<close>

definition signLoginIntent :: "'w env \<Rightarrow> bytes \<Rightarrow> ('w st, bytes) eff" where
  "signLoginIntent E challenge = outside (ident_SignLoginIntent (env_identity E) challenge)"

definition signRefreshIntent :: "'w env \<Rightarrow> bytes \<Rightarrow> ('w st, bytes) eff" where
  "signRefreshIntent E challenge = outside (ident_SignRefreshIntent (env_identity E) challenge)"

definition signRevokeAllTokensIntent :: "'w env \<Rightarrow> bytes \<Rightarrow> ('w st, bytes) eff" where
  "signRevokeAllTokensIntent E challenge =
     outside (ident_SignRevokeAllTokensIntent (env_identity E) challenge)"

definition signCreateNamespaceInviteIntent ::
  "'w env \<Rightarrow> bytes \<Rightarrow> bytes \<Rightarrow> bytes \<Rightarrow> bytes \<Rightarrow> int \<Rightarrow> int \<Rightarrow> ('w st, bytes) eff" where
  "signCreateNamespaceInviteIntent E challenge namespaceID inviteID inviteServerSecretHash
     expiresAt maxAccepted =
     outside (ident_SignCreateNamespaceInviteIntent (env_identity E) challenge namespaceID
       inviteID inviteServerSecretHash expiresAt maxAccepted)"

definition signNamespaceJoinRequestIntent ::
  "'w env \<Rightarrow> bytes \<Rightarrow> bytes \<Rightarrow> string \<Rightarrow> int \<Rightarrow> ('w st, bytes) eff" where
  "signNamespaceJoinRequestIntent E namespaceID inviteID serverOrigin expiresAt =
     outside (ident_SignNamespaceJoinRequestIntent (env_identity E) namespaceID inviteID
       serverOrigin expiresAt)"

text \<open>The randomness HPKE draws is 32 bytes, the secret of its ephemeral key.\<close>

definition wrapNamespaceDEKFor ::
  "'w env \<Rightarrow> string \<Rightarrow> bytes \<Rightarrow> bytes \<Rightarrow> ('w st, bytes) eff" where
  "wrapNamespaceDEKFor E namespaceID namespaceDEK recipientWrapPublicKey =
     bindM (lift_result (DecodeLowerHexExact ''namespaceId'' namespaceID NamespaceIDLength))
       (\<lambda>namespaceIDRaw.
     bindM (rand_bytes E 32) (\<lambda>rnd.
     lift_result (WrapNamespaceDEK (env_crypto E) rnd recipientWrapPublicKey namespaceIDRaw
       namespaceDEK)))"

definition unwrapNamespaceDEK :: "'w env \<Rightarrow> string \<Rightarrow> bytes \<Rightarrow> ('w st, bytes) eff" where
  "unwrapNamespaceDEK E namespaceID wrappedDEK =
     bindM (lift_result (DecodeLowerHexExact ''namespaceId'' namespaceID NamespaceIDLength))
       (\<lambda>namespaceIDRaw.
     outside (ident_UnwrapNamespaceDEK (env_identity E) namespaceIDRaw wrappedDEK))"

section \<open>Identity state\<close>

definition identityStateSnapshot :: "('w st, IdentityState) eff" where
  "identityStateSnapshot = reads st_identity"

definition saveIdentityState :: "'w env \<Rightarrow> IdentityState \<Rightarrow> ('w st, unit) eff" where
  "saveIdentityState E state =
     (let state = (if id_KeyID state = [] then state\<lparr>id_KeyID := env_keyID E\<rparr> else state);
          state = (if id_Kind state = []
                   then state\<lparr>id_Kind := ident_Kind (env_identity E)\<rparr> else state)
      in bindM (if time_is_zero (id_UpdatedAt state)
                then bindM (time_now E) (\<lambda>now. ret (state\<lparr>id_UpdatedAt := now\<rparr>))
                else ret state) (\<lambda>state.
         seqM (store_SaveIdentity E state)
              (writes (\<lambda>s. s\<lparr>st_identity := state\<rparr>))))"

section \<open>Login and refresh\<close>

definition attestation_for :: "'w env \<Rightarrow> ChallengeResponse \<Rightarrow> bytes \<Rightarrow> ('w st, string) eff" where
  "attestation_for E challengeResp challenge =
     (if chr_SpamControl challengeResp = SpamControlKindAttestation
      then bindM (outside (ident_Attest (env_identity E) challenge)) (\<lambda>attestation.
           ret (EncodeBase64 attestation))
      else ret [])"

definition login :: "'w env \<Rightarrow> ('w st, unit) eff" where
  "login E =
     bindM (client_Challenge E ChallengePurposeLogin) (\<lambda>challengeResp.
     bindM (lift_result (DecodeBase64Exact ''challenge'' (chr_Challenge challengeResp) 32))
       (\<lambda>challenge.
     bindM (signLoginIntent E challenge) (\<lambda>signature.
     bindM (attestation_for E challengeResp challenge) (\<lambda>attestation.
     bindM (client_Login E
       \<lparr>lgq_Kind = ident_Kind (env_identity E), lgq_KeyID = env_keyID E,
        lgq_AuthPublicKey = EncodeEd25519PublicKey (ident_AuthPublicKey (env_identity E)),
        lgq_WrapPublicKey = EncodeX25519PublicKey (ident_WrapPublicKey (env_identity E)),
        lgq_Challenge = chr_Challenge challengeResp, lgq_IntentSignature = hex_encode signature,
        lgq_Attestation = attestation\<rparr>) (\<lambda>loginResp.
     bindM (time_now E) (\<lambda>now.
     seqM (saveIdentityState E
       \<lparr>id_KeyID = env_keyID E, id_Kind = lgr_Kind loginResp,
        id_AccessToken = lgr_AccessToken loginResp, id_TokenExpiry = lgr_ExpiresAt loginResp,
        id_DefaultNamespaceID =
          (case lgr_DefaultNamespaceID loginResp of None \<Rightarrow> [] | Some nsid \<Rightarrow> nsid),
        id_UpdatedAt = now\<rparr>)
     (emitAuthEvent E EventAuthSessionReady (lgr_ExpiresAt loginResp))))))))"

definition refresh :: "'w env \<Rightarrow> ('w st, unit) eff" where
  "refresh E =
     bindM identityStateSnapshot (\<lambda>state.
     bindM (client_Challenge E ChallengePurposeRefresh) (\<lambda>challengeResp.
     bindM (lift_result (DecodeBase64Exact ''challenge'' (chr_Challenge challengeResp) 32))
       (\<lambda>challenge.
     bindM (signRefreshIntent E challenge) (\<lambda>signature.
     bindM (attestation_for E challengeResp challenge) (\<lambda>attestation.
     bindM (client_Refresh E (id_AccessToken state)
       \<lparr>rfq_Kind = ident_Kind (env_identity E), rfq_KeyID = env_keyID E,
        rfq_Challenge = chr_Challenge challengeResp, rfq_IntentSignature = hex_encode signature,
        rfq_Attestation = attestation\<rparr>) (\<lambda>refreshResp.
     bindM (time_now E) (\<lambda>now.
     seqM (saveIdentityState E
       (state\<lparr>id_AccessToken := rfr_AccessToken refreshResp,
              id_TokenExpiry := rfr_ExpiresAt refreshResp, id_UpdatedAt := now\<rparr>))
     (emitAuthEvent E EventAuthSessionReady (rfr_ExpiresAt refreshResp)))))))))"

definition login_or_report :: "'w env \<Rightarrow> gotime \<Rightarrow> ('w st, unit) eff" where
  "login_or_report E tokenExpiry =
     bindM (attempt (login E)) (\<lambda>r.
     case r of
       Inl e \<Rightarrow> seqM (emitAuthEvent E EventAuthLoginRequired tokenExpiry) (raise e)
     | Inr _ \<Rightarrow> ret ())"

definition ensureAuthenticated :: "'w env \<Rightarrow> ('w st, unit) eff" where
  "ensureAuthenticated E =
     bindM identityStateSnapshot (\<lambda>state.
     bindM (time_now E) (\<lambda>now.
     if id_AccessToken state = [] then login_or_report E (id_TokenExpiry state)
     else if id_TokenExpiry state < now then login_or_report E (id_TokenExpiry state)
     else if id_TokenExpiry state < now + cfg_RefreshSkew (env_cfg E)
     then seqM (emitAuthEvent E EventAuthRefreshRecommended (id_TokenExpiry state))
          (bindM (attempt (refresh E)) (\<lambda>_. ret ()))
     else ret ()))"

section \<open>Authenticated calls\<close>

definition isUnauthorizedAPIError :: "err \<Rightarrow> bool" where
  "isUnauthorizedAPIError e \<longleftrightarrow> api_status e = Some 401"

definition reauthenticateAfterUnauthorized :: "'w env \<Rightarrow> string \<Rightarrow> ('w st, unit) eff" where
  "reauthenticateAfterUnauthorized E failedToken =
     bindM identityStateSnapshot (\<lambda>state.
     if failedToken \<noteq> [] \<and> id_AccessToken state \<noteq> [] \<and> id_AccessToken state \<noteq> failedToken
     then ret ()
     else
       bindM (time_now E) (\<lambda>now.
       let state = state\<lparr>id_AccessToken := [], id_TokenExpiry := 0, id_UpdatedAt := now\<rparr>
       in seqM (saveIdentityState E state) (login_or_report E (id_TokenExpiry state))))"

definition runAuthenticated :: "'w env \<Rightarrow> ('w st, 'a) eff \<Rightarrow> ('w st, 'a) eff" where
  "runAuthenticated E fn =
     seqM (ensureAuthenticated E)
     (bindM identityStateSnapshot (\<lambda>state.
      bindM (attempt fn) (\<lambda>r.
      case r of
        Inr x \<Rightarrow> ret x
      | Inl e \<Rightarrow>
          if \<not> isUnauthorizedAPIError e then raise e
          else seqM (reauthenticateAfterUnauthorized E (id_AccessToken state)) fn)))"

definition RevokeAllTokens :: "'w env \<Rightarrow> ('w st, unit) eff" where
  "RevokeAllTokens E =
     runAuthenticated E
     (bindM identityStateSnapshot (\<lambda>state.
      bindM (client_SensitiveActionChallenge E SensitiveActionRevokeAllTokens
        (hex_encode (sha256 (env_crypto E) []))) (\<lambda>challengeResp.
      seqM (guardM (chr_SpamControl challengeResp = SpamControlKindNone)
        (Errorf ''unsupported spam control kind for token revocation''))
      (bindM (lift_result (DecodeBase64Exact ''challenge'' (chr_Challenge challengeResp) 32))
        (\<lambda>challenge.
      bindM (signRevokeAllTokensIntent E challenge) (\<lambda>signature.
      seqM (client_RevokeAllTokens E (id_AccessToken state)
        \<lparr>rvq_Kind = ident_Kind (env_identity E), rvq_KeyID = env_keyID E,
         rvq_Challenge = chr_Challenge challengeResp, rvq_IntentSignature = hex_encode signature\<rparr>)
      (bindM (time_now E) (\<lambda>now.
       let state = state\<lparr>id_AccessToken := [], id_TokenExpiry := 0, id_UpdatedAt := now\<rparr>
       in seqM (saveIdentityState E state)
          (emitAuthEvent E EventAuthLoginRequired (id_TokenExpiry state))))))))))"

text \<open>A non-blocking send on a channel of capacity one fills it.\<close>

definition signal_login :: "('w st, unit) eff" where
  "signal_login =
     seqM (writes (\<lambda>s. s\<lparr>st_loginSucceededRun := True\<rparr>))
          (writes (\<lambda>s. s\<lparr>st_loginSucceededWatch := True\<rparr>))"

section \<open>Frame\<close>

lemma stays_device [calls]:
  "stays outputs_only (signLoginIntent E ch)"
  "stays outputs_only (signRefreshIntent E ch)"
  "stays outputs_only (signRevokeAllTokensIntent E ch)"
  "stays outputs_only (signCreateNamespaceInviteIntent E ch n i h e m)"
  "stays outputs_only (signNamespaceJoinRequestIntent E n i so e)"
  "stays outputs_only (wrapNamespaceDEKFor E nid dek pub)"
  "stays outputs_only (unwrapNamespaceDEK E nid wrapped)"
  "stays outputs_only (attestation_for E resp ch)"
  "stays outputs_only identityStateSnapshot"
  by (auto simp: signLoginIntent_def signRefreshIntent_def signRevokeAllTokensIntent_def
      signCreateNamespaceInviteIntent_def signNamespaceJoinRequestIntent_def
      wrapNamespaceDEKFor_def unwrapNamespaceDEK_def attestation_for_def
      identityStateSnapshot_def intro!: outputs.combinators calls)

end
