(* ===== verification/Collections.thy ===== *)
theory Collections
  imports Engine_World
begin

text \<open>
  Typed collections: codecs (\<open>src/bitboxsync/codecs.go\<close>), merge policies
  (\<open>src/bitboxsync/merge.go\<close>), the in-memory backend
  (\<open>src/bitboxsync/memory_backend.go\<close>) and the adaptation of a typed backend to the byte
  callbacks the engine uses (\<open>makeMergeBytes\<close> and \<open>makeRegisteredCollection\<close> of
  \<open>src/bitboxsync/collection.go\<close>).

  What a codec owes its users is the locale \<open>value_codec\<close>, what a conditional backend owes
  is \<open>conditional_backend\<close>; the lemmas about registered collections are proved in the first
  for any codec, and both are interpreted on the models of the code.
\<close>

section \<open>Codecs\<close>

record 't Codec =
  cd_Encode :: "'t \<Rightarrow> err + bytes"
  cd_Decode :: "bytes \<Rightarrow> err + 't"

definition codecFunc :: "('t \<Rightarrow> err + bytes) \<Rightarrow> (bytes \<Rightarrow> err + 't) \<Rightarrow> 't Codec" where
  "codecFunc encode decode = \<lparr>cd_Encode = encode, cd_Decode = decode\<rparr>"

text \<open>\<open>json.Marshal\<close> and \<open>json.Unmarshal\<close> at the value type are arguments.\<close>

definition JSONCodec :: "('t \<Rightarrow> err + bytes) \<Rightarrow> (bytes \<Rightarrow> err + 't) \<Rightarrow> 't Codec" where
  "JSONCodec marshal unmarshal =
     codecFunc marshal (\<lambda>payload.
       if length payload = 0 then Inl (Errorf ''empty JSON payload'') else unmarshal payload)"

definition StringCodec :: "string Codec" where
  "StringCodec = codecFunc (\<lambda>value. Inr value) (\<lambda>payload. Inr payload)"

definition BytesCodec :: "bytes Codec" where
  "BytesCodec = codecFunc (\<lambda>value. Inr value) (\<lambda>payload. Inr payload)"

definition EqualBytes :: "bytes \<Rightarrow> bytes \<Rightarrow> bool" where
  "EqualBytes left right \<longleftrightarrow> left = right"

section \<open>Merge policies\<close>

type_synonym 't MergeFunc = "string \<Rightarrow> 't option \<Rightarrow> 't \<Rightarrow> 't \<Rightarrow> err + 't \<times> bool"

definition PreferLocal :: "'t MergeFunc" where
  "PreferLocal = (\<lambda>_ _ local _. Inr (local, True))"

definition PreferRemote :: "'t MergeFunc" where
  "PreferRemote = (\<lambda>_ _ _ remote. Inr (remote, True))"

definition NoMerge :: "'t MergeFunc" where
  "NoMerge = (\<lambda>_ _ local _. Inr (local, False))"

text \<open>A failed merge is reported as \<open>(nil, false, err)\<close>, an unresolved one as \<open>(nil, false, nil)\<close>.\<close>

definition makeMergeBytes ::
  "'t Codec \<Rightarrow> 't MergeFunc \<Rightarrow> string \<Rightarrow> bytes option \<Rightarrow> bytes \<Rightarrow> bytes \<Rightarrow> err + bytes \<times> bool" where
  "makeMergeBytes codec merge key base local remote =
     bindR (case base of
              None \<Rightarrow> Inr None
            | Some b \<Rightarrow>
                (case cd_Decode codec b of
                   Inl e \<Rightarrow> Inl (Wrapf ''decode merge base'' e)
                 | Inr v \<Rightarrow> Inr (Some v))) (\<lambda>baseValue.
     bindR (case cd_Decode codec local of
              Inl e \<Rightarrow> Inl (Wrapf ''decode merge local'' e) | Inr v \<Rightarrow> Inr v) (\<lambda>localValue.
     bindR (case cd_Decode codec remote of
              Inl e \<Rightarrow> Inl (Wrapf ''decode merge remote'' e) | Inr v \<Rightarrow> Inr v) (\<lambda>remoteValue.
     bindR (merge key baseValue localValue remoteValue) (\<lambda>(mergedValue, resolved).
       if \<not> resolved then Inr ([], False)
       else (case cd_Encode codec mergedValue of
               Inl e \<Rightarrow> Inl (Wrapf ''encode merged value'' e)
             | Inr encoded \<Rightarrow> Inr (encoded, resolved))))))"

section \<open>Backends\<close>

record ('w, 't) ValueBackend =
  vb_Keys :: "('w, string list) eff"
  vb_Snapshot :: "('w, (string \<times> 't) list) eff"
  vb_Get :: "string \<Rightarrow> ('w, 't) eff"
  vb_Set :: "string \<Rightarrow> 't \<Rightarrow> ('w, unit) eff"
  vb_SetIfCurrent :: "(string \<Rightarrow> 't \<Rightarrow> bool \<Rightarrow> 't \<Rightarrow> ('w, bool) eff) option"

text \<open>
  \<open>vb_SetIfCurrent\<close> is present when the backend implements \<open>ConditionalValueBackend\<close>.
  The memory backend acts on its map, an association list from keys to values; its mutex
  makes each operation atomic.
\<close>

type_synonym 't memory = "(string \<times> 't) list"

definition NewMemoryValueBackend :: "(string \<times> 't) list \<Rightarrow> 't memory" where
  "NewMemoryValueBackend initial = initial"

definition mem_Keys :: "('t memory, string list) eff" where
  "mem_Keys = reads (\<lambda>values. sort (map fst values))"

definition mem_Snapshot :: "('t memory, (string \<times> 't) list) eff" where
  "mem_Snapshot = reads (\<lambda>values. values)"

definition mem_Get :: "string \<Rightarrow> ('t memory, 't) eff" where
  "mem_Get key = (\<lambda>values.
     (case map_of values key of None \<Rightarrow> Inl (Sentinel ErrNotFound) | Some v \<Rightarrow> Inr v, values))"

definition mem_Set :: "string \<Rightarrow> 't \<Rightarrow> ('t memory, unit) eff" where
  "mem_Set key value = writes (AList.update key value)"

text \<open>\<open>reflect.DeepEqual\<close> is equality of values.\<close>

definition mem_SetIfCurrent :: "string \<Rightarrow> 't \<Rightarrow> bool \<Rightarrow> 't \<Rightarrow> ('t memory, bool) eff" where
  "mem_SetIfCurrent key current currentFound value = (\<lambda>values.
     let existing = map_of values key; ok = (existing \<noteq> None)
     in if ok \<noteq> currentFound then (Inr False, values)
        else if currentFound \<and> existing \<noteq> Some current then (Inr False, values)
        else (Inr True, AList.update key value values))"

definition MemoryValueBackend :: "('t memory, 't) ValueBackend" where
  "MemoryValueBackend =
     \<lparr>vb_Keys = mem_Keys, vb_Snapshot = mem_Snapshot, vb_Get = mem_Get, vb_Set = mem_Set,
      vb_SetIfCurrent = Some mem_SetIfCurrent\<rparr>"

text \<open>
  The contract of a backend with a conditional write, over a view of the world as the map
  of stored values: \<open>SetIfCurrent\<close> replaces the value exactly when the stored one is still
  the one the caller read, and reports whether it did.
\<close>

locale conditional_backend =
  fixes backend :: "('w, 't) ValueBackend"
    and setif :: "string \<Rightarrow> 't \<Rightarrow> bool \<Rightarrow> 't \<Rightarrow> ('w, bool) eff"
    and view :: "'w \<Rightarrow> string \<Rightarrow> 't option"
  assumes setif: "vb_SetIfCurrent backend = Some setif"
    and get: "vb_Get backend key w =
      (case view w key of None \<Rightarrow> Inl (Sentinel ErrNotFound) | Some v \<Rightarrow> Inr v, w)"
    and set_view: "view (snd (vb_Set backend key v w)) = (view w)(key \<mapsto> v)"
    and setif_result: "fst (setif key c found v w) =
      Inr (view w key = (if found then Some c else None))"
    and setif_view: "view (snd (setif key c found v w)) =
      (if view w key = (if found then Some c else None) then (view w)(key \<mapsto> v) else view w)"
begin

lemma get_after_set: "fst (vb_Get backend key (snd (vb_Set backend key v w))) = Inr v"
  by (simp add: get set_view)

lemma setif_loses_race:
  assumes "view w key \<noteq> (if found then Some c else None)"
  shows "fst (setif key c found v w) = Inr False"
    and "view (snd (setif key c found v w)) = view w"
  using assms by (simp_all add: setif_result setif_view)

lemma setif_wins:
  assumes "fst (setif key c found v w) = Inr True"
  shows "view w key = (if found then Some c else None)"
    and "view (snd (setif key c found v w)) = (view w)(key \<mapsto> v)"
  using assms by (simp_all add: setif_result setif_view)

lemma setif_other: "k \<noteq> key \<Longrightarrow> view (snd (setif key c found v w)) k = view w k"
  by (simp add: setif_view)

end

interpretation memory:
  conditional_backend MemoryValueBackend mem_SetIfCurrent map_of
proof unfold_locales
  fix key :: string and c v :: 't and found :: bool and w :: "'t memory"
  show "vb_SetIfCurrent MemoryValueBackend = (Some mem_SetIfCurrent ::
      (string \<Rightarrow> 't \<Rightarrow> bool \<Rightarrow> 't \<Rightarrow> ('t memory, bool) eff) option)"
    by (simp add: MemoryValueBackend_def)
  show "vb_Get MemoryValueBackend key w =
      (case map_of w key of None \<Rightarrow> Inl (Sentinel ErrNotFound) | Some v \<Rightarrow> Inr v, w)"
    by (simp add: MemoryValueBackend_def mem_Get_def)
  show "map_of (snd (vb_Set MemoryValueBackend key v w)) = (map_of w)(key \<mapsto> v)"
    by (simp add: MemoryValueBackend_def mem_Set_def writes_def update_conv')
  show "fst (mem_SetIfCurrent key c found v w) =
      Inr (map_of w key = (if found then Some c else None))"
    by (auto simp: mem_SetIfCurrent_def Let_def)
  show "map_of (snd (mem_SetIfCurrent key c found v w)) =
      (if map_of w key = (if found then Some c else None) then (map_of w)(key \<mapsto> v) else map_of w)"
    by (auto simp: mem_SetIfCurrent_def Let_def update_conv')
qed

section \<open>Registered collections\<close>

text \<open>
  The closures of \<open>makeRegisteredCollection\<close>. \<open>zero\<close> is Go's zero value of the value type,
  passed as \<open>current\<close> when there is no current value.
\<close>

fun encode_all :: "'t Codec \<Rightarrow> (string \<times> 't) list \<Rightarrow> err + (string \<times> bytes) list" where
  "encode_all codec [] = Inr []"
| "encode_all codec ((key, value) # rest) =
     bindR (cd_Encode codec value) (\<lambda>valueBytes.
     bindR (encode_all codec rest) (\<lambda>encoded. Inr ((key, valueBytes) # encoded)))"

definition makeRegisteredCollection ::
  "string \<Rightarrow> string \<Rightarrow> 't Codec \<Rightarrow> 't MergeFunc \<Rightarrow> ('w, 't) ValueBackend \<Rightarrow> 't \<Rightarrow>
   'w registeredCollection" where
  "makeRegisteredCollection namespaceID name codec merge backend zero =
     \<lparr>rc_namespaceID = namespaceID,
      rc_name = name,
      rc_keys = vb_Keys backend,
      rc_snapshot =
        bindM (vb_Snapshot backend) (\<lambda>values. lift_result (encode_all codec values)),
      rc_get = (\<lambda>key.
        bindM (vb_Get backend key) (\<lambda>value. lift_result (cd_Encode codec value))),
      rc_set = (\<lambda>key encoded.
        bindM (lift_result (cd_Decode codec encoded)) (\<lambda>value. vb_Set backend key value)),
      rc_setIfCurrent = (\<lambda>key currentEncoded currentFound encoded.
        bindM (lift_result (cd_Decode codec encoded)) (\<lambda>value.
        case vb_SetIfCurrent backend of
          None \<Rightarrow> seqM (vb_Set backend key value) (ret True)
        | Some setIfCurrent \<Rightarrow>
            bindM (if currentFound then lift_result (cd_Decode codec currentEncoded)
                   else ret zero) (\<lambda>current.
            setIfCurrent key current currentFound value))),
      rc_mergeBytes = makeMergeBytes codec merge\<rparr>"

text \<open>
  A codec whose decoder inverts its encoder and accepts only what it produces, as the
  documentation of \<open>Codec\<close> asks (deterministic encoding, malformed payloads rejected).
\<close>

locale value_codec =
  fixes codec :: "'t Codec"
  assumes decode_encode: "cd_Encode codec v = Inr b \<Longrightarrow> cd_Decode codec b = Inr v"
    and encode_decode: "cd_Decode codec b = Inr v \<Longrightarrow> cd_Encode codec v = Inr b"
begin

lemma merge_prefer_local:
  assumes l: "cd_Decode codec l = Inr lv" and r: "cd_Decode codec r = Inr rv"
    and b: "\<And>b. base = Some b \<Longrightarrow> \<exists>bv. cd_Decode codec b = Inr bv"
  shows "makeMergeBytes codec PreferLocal key base l r = Inr (l, True)"
proof (cases base)
  case None
  with l r show ?thesis by (simp add: makeMergeBytes_def PreferLocal_def encode_decode)
next
  case (Some x)
  with b obtain bv where "cd_Decode codec x = Inr bv" by blast
  with Some l r show ?thesis by (simp add: makeMergeBytes_def PreferLocal_def encode_decode)
qed

lemma merge_prefer_remote:
  assumes l: "cd_Decode codec l = Inr lv" and r: "cd_Decode codec r = Inr rv"
    and b: "\<And>b. base = Some b \<Longrightarrow> \<exists>bv. cd_Decode codec b = Inr bv"
  shows "makeMergeBytes codec PreferRemote key base l r = Inr (r, True)"
proof (cases base)
  case None
  with l r show ?thesis by (simp add: makeMergeBytes_def PreferRemote_def encode_decode)
next
  case (Some x)
  with b obtain bv where "cd_Decode codec x = Inr bv" by blast
  with Some l r show ?thesis by (simp add: makeMergeBytes_def PreferRemote_def encode_decode)
qed

lemma encode_all_map:
  assumes "encode_all codec vs = Inr encoded"
  shows "map fst encoded = map fst vs"
  using assms by (induction codec vs arbitrary: encoded rule: encode_all.induct) auto

end

interpretation string_codec: value_codec StringCodec
  by unfold_locales (simp_all add: StringCodec_def codecFunc_def)

interpretation bytes_codec: value_codec BytesCodec
  by unfold_locales (simp_all add: BytesCodec_def codecFunc_def)

lemma encode_strings: "encode_all StringCodec vs = Inr vs"
  by (induction vs) (auto simp: StringCodec_def codecFunc_def bindR_def)

end
