(* ===== verification/Discovery.thy ===== *)
theory Discovery
  imports Raw_Client Collections
begin

text \<open>
  Registered collections and the active scope of a namespace
  (\<open>src/bitboxsync/engine_discovery.go\<close>): the length-prefixed join of key parts that item
  IDs and registry keys are derived from, the registry of collections, and the set of items
  a sync pass works on, with its hash.
\<close>

section \<open>Joined keys\<close>

definition joinKeyParts :: "string list \<Rightarrow> string" where
  "joinKeyParts parts =
     concat (map (\<lambda>part. be_uint64 (word_of_nat (length part)) @ part) parts)"

definition collectionRegistryKey :: "string \<Rightarrow> string \<Rightarrow> string" where
  "collectionRegistryKey namespaceID collection = joinKeyParts [namespaceID, collection]"

definition composeLogicalKey :: "string \<Rightarrow> string \<Rightarrow> string" where
  "composeLogicalKey collection key = joinKeyParts [collection, key]"

text \<open>A Go string has fewer than \<open>2 ^ 63\<close> bytes.\<close>

definition go_string :: "string \<Rightarrow> bool" where
  "go_string s \<longleftrightarrow> length s < 2 ^ 63"

lemma go_string_length_word:
  assumes "go_string a" and "go_string b"
  shows "(word_of_nat (length a) :: u64) = word_of_nat (length b) \<longleftrightarrow> length a = length b"
proof -
  have "unat (word_of_nat (length s) :: u64) = length s" if "go_string s" for s
    using that by (simp add: go_string_def unsigned_of_nat take_bit_nat_eq_self)
  with assms show ?thesis by metis
qed

lemma joinKeyParts_injective:
  assumes "\<forall>p \<in> set ps. go_string p" and "\<forall>q \<in> set qs. go_string q"
    and "joinKeyParts ps = joinKeyParts qs"
  shows "ps = qs"
  using assms
proof (induction ps arbitrary: qs)
  case Nil
  then show ?case
    by (cases qs) (auto simp: joinKeyParts_def dest: arg_cong [where f = length])
next
  case (Cons p ps)
  show ?case
  proof (cases qs)
    case Nil
    with Cons.prems(3) show ?thesis
      by (auto simp: joinKeyParts_def dest: arg_cong [where f = length])
  next
    case (Cons q qs')
    have eq: "be_uint64 (word_of_nat (length p)) @ p @ joinKeyParts ps =
        be_uint64 (word_of_nat (length q)) @ q @ joinKeyParts qs'"
      using Cons.prems(3) by (simp add: joinKeyParts_def \<open>qs = q # qs'\<close>)
    then have "be_uint64 (word_of_nat (length p)) = be_uint64 (word_of_nat (length q))"
      and rest: "p @ joinKeyParts ps = q @ joinKeyParts qs'"
      by simp_all
    then have "length p = length q"
      using Cons.prems(1,2) by (simp add: \<open>qs = q # qs'\<close> go_string_length_word)
    with rest have "p = q" and "joinKeyParts ps = joinKeyParts qs'" by simp_all
    with Cons.IH [of qs'] Cons.prems(1,2) show ?thesis by (simp add: \<open>qs = q # qs'\<close>)
  qed
qed

section \<open>The registry\<close>

definition registerCollection :: "'w registeredCollection \<Rightarrow> ('w st, unit) eff" where
  "registerCollection registration = (\<lambda>s.
     let key = collectionRegistryKey (rc_namespaceID registration) (rc_name registration)
     in if key \<in> fst ` set (st_collections s)
        then (Inl (Wrapf ''namespace collection'' (Sentinel ErrCollectionRegistered)), s)
        else (Inr (), s\<lparr>st_collections := st_collections s @ [(key, registration)]\<rparr>))"

definition registeredCollections :: "('w st, 'w registeredCollection list) eff" where
  "registeredCollections = reads (\<lambda>s. map snd (sort_key fst (st_collections s)))"

definition collectionRegistrations ::
  "string \<Rightarrow> ('w st, 'w registeredCollection list) eff" where
  "collectionRegistrations namespaceID =
     reads (\<lambda>s. filter (\<lambda>c. rc_namespaceID c = namespaceID)
       (map snd (sort_key fst (st_collections s))))"

definition collectionRegistration ::
  "string \<Rightarrow> string \<Rightarrow> ('w st, 'w registeredCollection option) eff" where
  "collectionRegistration namespaceID collection =
     reads (\<lambda>s. map_of (st_collections s) (collectionRegistryKey namespaceID collection))"

text \<open>Every registration has its merge function: \<open>makeRegisteredCollection\<close> sets it.\<close>

definition applyMerge ::
  "string \<Rightarrow> string \<Rightarrow> string \<Rightarrow> bytes option \<Rightarrow> bytes \<Rightarrow> bytes \<Rightarrow>
   ('w st, bytes \<times> bool) eff" where
  "applyMerge namespaceID collection key base local remote =
     bindM (collectionRegistration namespaceID collection) (\<lambda>handler.
     case handler of
       None \<Rightarrow> ret (local, False)
     | Some h \<Rightarrow> lift_result (rc_mergeBytes h key base local remote))"

definition OpenCollection ::
  "string \<Rightarrow> string \<Rightarrow> 't Codec option \<Rightarrow> 't Codec \<Rightarrow> 't MergeFunc option \<Rightarrow>
   ('w, 't) ValueBackend option \<Rightarrow> 't \<Rightarrow> ('w st, unit) eff" where
  "OpenCollection namespaceID name codec jsonCodec merge backend zero =
     (case backend of
        None \<Rightarrow> raise (Wrapf ''collection'' (Sentinel ErrNoBackend))
      | Some b \<Rightarrow>
          let codec = (case codec of None \<Rightarrow> jsonCodec | Some c \<Rightarrow> c);
              merge = (case merge of None \<Rightarrow> NoMerge | Some m \<Rightarrow> m)
          in registerCollection
               (makeRegisteredCollection namespaceID name codec merge b zero))"

text \<open>
  The registry maps each key to the one registration of that namespace and name.
\<close>

definition registry_ok :: "'w st \<Rightarrow> bool" where
  "registry_ok s \<longleftrightarrow>
     distinct (map fst (st_collections s)) \<and>
     (\<forall>(k, r) \<in> set (st_collections s). k = collectionRegistryKey (rc_namespaceID r) (rc_name r))"

lemma registry_ok_register:
  "registry_ok s \<Longrightarrow> registry_ok (snd (registerCollection r s))"
  by (auto simp: registry_ok_def registerCollection_def Let_def)

lemma stays_registry_reads [calls]:
  "stays outputs_only registeredCollections"
  "stays outputs_only (collectionRegistrations n)"
  "stays outputs_only (collectionRegistration n c)"
  "stays outputs_only (applyMerge n c k b l r)"
  by (auto simp: registeredCollections_def collectionRegistrations_def
      collectionRegistration_def applyMerge_def intro!: outputs.combinators)

lemma registered_once:
  assumes "registry_ok s"
    and "(k, r) \<in> set (st_collections s)" and "(k', r') \<in> set (st_collections s)"
    and "rc_namespaceID r = rc_namespaceID r'" and "rc_name r = rc_name r'"
  shows "r = r'"
proof -
  have keys: "\<forall>(k, r) \<in> set (st_collections s).
      k = collectionRegistryKey (rc_namespaceID r) (rc_name r)"
    and dist: "distinct (map fst (st_collections s))"
    using assms(1) by (simp_all add: registry_ok_def)
  have "k = k'" using bspec [OF keys assms(2)] bspec [OF keys assms(3)] assms(4,5) by simp
  with dist assms(2,3) show ?thesis by (auto dest: eq_key_imp_eq_value)
qed

section \<open>Active scope\<close>

text \<open>
  Go sets are finite sets of strings; \<open>slices.Sorted(maps.Keys(m))\<close> lists one in byte order.
\<close>

record namespaceActiveScope =
  as_scopedCollections :: "string set"
  as_activeItemIDs :: "string set"
  as_activeItems :: "(string \<times> ItemState) list"
  as_activeScopeHash :: string

definition empty_scope :: namespaceActiveScope where
  "empty_scope =
     \<lparr>as_scopedCollections = {}, as_activeItemIDs = {}, as_activeItems = [],
      as_activeScopeHash = []\<rparr>"

definition itemActive :: "namespaceActiveScope \<Rightarrow> ItemState \<Rightarrow> bool" where
  "itemActive scope item \<longleftrightarrow>
     it_Collection item \<in> as_scopedCollections scope \<and>
     it_ItemID item \<in> as_activeItemIDs scope"

definition scope_preimage :: "string list \<Rightarrow> string list \<Rightarrow> bytes" where
  "scope_preimage collections itemIDs =
     ''bitboxsync-active-scope-v1'' @
     concat (map (\<lambda>collection. CHR 0x00 # collection) collections) @
     concat (map (\<lambda>itemID. CHR 0x01 # itemID) itemIDs)"

text \<open>What is hashed: the sorted collection names, then the sorted item IDs.\<close>

definition scope_bytes :: "namespaceActiveScope \<Rightarrow> bytes" where
  "scope_bytes scope =
     scope_preimage (sorted_list_of_set (as_scopedCollections scope))
       (sorted_list_of_set (as_activeItemIDs scope))"

definition computeHash :: "crypto \<Rightarrow> namespaceActiveScope \<Rightarrow> string" where
  "computeHash C scope =
     (if as_scopedCollections scope = {} then []
      else hex_encode (sha256 C (scope_bytes scope)))"

definition uniqueSortedStrings :: "string list \<Rightarrow> string list" where
  "uniqueSortedStrings vals =
     (if length vals = 0 then [] else remdups_adj (sort vals))"

definition addActiveKey ::
  "'w env \<Rightarrow> NamespaceState \<Rightarrow> string \<Rightarrow> namespaceActiveScope \<Rightarrow> string \<Rightarrow>
   ('w st, namespaceActiveScope) eff" where
  "addActiveKey E namespaceState name scope key =
     bindM (lift_result (ItemID (env_crypto E) (ns_DEK namespaceState)
       (composeLogicalKey name key))) (\<lambda>itemID.
     ret (scope\<lparr>as_activeItemIDs := insert itemID (as_activeItemIDs scope),
       as_activeItems := AList.update itemID
         (new_item (env_keyID E) (ns_NamespaceID namespaceState) name key itemID)
         (as_activeItems scope)\<rparr>))"

definition loadActiveScope ::
  "'w env \<Rightarrow> NamespaceState \<Rightarrow> ('w st, namespaceActiveScope) eff" where
  "loadActiveScope E namespaceState =
     bindM (collectionRegistrations (ns_NamespaceID namespaceState)) (\<lambda>registered.
     bindM (foldM (\<lambda>scope collection.
         let scope = scope\<lparr>as_scopedCollections :=
                       insert (rc_name collection) (as_scopedCollections scope)\<rparr>
         in bindM (outside (rc_keys collection)) (\<lambda>keys.
            foldM (addActiveKey E namespaceState (rc_name collection)) scope
              (uniqueSortedStrings keys)))
       empty_scope registered) (\<lambda>scope.
     ret (scope\<lparr>as_activeScopeHash := computeHash (env_crypto E) scope\<rparr>)))"

lemma sorted_distinct_adj: "sorted xs \<Longrightarrow> distinct_adj xs \<Longrightarrow> distinct xs"
  for xs :: "'a::linorder list"
proof (induction xs)
  case Nil
  then show ?case by simp
next
  case (Cons x xs)
  then show ?case by (cases xs) (auto simp: distinct_adj_Cons)
qed

lemma uniqueSortedStrings_eq: "uniqueSortedStrings vals = sorted_list_of_set (set vals)"
proof -
  have "remdups_adj (sort vals) = sorted_list_of_set (set vals)"
    by (rule sorted_distinct_set_unique) (simp_all add: sorted_distinct_adj)
  then show ?thesis by (cases vals) (simp_all add: uniqueSortedStrings_def)
qed

subsection \<open>The scope hash identifies the scope\<close>

text \<open>
  The separators 0 and 1 make the hashed text unambiguous as long as they do not occur in the
  names of collections; item IDs are hexadecimal. Nothing in the client excludes such names.
\<close>

definition separator_free :: "string \<Rightarrow> bool" where
  "separator_free s \<longleftrightarrow> CHR 0x00 \<notin> set s \<and> CHR 0x01 \<notin> set s"

lemma separated_injective:
  assumes "\<forall>x \<in> set xs. c \<notin> set x" and "\<forall>y \<in> set ys. c \<notin> set y"
    and "\<forall>x \<in> set xs. stop \<notin> set x" and "\<forall>y \<in> set ys. stop \<notin> set y"
    and "c \<noteq> stop"
    and "a = [] \<or> hd a = stop" and "b = [] \<or> hd b = stop"
    and "concat (map ((#) c) xs) @ a = concat (map ((#) c) ys) @ b"
  shows "xs = ys \<and> a = b"
  using assms
proof (induction xs arbitrary: ys)
  case Nil
  then show ?case by (cases ys) (auto simp: Cons_eq_append_conv)
next
  case (Cons x xs)
  show ?case
  proof (cases ys)
    case Nil
    with Cons.prems show ?thesis by (auto simp: Cons_eq_append_conv)
  next
    case (Cons y ys')
    define r where "r = concat (map ((#) c) xs) @ a"
    define r' where "r' = concat (map ((#) c) ys') @ b"
    have eq: "x @ r = y @ r'"
      using Cons.prems(8) by (simp add: Cons r_def r'_def)
    have r: "r = [] \<or> hd r \<in> {c, stop}" and r': "r' = [] \<or> hd r' \<in> {c, stop}"
      unfolding r_def r'_def using Cons.prems(6,7) by (cases xs; auto; cases ys'; auto)+
    have x: "c \<notin> set x" "stop \<notin> set x" and y: "c \<notin> set y" "stop \<notin> set y"
      using Cons.prems(1-4) by (simp_all add: Cons)
    have "takeWhile (\<lambda>d. d \<notin> {c, stop}) (x @ r) = x"
      using x r by (cases r) (auto simp: takeWhile_append)
    moreover have "takeWhile (\<lambda>d. d \<notin> {c, stop}) (y @ r') = y"
      using y r' by (cases r') (auto simp: takeWhile_append)
    ultimately have "x = y" using eq by metis
    with eq have "r = r'" by simp
    with Cons.IH [of ys'] Cons.prems have "xs = ys' \<and> a = b"
      by (simp add: Cons r_def r'_def)
    with \<open>x = y\<close> show ?thesis by (simp add: Cons)
  qed
qed

lemma scope_preimage_injective:
  assumes "\<forall>x \<in> set cs \<union> set ids \<union> set cs' \<union> set ids'. separator_free x"
    and "scope_preimage cs ids = scope_preimage cs' ids'"
  shows "cs = cs' \<and> ids = ids'"
proof -
  let ?i = "concat (map ((#) (CHR 0x01)) ids)" and ?i' = "concat (map ((#) (CHR 0x01)) ids')"
  have eq: "concat (map ((#) (CHR 0x00)) cs) @ ?i = concat (map ((#) (CHR 0x00)) cs') @ ?i'"
    using assms(2) by (simp add: scope_preimage_def)
  have hd: "?i = [] \<or> hd ?i = CHR 0x01" "?i' = [] \<or> hd ?i' = CHR 0x01"
    by (cases ids; simp) (cases ids'; simp)
  have "cs = cs' \<and> ?i = ?i'"
    by (rule separated_injective [OF _ _ _ _ _ hd eq])
      (use assms(1) in \<open>auto simp: separator_free_def\<close>)
  moreover have "ids = ids' \<and> ([] :: bytes) = []"
    by (rule separated_injective [where c = "CHR 0x01" and stop = "CHR 0x00"])
      (use assms(1) \<open>cs = cs' \<and> ?i = ?i'\<close> in \<open>auto simp: separator_free_def\<close>)
  ultimately show ?thesis by simp
qed

lemma computeHash_identifies:
  assumes "\<forall>x. sha256 C x \<noteq> []"
    and "finite (as_scopedCollections a)" and "finite (as_activeItemIDs a)"
    and "finite (as_scopedCollections b)" and "finite (as_activeItemIDs b)"
    and free: "\<forall>x \<in> as_scopedCollections a \<union> as_activeItemIDs a \<union>
        as_scopedCollections b \<union> as_activeItemIDs b. separator_free x"
    and "as_scopedCollections a \<noteq> {}"
    and "computeHash C a = computeHash C b"
  shows "as_scopedCollections a = as_scopedCollections b \<and>
      as_activeItemIDs a = as_activeItemIDs b \<or>
    scope_bytes a \<noteq> scope_bytes b \<and> sha256 C (scope_bytes a) = sha256 C (scope_bytes b)"
proof -
  have "hex_encode (sha256 C x) \<noteq> []" for x
    using assms(1) by (simp flip: length_greater_0_conv)
  then have "as_scopedCollections b \<noteq> {}"
    using assms(7,8) by (auto simp: computeHash_def)
  then have "sha256 C (scope_bytes a) = sha256 C (scope_bytes b)"
    using assms(7,8) by (simp add: computeHash_def)
  moreover have "as_scopedCollections a = as_scopedCollections b \<and>
      as_activeItemIDs a = as_activeItemIDs b" if "scope_bytes a = scope_bytes b"
    using scope_preimage_injective [OF _ that [unfolded scope_bytes_def]] assms(2-5) free
    by (metis UnE UnI1 UnI2 set_sorted_list_of_set)
  ultimately show ?thesis by blast
qed

subsection \<open>What the scope holds\<close>

text \<open>Names and keys are Go strings.\<close>

definition go_collection :: "'w registeredCollection \<Rightarrow> bool" where
  "go_collection r \<longleftrightarrow> go_string (rc_name r) \<and>
     (\<forall>w vals w'. rc_snapshot r w = (Inr vals, w') \<longrightarrow> (\<forall>(k, v) \<in> set vals. go_string k)) \<and>
     (\<forall>w keys w'. rc_keys r w = (Inr keys, w') \<longrightarrow> (\<forall>k \<in> set keys. go_string k))"

definition scope_ok :: "'w env \<Rightarrow> NamespaceState \<Rightarrow> namespaceActiveScope \<Rightarrow> bool" where
  "scope_ok E n scope \<longleftrightarrow>
     as_activeItemIDs scope = fst ` set (as_activeItems scope) \<and>
     distinct (map fst (as_activeItems scope)) \<and>
     (\<forall>(i, item) \<in> set (as_activeItems scope). \<exists>c k.
        c \<in> as_scopedCollections scope \<and> go_string c \<and> go_string k \<and>
        item = new_item (env_keyID E) (ns_NamespaceID n) c k i \<and>
        ItemID (env_crypto E) (ns_DEK n) (composeLogicalKey c k) = Inr i)"

lemma set_update_subset: "set (AList.update k v xs) \<subseteq> insert (k, v) (set xs)"
  by (induction xs) auto

lemma fst_set_update: "fst ` set (AList.update k v xs) = insert k (fst ` set xs)"
  by (induction xs) auto

lemma scope_ok_update:
  assumes "scope_ok E n scope" and "c \<in> as_scopedCollections scope"
    and "go_string c" and "go_string k"
    and "ItemID (env_crypto E) (ns_DEK n) (composeLogicalKey c k) = Inr i"
  shows "scope_ok E n
     (scope\<lparr>as_activeItemIDs := insert i (as_activeItemIDs scope),
        as_activeItems := AList.update i (new_item (env_keyID E) (ns_NamespaceID n) c k i)
          (as_activeItems scope)\<rparr>)"
proof -
  let ?v = "new_item (env_keyID E) (ns_NamespaceID n) c k i"
  have items: "\<exists>c k. c \<in> as_scopedCollections scope \<and> go_string c \<and> go_string k \<and>
        item = new_item (env_keyID E) (ns_NamespaceID n) c k j \<and>
        ItemID (env_crypto E) (ns_DEK n) (composeLogicalKey c k) = Inr j"
    if "(j, item) \<in> set (AList.update i ?v (as_activeItems scope))" for j item
  proof (cases "(j, item) = (i, ?v)")
    case True
    with assms(2-5) show ?thesis by blast
  next
    case False
    with that have "(j, item) \<in> set (as_activeItems scope)"
      using set_update_subset [of i ?v "as_activeItems scope"] by blast
    with assms(1) show ?thesis by (auto simp: scope_ok_def)
  qed
  have "as_activeItemIDs scope = fst ` set (as_activeItems scope)"
    and "distinct (map fst (as_activeItems scope))"
    using assms(1) by (simp_all add: scope_ok_def)
  with items show ?thesis
    by (auto simp: scope_ok_def fst_set_update distinct_update)
qed

lemma wp_addActiveKey:
  assumes "scope_ok E n scope" and "name \<in> as_scopedCollections scope"
    and "go_string name" and "go_string key"
    and "\<And>scope'. scope_ok E n scope' \<Longrightarrow>
      as_scopedCollections scope' = as_scopedCollections scope \<Longrightarrow> Q scope' s"
    and "\<And>e. X e s"
  shows "wp (addActiveKey E n name scope key) Q X s"
  using assms by (auto simp: addActiveKey_def wp scope_ok_update split: sum.split)

lemma scope_ok_empty: "scope_ok E n empty_scope"
  by (simp add: scope_ok_def empty_scope_def)

lemma scope_ok_scoped:
  "scope_ok E n scope \<Longrightarrow>
     scope_ok E n (scope\<lparr>as_scopedCollections := insert c (as_scopedCollections scope)\<rparr>)"
  by (fastforce simp: scope_ok_def)

lemma wp_addActiveKeys:
  assumes "scope_ok E n scope" and "name \<in> as_scopedCollections scope" and "outputs_only s t"
    and "go_string name" and "\<forall>key \<in> set keys. go_string key"
  shows "wp (foldM (addActiveKey E n name) scope keys)
      (\<lambda>scope' t'. scope_ok E n scope' \<and> outputs_only s t') (\<lambda>_ t'. outputs_only s t') t"
proof (rule wp_mono [OF wp_foldM])
  show "scope_ok E n scope \<and> name \<in> as_scopedCollections scope \<and> outputs_only s t"
    using assms by simp
next
  fix acc key u
  assume "key \<in> set keys"
    and "scope_ok E n acc \<and> name \<in> as_scopedCollections acc \<and> outputs_only s u"
  with assms(4,5) show "wp (addActiveKey E n name acc key)
      (\<lambda>a t. scope_ok E n a \<and> name \<in> as_scopedCollections a \<and> outputs_only s t)
      (\<lambda>_ t'. outputs_only s t') u"
    by (intro wp_addActiveKey) auto
qed auto

lemma wp_loadActiveScope:
  assumes go: "\<forall>(k, r) \<in> set (st_collections s). go_collection r"
    and "\<And>scope t. outputs_only s t \<Longrightarrow> scope_ok E n scope \<Longrightarrow> Q scope t"
    and "\<And>e t. outputs_only s t \<Longrightarrow> X e t"
  shows "wp (loadActiveScope E n) Q X s"
proof -
  have outer: "wp (foldM (\<lambda>scope collection.
         let scope = scope\<lparr>as_scopedCollections :=
                       insert (rc_name collection) (as_scopedCollections scope)\<rparr>
         in bindM (outside (rc_keys collection)) (\<lambda>keys.
            foldM (addActiveKey E n (rc_name collection)) scope (uniqueSortedStrings keys)))
       empty_scope registered)
      (\<lambda>scope t. scope_ok E n scope \<and> outputs_only s t) (\<lambda>_ t. outputs_only s t) s"
    if registered: "\<forall>c \<in> set registered. go_collection c" for registered
  proof (rule wp_foldM, goal_cases)
    case 1
    show ?case by (simp add: scope_ok_empty outputs.R_refl)
  next
    case (2 acc c u)
    have c: "go_collection c" using 2 registered by blast
    show ?case
    proof (cases "rc_keys c (st_world u)")
      case (Pair r w)
      have u: "outputs_only s (u\<lparr>st_world := w\<rparr>)" using 2 by (simp add: outputs_only_def)
      show ?thesis
      proof (cases r)
        case (Inl e)
        with Pair u show ?thesis by (simp add: wp Let_def)
      next
        case (Inr keys)
        have "\<forall>k \<in> set keys. go_string k" and "go_string (rc_name c)"
          using c Pair Inr unfolding go_collection_def by blast+
        then have "\<forall>k \<in> set (uniqueSortedStrings keys). go_string k" "go_string (rc_name c)"
          by (simp_all add: uniqueSortedStrings_def)
        with Pair Inr u 2 show ?thesis
          by (simp add: wp Let_def wp_addActiveKeys scope_ok_scoped)
      qed
    qed
  qed
  have final: "scope_ok E n (scope\<lparr>as_activeScopeHash := h\<rparr>)" if "scope_ok E n scope" for scope h
    using that by (simp add: scope_ok_def)
  show ?thesis
    unfolding loadActiveScope_def wp_bindM collectionRegistrations_def wp_reads
    by (rule wp_mono [OF outer]) (use go in \<open>auto simp: wp intro: assms final\<close>)
qed

lemma stays_loadActiveScope [calls]: "stays outputs_only (loadActiveScope E n)"
  unfolding loadActiveScope_def addActiveKey_def Let_def
  by (intro outputs.combinators calls)

end
