(* ===== verification/Item_State.thy ===== *)
theory Item_State
  imports Sync_Types
begin

text \<open>
  The sync metadata of one item and its transitions (the \<open>mark\<close> functions at the end of
  \<open>src/bitboxsync/engine_items.go\<close>). The clock reading \<open>touchItem\<close> takes is an argument.
  \<open>item_inv\<close> is the invariant of an item; every transition keeps it.
\<close>

definition hasMergeBase :: "ItemState \<Rightarrow> bool" where
  "hasMergeBase item \<longleftrightarrow> it_BaseVersion item \<noteq> 0 \<or> length (it_BaseValue item) \<noteq> 0"

definition touchItem :: "gotime \<Rightarrow> ItemState \<Rightarrow> ItemState" where
  "touchItem now item = item\<lparr>it_UpdatedAt := now\<rparr>"

definition clearItemConflict :: "ItemState \<Rightarrow> ItemState" where
  "clearItemConflict item =
     item\<lparr>it_Conflict := False, it_ConflictRemoteVersion := 0, it_ConflictRemoteValue := []\<rparr>"

definition markItemClean :: "gotime \<Rightarrow> ItemState \<Rightarrow> u64 \<Rightarrow> bytes \<Rightarrow> ItemState" where
  "markItemClean now item version baseValue =
     touchItem now (clearItemConflict
       (item\<lparr>it_Version := version, it_BaseVersion := version, it_BaseValue := baseValue,
             it_Dirty := False\<rparr>))"

definition markItemDirty :: "gotime \<Rightarrow> ItemState \<Rightarrow> ItemState" where
  "markItemDirty now item = touchItem now (item\<lparr>it_Dirty := True\<rparr>)"

definition markItemDirtyWithBase :: "gotime \<Rightarrow> ItemState \<Rightarrow> u64 \<Rightarrow> bytes \<Rightarrow> ItemState" where
  "markItemDirtyWithBase now item version baseValue =
     touchItem now (clearItemConflict
       (item\<lparr>it_Version := version, it_BaseVersion := version, it_BaseValue := baseValue,
             it_Dirty := True\<rparr>))"

definition markItemConflict :: "gotime \<Rightarrow> ItemState \<Rightarrow> u64 \<Rightarrow> bytes \<Rightarrow> ItemState" where
  "markItemConflict now item remoteVersion remoteValue =
     touchItem now
       (item\<lparr>it_Version := remoteVersion, it_Dirty := True, it_Conflict := True,
             it_ConflictRemoteVersion := remoteVersion,
             it_ConflictRemoteValue := remoteValue\<rparr>)"

lemmas mark_defs =
  touchItem_def clearItemConflict_def markItemClean_def markItemDirty_def
  markItemDirtyWithBase_def markItemConflict_def

text \<open>
  A conflict is dirty and remembers the version it was detected at; without a conflict the
  conflict fields are empty; a clean item is at its base; the base is never ahead.
\<close>

definition item_inv :: "ItemState \<Rightarrow> bool" where
  "item_inv i \<longleftrightarrow>
     (it_Conflict i \<longrightarrow> it_Dirty i \<and> it_ConflictRemoteVersion i = it_Version i) \<and>
     (\<not> it_Conflict i \<longrightarrow> it_ConflictRemoteVersion i = 0 \<and> it_ConflictRemoteValue i = []) \<and>
     (\<not> it_Dirty i \<longrightarrow> it_BaseVersion i = it_Version i) \<and>
     it_BaseVersion i \<le> it_Version i"

definition item_evolves :: "ItemState \<Rightarrow> ItemState \<Rightarrow> bool" where
  "item_evolves i j \<longleftrightarrow>
     it_KeyID j = it_KeyID i \<and> it_NamespaceID j = it_NamespaceID i \<and>
     it_ItemID j = it_ItemID i \<and> it_Collection j = it_Collection i \<and> it_Key j = it_Key i \<and>
     it_Version i \<le> it_Version j \<and> it_BaseVersion i \<le> it_BaseVersion j"

lemma item_evolves_refl [simp]: "item_evolves i i"
  by (simp add: item_evolves_def)

lemma item_evolves_trans: "item_evolves i j \<Longrightarrow> item_evolves j k \<Longrightarrow> item_evolves i k"
  unfolding item_evolves_def by (metis order.trans)

lemma item_inv_new: "item_inv (new_item k n c y i)"
  by (simp add: item_inv_def new_item_def)

lemma markItemDirty_step:
  "item_inv i \<Longrightarrow> item_inv (markItemDirty now i) \<and> item_evolves i (markItemDirty now i)"
  by (auto simp: mark_defs item_inv_def item_evolves_def)

lemma markItemClean_step:
  assumes "item_inv i" and "it_Version i \<le> v"
  shows "item_inv (markItemClean now i v b) \<and> item_evolves i (markItemClean now i v b)"
  using assms by (auto simp: mark_defs item_inv_def item_evolves_def intro: order.trans)

lemma markItemDirtyWithBase_step:
  assumes "item_inv i" and "it_Version i \<le> v"
  shows "item_inv (markItemDirtyWithBase now i v b) \<and>
     item_evolves i (markItemDirtyWithBase now i v b)"
  using assms by (auto simp: mark_defs item_inv_def item_evolves_def intro: order.trans)

lemma markItemConflict_step:
  assumes "item_inv i" and "it_Version i \<le> v"
  shows "item_inv (markItemConflict now i v r) \<and> item_evolves i (markItemConflict now i v r)"
  using assms by (auto simp: mark_defs item_inv_def item_evolves_def intro: order.trans)

lemma clear_dirty_step:
  assumes "item_inv i"
  shows "item_inv (markItemDirty now (clearItemConflict i)) \<and>
     item_evolves i (markItemDirty now (clearItemConflict i))"
  using assms by (auto simp: mark_defs item_inv_def item_evolves_def)

lemmas mark_steps =
  markItemDirty_step markItemClean_step markItemDirtyWithBase_step markItemConflict_step
  clear_dirty_step

end
