(* ===== verification/Engine_Step.thy ===== *)
theory Engine_Step
  imports Engine_Auth Discovery Item_State
begin

text \<open>
  The invariant of a running engine and the relation between the states before and after
  any of its operations.

  \<open>engine_ok\<close>: the database is well formed, every stored item satisfies \<open>item_inv\<close> and has
  an ID derived from its logical key, the identity snapshot belongs to this engine, the
  registry is a map. \<open>engine_step\<close>: the invariant is kept, stored versions never go back, no
  item is lost or moved to another key, rows of other identities are untouched, outputs only
  grow, and a closed engine emits nothing.
\<close>

definition id_derived :: "crypto \<Rightarrow> ItemState \<Rightarrow> bool" where
  "id_derived C i \<longleftrightarrow> go_string (it_Collection i) \<and> go_string (it_Key i) \<and>
     (\<exists>dek. ItemID C dek (composeLogicalKey (it_Collection i) (it_Key i)) = Inr (it_ItemID i))"

text \<open>
  The symbolic view of HMAC: an item ID identifies its logical key. A real hash function has
  collisions; that none turns up among the keys in use is what the code relies on.
\<close>

definition item_ids_identify :: "crypto \<Rightarrow> bool" where
  "item_ids_identify C \<longleftrightarrow>
     (\<forall>i j. id_derived C i \<longrightarrow> id_derived C j \<longrightarrow> it_ItemID i = it_ItemID j \<longrightarrow>
        it_Collection i = it_Collection j \<and> it_Key i = it_Key j)"

text \<open>A digest is not empty.\<close>

definition crypto_ok :: "crypto \<Rightarrow> bool" where
  "crypto_ok C \<longleftrightarrow> item_ids_identify C \<and> (\<forall>x. sha256 C x \<noteq> [])"

lemma id_derived_nonempty:
  assumes "crypto_ok C" and "id_derived C i"
  shows "it_ItemID i \<noteq> []"
proof -
  obtain x y where "Inr (hex_encode (hmac_sha256 C x y)) = (Inr (it_ItemID i) :: err + string)"
    using assms(2) by (auto simp: id_derived_def ItemID_def)
  moreover have "hmac_sha256 C x y \<noteq> []" for x y
    using assms(1) by (simp add: crypto_ok_def hmac_sha256_def Let_def)
  ultimately show ?thesis using length_hex_encode [of "hmac_sha256 C x y"]
    by (metis length_0_conv mult_is_0 sum.inject(2) zero_neq_numeral)
qed

definition items_ok :: "'w env \<Rightarrow> database \<Rightarrow> bool" where
  "items_ok E d \<longleftrightarrow> (\<forall>k i. item_of d k = Some i \<longrightarrow>
     item_inv i \<and> (it_KeyID i = env_keyID E \<longrightarrow> id_derived (env_crypto E) i))"

text \<open>
  What a restart would load is the session in memory; with nothing stored there is no token.
\<close>

definition session_saved :: "'w env \<Rightarrow> database \<Rightarrow> IdentityState \<Rightarrow> bool" where
  "session_saved E d i \<longleftrightarrow>
     (case lookup_row idr_key_id (env_keyID E) (identity_states d) of
        None \<Rightarrow> id_AccessToken i = []
      | Some r \<Rightarrow> (scan_identity r)\<lparr>id_UpdatedAt := 0\<rparr> = i\<lparr>id_UpdatedAt := 0\<rparr>)"

definition engine_ok :: "'w env \<Rightarrow> 'w st \<Rightarrow> bool" where
  "engine_ok E s \<longleftrightarrow>
     db_wf (st_db s) \<and> items_ok E (st_db s) \<and> id_KeyID (st_identity s) = env_keyID E \<and>
     session_saved E (st_db s) (st_identity s) \<and> st_eventsClosed s = st_closed s \<and>
     registry_ok s \<and> (\<forall>(k, r) \<in> set (st_collections s). go_collection r) \<and>
     crypto_ok (env_crypto E)"

definition others_untouched :: "'w env \<Rightarrow> database \<Rightarrow> database \<Rightarrow> bool" where
  "others_untouched E d d' \<longleftrightarrow>
     (\<forall>k. k \<noteq> env_keyID E \<longrightarrow>
        lookup_row idr_key_id k (identity_states d') = lookup_row idr_key_id k (identity_states d) \<and>
        (\<forall>n. lookup_row namespace_pk (k, n) (namespaces d') =
             lookup_row namespace_pk (k, n) (namespaces d)) \<and>
        (\<forall>n i. item_of d' (k, n, i) = item_of d (k, n, i)))"

definition items_evolve :: "database \<Rightarrow> database \<Rightarrow> bool" where
  "items_evolve d d' \<longleftrightarrow>
     (\<forall>k i. item_of d k = Some i \<longrightarrow> (\<exists>j. item_of d' k = Some j \<and> item_evolves i j))"

definition outputs_grow :: "'w st \<Rightarrow> 'w st \<Rightarrow> bool" where
  "outputs_grow s t \<longleftrightarrow>
     st_collections t = st_collections s \<and> st_idlePolling t = st_idlePolling s \<and>
     st_eventsClosed t = st_eventsClosed s \<and> st_closed t = st_closed s \<and>
     (\<exists>es. st_events t = st_events s @ es) \<and> requests_grow (st_requests s) (st_requests t) \<and>
     (st_eventsClosed s \<longrightarrow> st_events t = st_events s)"

definition evolves :: "'w env \<Rightarrow> 'w st \<Rightarrow> 'w st \<Rightarrow> bool" where
  "evolves E s t \<longleftrightarrow> others_untouched E (st_db s) (st_db t) \<and>
     items_evolve (st_db s) (st_db t) \<and> outputs_grow s t"

definition engine_step :: "'w env \<Rightarrow> 'w st \<Rightarrow> 'w st \<Rightarrow> bool" where
  "engine_step E s t \<longleftrightarrow> (engine_ok E s \<longrightarrow> engine_ok E t \<and> evolves E s t)"

lemma items_evolve_refl: "items_evolve d d"
  by (auto simp: items_evolve_def)

lemma items_evolve_trans: "items_evolve a b \<Longrightarrow> items_evolve b c \<Longrightarrow> items_evolve a c"
  unfolding items_evolve_def by (meson item_evolves_trans)

lemma outputs_grow_trans: "outputs_grow s t \<Longrightarrow> outputs_grow t u \<Longrightarrow> outputs_grow s u"
  unfolding outputs_grow_def by (metis append.assoc requests_grow_trans)

lemma engine_step_refl: "engine_step E s s"
  by (simp add: engine_step_def evolves_def items_evolve_refl others_untouched_def
      outputs_grow_def)

lemma engine_step_trans: "engine_step E s t \<Longrightarrow> engine_step E t u \<Longrightarrow> engine_step E s u"
  by (auto simp: engine_step_def evolves_def others_untouched_def
      intro: items_evolve_trans outputs_grow_trans)

interpretation engine: step_relation "engine_step E" for E
  by unfold_locales (fact engine_step_refl, fact engine_step_trans)

named_theorems engine_calls

lemma engine_step_outputs: "outputs_only s t \<Longrightarrow> engine_step E s t"
  by (auto simp: engine_step_def outputs_only_def engine_ok_def evolves_def items_evolve_refl
      others_untouched_def outputs_grow_def registry_ok_def)

lemma stays_engine_outputs: "stays outputs_only m \<Longrightarrow> stays (engine_step E) m"
  by (simp add: stays_def engine_step_outputs)

lemma engine_ok_outputs: "outputs_only s t \<Longrightarrow> engine_ok E s \<Longrightarrow> engine_ok E t"
  using engine_step_outputs by (auto simp: engine_step_def)

section \<open>Writes of the engine\<close>

text \<open>A new content of the database, after steps that only used the world.\<close>

lemma engine_step_db:
  assumes "outputs_only s t"
    and "engine_ok E s \<Longrightarrow> db_wf d \<and> items_ok E d \<and>
      others_untouched E (st_db s) d \<and> items_evolve (st_db s) d"
  shows "identity_states d = identity_states (st_db s) \<Longrightarrow> engine_step E s (t\<lparr>st_db := d\<rparr>)"
    and "id_KeyID i = env_keyID E \<Longrightarrow> session_saved E d i \<Longrightarrow>
      engine_step E s (t\<lparr>st_db := d, st_identity := i\<rparr>)"
proof -
  have out: "outputs_grow s (t\<lparr>st_db := d\<rparr>)" "outputs_grow s (t\<lparr>st_db := d, st_identity := i\<rparr>)"
    using assms(1) by (simp_all add: outputs_only_def outputs_grow_def)
  have ok: "identity_states d = identity_states (st_db s) \<Longrightarrow> engine_ok E (t\<lparr>st_db := d\<rparr>)"
    "id_KeyID i = env_keyID E \<Longrightarrow> session_saved E d i \<Longrightarrow>
       engine_ok E (t\<lparr>st_db := d, st_identity := i\<rparr>)"
    if "engine_ok E s"
    using assms(1) assms(2) [OF that] that
    by (simp_all add: engine_ok_def outputs_only_def registry_ok_def session_saved_def)
  show "engine_step E s (t\<lparr>st_db := d\<rparr>)" if "identity_states d = identity_states (st_db s)"
    using ok(1) [OF _ that] assms(2) out(1) by (simp add: engine_step_def evolves_def)
  show "engine_step E s (t\<lparr>st_db := d, st_identity := i\<rparr>)"
    if "id_KeyID i = env_keyID E" "session_saved E d i"
    using ok(2) [OF _ that] assms(2) out(2) by (simp add: engine_step_def evolves_def)
qed

lemma item_of_update [simp]:
  "item_of (d\<lparr>identity_states := x\<rparr>) = item_of d"
  "item_of (d\<lparr>namespaces := y\<rparr>) = item_of d"
  by (simp_all add: item_of_def fun_eq_iff)

lemma SaveIdentity_frame:
  assumes "id_KeyID i = env_keyID E" and "SaveIdentity now i d = (r, d')"
  shows "items_evolve d d'" and "others_untouched E d d'"
    and "items_ok E d \<Longrightarrow> items_ok E d'"
proof -
  have d': "d' = d\<lparr>identity_states := upsert idr_key_id (identity_to_row now i) (identity_states d)\<rparr>"
    using assms(2) by (simp add: SaveIdentity_def)
  show "items_evolve d d'" by (simp add: d' items_evolve_def)
  show "items_ok E d \<Longrightarrow> items_ok E d'" by (simp add: d' items_ok_def)
  show "others_untouched E d d'"
    using assms(1) by (simp add: d' others_untouched_def lookup_row_upsert identity_to_row_def)
qed

lemma SaveNamespace_frame:
  assumes "ns_KeyID n = env_keyID E" and "SaveNamespace now n d = (r, d')"
  shows "items_evolve d d' \<and> others_untouched E d d' \<and> (items_ok E d \<longrightarrow> items_ok E d')"
proof (cases "namespace_to_row now n")
  case (Inl e)
  then have "d' = d" using assms(2) by (simp add: SaveNamespace_def)
  then show ?thesis by (simp add: items_evolve_refl others_untouched_def)
next
  case (Inr row)
  then have d': "d' = d\<lparr>namespaces := upsert namespace_pk row (namespaces d)\<rparr>"
    using assms(2) by (simp add: SaveNamespace_def)
  have "namespace_pk row = (ns_KeyID n, ns_NamespaceID n)"
    using Inr by (auto simp: namespace_to_row_def namespace_pk_def)
  with assms(1) show ?thesis
    by (simp add: d' items_evolve_def items_ok_def others_untouched_def lookup_row_upsert)
qed

lemma SaveNamespace_identities:
  "SaveNamespace now n d = (r, d') \<Longrightarrow> identity_states d' = identity_states d"
  by (auto simp: SaveNamespace_def split: sum.splits)

lemma SaveIdentity_session:
  assumes "id_KeyID i = env_keyID E" and "SaveIdentity now i d = (r, d')"
  shows "session_saved E d' i"
  using assms
  by (auto simp: SaveIdentity_def session_saved_def lookup_row_upsert scan_identity_to_row)
    (simp_all add: identity_to_row_def)

text \<open>What the engine may store as the state of an item.\<close>

definition item_ready :: "'w env \<Rightarrow> 'w st \<Rightarrow> ItemState \<Rightarrow> bool" where
  "item_ready E s i \<longleftrightarrow>
     it_KeyID i = env_keyID E \<and> item_inv i \<and> id_derived (env_crypto E) i \<and>
     (\<forall>j. item_of (st_db s) (item_key i) = Some j \<longrightarrow> item_evolves j i)"

lemma item_ready_outputs: "outputs_only s t \<Longrightarrow> item_ready E t i = item_ready E s i"
  by (simp add: item_ready_def outputs_only_def)

lemma item_ready_evolves:
  assumes "item_ready E s i" and "item_inv j \<and> item_evolves i j"
  shows "item_ready E s j"
proof -
  have "item_key j = item_key i" using assms(2) by (simp add: item_evolves_def item_key_def)
  moreover have "id_derived (env_crypto E) j"
    using assms by (simp add: item_ready_def item_evolves_def id_derived_def)
  ultimately show ?thesis
    using assms by (auto simp: item_ready_def item_evolves_def intro: order.trans)
qed

lemma SaveItem_frame:
  assumes "item_ready E s i" and "SaveItem now i (st_db s) = (Inr u, d')"
  shows "items_evolve (st_db s) d'" and "others_untouched E (st_db s) d'"
    and "items_ok E (st_db s) \<Longrightarrow> items_ok E d'"
proof -
  note d' = SaveItem_item_of [OF assms(2)]
  have i: "it_KeyID i = env_keyID E" "item_inv i" "id_derived (env_crypto E) i"
    using assms(1) by (simp_all add: item_ready_def)
  show "items_evolve (st_db s) d'"
    using assms(1) by (auto simp: items_evolve_def d' item_ready_def item_evolves_def)
  show "others_untouched E (st_db s) d'"
    using i by (simp add: others_untouched_def d' item_key_def)
  show "items_ok E d'" if "items_ok E (st_db s)"
    using that i
    by (auto simp: items_ok_def d' item_inv_def id_derived_def)
qed

section \<open>The three writes are steps\<close>

lemma wp_SaveItem_step:
  assumes "outputs_only s t" and "engine_ok E s \<Longrightarrow> item_ready E s i"
  shows "wp (store_SaveItem E i) (\<lambda>_. engine_step E s) (\<lambda>_. engine_step E s) t"
proof (rule wp_store_SaveItem)
  fix u now d
  assume "outputs_only t u" and save: "SaveItem now i (st_db t) = (Inr (), d)"
  then have "outputs_only s u" using assms(1) by (blast intro: outputs.R_trans)
  moreover have "db_wf d \<and> items_ok E d \<and> others_untouched E (st_db s) d \<and>
      items_evolve (st_db s) d" if ok: "engine_ok E s"
  proof -
    have "SaveItem now i (st_db s) = (Inr (), d)"
      using save assms(1) by (simp add: outputs_only_def)
    with SaveItem_frame [OF assms(2) [OF ok]] ok db_wf_SaveItem [of "st_db s" now i]
    show ?thesis by (simp add: engine_ok_def)
  qed
  moreover have "identity_states d = identity_states (st_db s)"
    using SaveItem_item_of(3) [OF save] assms(1) by (simp add: outputs_only_def)
  ultimately show "engine_step E s (u\<lparr>st_db := d\<rparr>)" by (rule engine_step_db(1))
next
  fix e u
  assume "outputs_only t u"
  then show "engine_step E s u"
    using assms(1) by (blast intro: outputs.R_trans engine_step_outputs)
qed

lemma wp_store_SaveNamespace:
  assumes "\<And>t now d r. outputs_only s t \<Longrightarrow> SaveNamespace now n (st_db s) = (r, d) \<Longrightarrow>
      (case r of Inl e \<Rightarrow> X e (t\<lparr>st_db := d\<rparr>) | Inr _ \<Rightarrow> Q () (t\<lparr>st_db := d\<rparr>))"
    and "\<And>e t. outputs_only s t \<Longrightarrow> X e t"
  shows "wp (store_SaveNamespace E n) Q X s"
  unfolding store_SaveNamespace_def wp_bindM
proof (intro wp_time_now wp_stored, goal_cases)
  case (1 now w w')
  obtain r d where save: "SaveNamespace now n (st_db s) = (r, d)" by (meson surj_pair)
  then have "case r of Inl e \<Rightarrow> X e (s\<lparr>st_world := w', st_db := d\<rparr>)
      | Inr _ \<Rightarrow> Q () (s\<lparr>st_world := w', st_db := d\<rparr>)"
    using assms(1) [of "s\<lparr>st_world := w'\<rparr>" now r d] by simp
  with save show ?case by (cases r) simp_all
next
  case (2 now w msg w')
  then show ?case using assms(2) [of "s\<lparr>st_world := w'\<rparr>" "Errorf msg"] by simp
qed

lemma wp_store_SaveIdentity:
  assumes "\<And>t now d. outputs_only s t \<Longrightarrow> SaveIdentity now i (st_db s) = (Inr (), d) \<Longrightarrow>
      Q () (t\<lparr>st_db := d\<rparr>)"
    and "\<And>e t. outputs_only s t \<Longrightarrow> X e t"
  shows "wp (store_SaveIdentity E i) Q X s"
  using assms
  unfolding store_SaveIdentity_def wp_bindM
  by (intro wp_time_now wp_stored) (auto simp: SaveIdentity_def)

lemma stays_SaveNamespace [engine_calls]:
  assumes "ns_KeyID n = env_keyID E"
  shows "stays (engine_step E) (store_SaveNamespace E n)"
proof (rule staysI)
  fix s
  have "wp (store_SaveNamespace E n) (\<lambda>_. engine_step E s) (\<lambda>_. engine_step E s) s"
  proof (rule wp_store_SaveNamespace)
    fix t now d r
    assume "outputs_only s t" and save: "SaveNamespace now n (st_db s) = (r, d)"
    then have "engine_step E s (t\<lparr>st_db := d\<rparr>)"
      using SaveNamespace_frame [OF assms save] db_wf_SaveNamespace [of "st_db s" now n]
        SaveNamespace_identities [OF save]
      by (intro engine_step_db(1)) (auto simp: engine_ok_def)
    then show "case r of Inl e \<Rightarrow> engine_step E s (t\<lparr>st_db := d\<rparr>)
        | Inr _ \<Rightarrow> engine_step E s (t\<lparr>st_db := d\<rparr>)"
      by (simp split: sum.split)
  qed (rule engine_step_outputs)
  then show "engine_step E s (snd (store_SaveNamespace E n s))" by (simp add: wp_snd)
qed

section \<open>Read, compute, write\<close>

text \<open>
  Most operations read some state, call the outside world, and write once. \<open>steps_from E s m\<close>
  says that \<open>m\<close>, run in any state that differs from \<open>s\<close> in the outputs only, completes an
  engine step that began in \<open>s\<close>; what was read in \<open>s\<close> still holds when \<open>m\<close> writes.
\<close>

definition steps_from :: "'w env \<Rightarrow> 'w st \<Rightarrow> ('w st, 'a) eff \<Rightarrow> bool" where
  "steps_from E s m \<longleftrightarrow> (\<forall>t. outputs_only s t \<longrightarrow> engine_step E s (snd (m t)))"

lemma steps_from_wp:
  "steps_from E s m \<longleftrightarrow>
     (\<forall>t. outputs_only s t \<longrightarrow> wp m (\<lambda>_. engine_step E s) (\<lambda>_. engine_step E s) t)"
  by (simp add: steps_from_def wp_snd)

lemma steps_from_stays: "(\<And>s. engine_ok E s \<Longrightarrow> steps_from E s m) \<Longrightarrow> stays (engine_step E) m"
  unfolding stays_def steps_from_def by (metis engine_step_def outputs.R_refl)

lemma stays_steps_from: "stays (engine_step E) m \<Longrightarrow> steps_from E s m"
  by (auto simp: stays_def steps_from_def intro: engine_step_outputs engine_step_trans)

lemma steps_from_bind:
  assumes "stays outputs_only m" and "\<And>x. steps_from E s (f x)"
  shows "steps_from E s (bindM m f)"
  unfolding steps_from_wp wp_bindM
proof (intro allI impI)
  fix t
  assume "outputs_only s t"
  with assms show "wp m (\<lambda>x. wp (f x) (\<lambda>_. engine_step E s) (\<lambda>_. engine_step E s))
      (\<lambda>_. engine_step E s) t"
    by (intro wp_stays [OF assms(1)])
      (auto simp: steps_from_wp intro: outputs.R_trans engine_step_outputs)
qed

lemma steps_from_seq:
  "stays outputs_only m \<Longrightarrow> steps_from E s n \<Longrightarrow> steps_from E s (seqM m n)"
  by (simp add: seqM_def steps_from_bind)

lemma steps_from_bind_result:
  assumes "stays outputs_only m" and "returns P m" and "\<And>x. P x \<Longrightarrow> steps_from E s (f x)"
  shows "steps_from E s (bindM m f)"
  unfolding steps_from_wp wp_bindM
proof (intro allI impI)
  fix t
  assume t: "outputs_only s t"
  have "wp m (\<lambda>x u. outputs_only t u \<and> P x) (\<lambda>_ u. outputs_only t u) t"
    using wp_conj [of m "\<lambda>_. outputs_only t" "\<lambda>_. outputs_only t" t "\<lambda>x _. P x" "\<lambda>_ _. True"]
      assms(1,2) by (simp add: wp_snd returns_def stays_def)
  then show "wp m (\<lambda>x. wp (f x) (\<lambda>_. engine_step E s) (\<lambda>_. engine_step E s))
      (\<lambda>_. engine_step E s) t"
  proof (rule wp_mono)
    fix x u
    assume "outputs_only t u \<and> P x"
    with t assms(3) [of x] show "wp (f x) (\<lambda>_. engine_step E s) (\<lambda>_. engine_step E s) u"
      by (simp add: steps_from_wp outputs_only_trans [OF t])
  qed (use t in \<open>blast intro: engine_step_outputs outputs_only_trans\<close>)
qed

lemma steps_from_then:
  assumes "steps_from E s m" and "\<And>x. stays (engine_step E) (f x)"
  shows "steps_from E s (bindM m f)"
  unfolding steps_from_wp wp_bindM
proof (intro allI impI)
  fix t
  assume "outputs_only s t"
  then have "wp m (\<lambda>_. engine_step E s) (\<lambda>_. engine_step E s) t"
    using assms(1) by (simp add: steps_from_wp)
  then show "wp m (\<lambda>x. wp (f x) (\<lambda>_. engine_step E s) (\<lambda>_. engine_step E s))
      (\<lambda>_. engine_step E s) t"
    by (rule wp_mono)
      (auto simp: wp_snd intro: engine_step_trans staysD [OF assms(2)])
qed

lemma steps_from_save:
  assumes "engine_ok E s \<Longrightarrow> item_ready E s i" and "stays (engine_step E) m"
  shows "steps_from E s (seqM (store_SaveItem E i) m)"
  unfolding seqM_def
  by (rule steps_from_then) (use assms wp_SaveItem_step in \<open>auto simp: steps_from_wp\<close>)

lemma steps_from_if:
  "(b \<Longrightarrow> steps_from E s m) \<Longrightarrow> (\<not> b \<Longrightarrow> steps_from E s n) \<Longrightarrow>
     steps_from E s (if b then m else n)"
  by simp

lemma steps_from_case_sum:
  "(\<And>e. r = Inl e \<Longrightarrow> steps_from E s (g e)) \<Longrightarrow> (\<And>x. r = Inr x \<Longrightarrow> steps_from E s (f x)) \<Longrightarrow>
     steps_from E s (case r of Inl e \<Rightarrow> g e | Inr x \<Rightarrow> f x)"
  by (cases r) simp_all

lemma steps_from_case_prod:
  "(\<And>a b. steps_from E s (f a b)) \<Longrightarrow> steps_from E s (case p of (a, b) \<Rightarrow> f a b)"
  by (cases p) simp

lemma steps_from_outputs: "stays outputs_only m \<Longrightarrow> steps_from E s m"
  by (simp add: stays_engine_outputs stays_steps_from)

lemmas steps =
  steps_from_if steps_from_case_sum steps_from_case_prod steps_from_bind steps_from_seq

lemma item_ready_marks:
  assumes "item_ready E s item"
  shows "item_ready E s (markItemDirty now item)"
    and "item_ready E s (markItemDirty now (clearItemConflict item))"
    and "it_Version item \<le> v \<Longrightarrow> item_ready E s (markItemClean now item v r)"
    and "it_Version item \<le> v \<Longrightarrow> item_ready E s (markItemDirtyWithBase now item v r)"
    and "it_Version item \<le> v \<Longrightarrow> item_ready E s (markItemConflict now item v r)"
proof -
  have inv: "item_inv item" using assms by (simp add: item_ready_def)
  note step = item_ready_evolves [OF assms]
  show "item_ready E s (markItemDirty now item)"
    "item_ready E s (markItemDirty now (clearItemConflict item))"
    by (rule step [OF markItemDirty_step [OF inv]], rule step [OF clear_dirty_step [OF inv]])
  assume v: "it_Version item \<le> v"
  show "item_ready E s (markItemClean now item v r)"
    by (rule step [OF markItemClean_step [OF inv v]])
  show "item_ready E s (markItemDirtyWithBase now item v r)"
    by (rule step [OF markItemDirtyWithBase_step [OF inv v]])
  show "item_ready E s (markItemConflict now item v r)"
    by (rule step [OF markItemConflict_step [OF inv v]])
qed

text \<open>What a read of an item tells.\<close>

lemma steps_from_query:
  assumes query: "\<And>d. snd (m d) = d"
    and found: "\<And>x. engine_ok E s \<Longrightarrow> fst (m (st_db s)) = Inr x \<Longrightarrow> steps_from E s (f (Inr x))"
    and failed: "\<And>e. engine_ok E s \<Longrightarrow> fst (m (st_db s)) = Inl e \<Longrightarrow> steps_from E s (f (Inl e))"
    and fault: "\<And>msg. steps_from E s (f (Inl (Errorf msg)))"
  shows "steps_from E s (bindM (attempt (stored E m)) f)"
proof (cases "engine_ok E s")
  case False
  then show ?thesis by (simp add: steps_from_def engine_step_def)
next
  case True
  show ?thesis
    unfolding steps_from_wp wp_bindM wp_attempt
  proof (intro allI impI wp_stored)
    fix t w
    assume t: "outputs_only s t"
    have t': "outputs_only s (t\<lparr>st_world := w, st_db := st_db s\<rparr>)"
      using t by (simp add: outputs_only_def)
    have db: "st_db t = st_db s" using t by (rule outputs_only_db)
    obtain r where r: "m (st_db s) = (r, st_db s)" using query by (metis prod.collapse)
    show "case m (st_db t) of (r, d) \<Rightarrow>
        (case r of
           Inl e \<Rightarrow> wp (f (Inl e)) (\<lambda>_. engine_step E s) (\<lambda>_. engine_step E s)
             (t\<lparr>st_world := w, st_db := d\<rparr>)
         | Inr x \<Rightarrow> wp (f (Inr x)) (\<lambda>_. engine_step E s) (\<lambda>_. engine_step E s)
             (t\<lparr>st_world := w, st_db := d\<rparr>))"
      using found [OF True] failed [OF True] t' db r
      by (cases r) (simp_all add: steps_from_wp)
  next
    fix t msg w
    assume "outputs_only s t"
    then have "outputs_only s (t\<lparr>st_world := w\<rparr>)" by (simp add: outputs_only_def)
    with fault show "wp (f (Inl (Errorf msg))) (\<lambda>_. engine_step E s) (\<lambda>_. engine_step E s)
        (t\<lparr>st_world := w\<rparr>)"
      by (simp add: steps_from_wp)
  qed
qed

lemma steps_from_GetItemByID:
  assumes "\<And>item. item_of (st_db s) (k, n, i) = Some item \<Longrightarrow> steps_from E s (f (Inr item))"
    and "item_of (st_db s) (k, n, i) = None \<Longrightarrow> steps_from E s (f (Inl (Sentinel ErrNotFound)))"
    and "\<And>msg. steps_from E s (f (Inl (Errorf msg)))"
  shows "steps_from E s (bindM (attempt (stored E (GetItemByID k n i))) f)"
proof (rule steps_from_query [OF store_reads_only(4)])
  fix x
  assume "engine_ok E s" and "fst (GetItemByID k n i (st_db s)) = Inr x"
  then have "item_of (st_db s) (k, n, i) = Some x"
    by (auto simp: engine_ok_def GetItemByID_item_of split: option.splits)
  then show "steps_from E s (f (Inr x))" by (rule assms(1))
next
  fix e
  assume "engine_ok E s" and "fst (GetItemByID k n i (st_db s)) = Inl e"
  then have "item_of (st_db s) (k, n, i) = None" and "e = Sentinel ErrNotFound"
    by (auto simp: engine_ok_def GetItemByID_item_of split: option.splits)
  then show "steps_from E s (f (Inl e))" using assms(2) by simp
qed (rule assms(3))

lemma steps_from_GetItemByLogicalKey:
  assumes "\<And>item. item_of (st_db s) (item_key item) = Some item \<Longrightarrow>
      logical_key item = (k, n, c, y) \<Longrightarrow> steps_from E s (f (Inr item))"
    and "(\<And>kk i. item_of (st_db s) kk = Some i \<Longrightarrow> logical_key i \<noteq> (k, n, c, y)) \<Longrightarrow>
      steps_from E s (f (Inl (Sentinel ErrNotFound)))"
    and "\<And>msg. steps_from E s (f (Inl (Errorf msg)))"
  shows "steps_from E s (bindM (attempt (stored E (GetItemByLogicalKey k n c y))) f)"
proof (rule steps_from_query [OF store_reads_only(5)])
  fix x
  assume "engine_ok E s" and "fst (GetItemByLogicalKey k n c y (st_db s)) = Inr x"
  then show "steps_from E s (f (Inr x))"
    by (intro assms(1)) (auto simp: engine_ok_def dest: GetItemByLogicalKey_found)
next
  fix e
  assume "engine_ok E s" and "fst (GetItemByLogicalKey k n c y (st_db s)) = Inl e"
  then show "steps_from E s (f (Inl e))"
    using assms(2) GetItemByLogicalKey_missing [of "st_db s" k n c y e]
    by (simp add: engine_ok_def)
qed (rule assms(3))

text \<open>A query that is only used for what it returned.\<close>

lemma engine_step_query:
  assumes "snd (m (st_db s)) = st_db s"
    and "\<And>x w. m (st_db s) = (Inr x, st_db s) \<Longrightarrow>
      engine_step E s (snd (f (Inr x) (s\<lparr>st_world := w\<rparr>)))"
    and "\<And>e w. engine_step E s (snd (f (Inl e) (s\<lparr>st_world := w\<rparr>)))"
  shows "engine_step E s (snd (bindM (attempt (stored E m)) f s))"
proof -
  obtain r where r: "m (st_db s) = (r, st_db s)" using assms(1) by (metis prod.collapse)
  have "s\<lparr>st_world := w, st_db := st_db s\<rparr> = s\<lparr>st_world := w\<rparr>" for w by simp
  then have "wp (bindM (attempt (stored E m)) f) (\<lambda>_. engine_step E s) (\<lambda>_. engine_step E s) s"
    unfolding wp_bindM wp_attempt
    using assms(2,3) r by (intro wp_stored) (cases r; simp add: wp_snd)+
  then show ?thesis by (simp add: wp_snd)
qed

lemma stays_query_attempt:
  assumes query: "\<And>d. snd (m d) = d"
    and result: "\<And>s x. engine_ok E s \<Longrightarrow> fst (m (st_db s)) = Inr x \<Longrightarrow> P x"
    and found: "\<And>x. P x \<Longrightarrow> stays (engine_step E) (f (Inr x))"
    and failed: "\<And>e. stays (engine_step E) (f (Inl e))"
  shows "stays (engine_step E) (bindM (attempt (stored E m)) f)"
proof (rule staysI)
  fix s
  show "engine_step E s (snd (bindM (attempt (stored E m)) f s))"
  proof (cases "engine_ok E s")
    case False
    then show ?thesis by (simp add: engine_step_def)
  next
    case True
    have step: "engine_step E s (snd (g (s\<lparr>st_world := w\<rparr>)))" if "stays (engine_step E) g" for g w
      using that engine_step_outputs [OF outputs_only_world] staysD engine_step_trans by metis
    show ?thesis
      by (rule engine_step_query)
        (use True in \<open>auto simp: query intro!: step found failed result\<close>)
  qed
qed

lemma stays_query_result:
  assumes query: "\<And>d. snd (m d) = d"
    and result: "\<And>s x. engine_ok E s \<Longrightarrow> fst (m (st_db s)) = Inr x \<Longrightarrow> P x"
    and found: "\<And>x. P x \<Longrightarrow> stays (engine_step E) (f x)"
  shows "stays (engine_step E) (bindM (stored E m) f)"
proof -
  have "bindM (stored E m) f =
      bindM (attempt (stored E m)) (\<lambda>r. case r of Inl e \<Rightarrow> raise e | Inr x \<Rightarrow> f x)"
    by (auto simp: bindM_def attempt_def raise_def fun_eq_iff split: prod.split sum.split)
  moreover have "stays (engine_step E) \<dots>"
    by (rule stays_query_attempt [OF query result]) (auto intro: found engine.raise)
  ultimately show ?thesis by simp
qed

lemma item_ready_stored:
  assumes "engine_ok E s" and "item_of (st_db s) (env_keyID E, n, i) = Some item"
  shows "item_ready E s item" and "it_NamespaceID item = n" and "it_ItemID item = i"
proof -
  have key: "item_key item = (env_keyID E, n, i)"
    using assms item_of_key by (auto simp: engine_ok_def)
  then show "it_NamespaceID item = n" "it_ItemID item = i" by (simp_all add: item_key_def)
  have "it_KeyID item = env_keyID E" using key by (simp add: item_key_def)
  with assms key show "item_ready E s item"
    by (auto simp: item_ready_def engine_ok_def items_ok_def)
qed

lemma item_ready_stored_key:
  assumes "engine_ok E s" and "item_of (st_db s) (item_key item) = Some item"
    and "it_KeyID item = env_keyID E"
  shows "item_ready E s item"
  using assms item_ready_stored(1) [of E s "it_NamespaceID item" "it_ItemID item" item]
  by (simp add: item_key_def)

lemma item_ready_fresh:
  assumes "item_of (st_db s) (env_keyID E, n, i) = None"
    and "id_derived (env_crypto E) (new_item (env_keyID E) n c y i)"
  shows "item_ready E s (new_item (env_keyID E) n c y i)"
  using assms by (simp add: item_ready_def item_inv_def item_key_def new_item_def)

definition item_known :: "'w env \<Rightarrow> ItemState \<Rightarrow> bool" where
  "item_known E item \<longleftrightarrow>
     it_KeyID item = env_keyID E \<and> item_inv item \<and> id_derived (env_crypto E) item"

lemma item_ready_known: "item_ready E s item \<Longrightarrow> item_known E item"
  by (simp add: item_ready_def item_known_def)

lemma item_ready_missing:
  assumes "item_known E item"
    and "item_of (st_db s) (env_keyID E, it_NamespaceID item, it_ItemID item) = None"
  shows "item_ready E s item"
  using assms by (simp add: item_ready_def item_known_def item_key_def)

lemma stays_ListNamespaceItems:
  assumes "\<And>items. \<forall>i \<in> set items. item_known E i \<Longrightarrow> stays (engine_step E) (f items)"
  shows "stays (engine_step E) (bindM (stored E (ListNamespaceItems (env_keyID E) n)) f)"
proof (rule stays_query_result [OF store_reads_only(6)])
  fix s items
  assume ok: "engine_ok E s" and "fst (ListNamespaceItems (env_keyID E) n (st_db s)) = Inr items"
  then have "\<forall>i \<in> set items. item_of (st_db s) (env_keyID E, n, it_ItemID i) = Some i"
    using ListNamespaceItems_exact [of "st_db s" "env_keyID E" n] by (auto simp: engine_ok_def)
  with ok show "\<forall>i \<in> set items. item_known E i"
    by (blast intro: item_ready_known item_ready_stored)
qed (rule assms)

lemma stays_ListDirtyItems:
  assumes "\<And>items. \<forall>i \<in> set items. item_known E i \<and> it_Dirty i \<Longrightarrow>
      stays (engine_step E) (f items)"
  shows "stays (engine_step E) (bindM (stored E (ListDirtyItems (env_keyID E))) f)"
proof (rule stays_query_result [OF store_reads_only(7)])
  fix s items
  assume ok: "engine_ok E s" and "fst (ListDirtyItems (env_keyID E) (st_db s)) = Inr items"
  then have "\<forall>i \<in> set items.
      item_of (st_db s) (env_keyID E, it_NamespaceID i, it_ItemID i) = Some i \<and> it_Dirty i"
    using ListDirtyItems_exact [of "st_db s" "env_keyID E"] by (auto simp: engine_ok_def)
  with ok show "\<forall>i \<in> set items. item_known E i \<and> it_Dirty i"
    by (blast intro: item_ready_known item_ready_stored)
qed (rule assms)

lemma GetNamespace_key:
  "fst (GetNamespace k n d) = Inr ns \<Longrightarrow> ns_KeyID ns = k \<and> ns_NamespaceID ns = n"
  by (auto simp: GetNamespace_def scan_namespace_def lookup_row_def namespace_pk_def
      split: option.splits dest!: find_SomeD)

lemma stays_GetNamespace:
  assumes "\<And>n. ns_KeyID n = env_keyID E \<Longrightarrow> ns_NamespaceID n = nid \<Longrightarrow>
      stays (engine_step E) (f (Inr n))"
    and "\<And>e. stays (engine_step E) (f (Inl e))"
  shows "stays (engine_step E) (bindM (attempt (stored E (GetNamespace (env_keyID E) nid))) f)"
  by (rule stays_query_attempt [OF store_reads_only(2) GetNamespace_key])
    (auto intro: assms)

lemma returns_GetNamespace:
  "returns (\<lambda>n. ns_KeyID n = k \<and> ns_NamespaceID n = nid) (stored E (GetNamespace k nid))"
proof -
  have "case GetNamespace k nid d of (r, d') \<Rightarrow>
      (case r of Inl e \<Rightarrow> True | Inr n \<Rightarrow> ns_KeyID n = k \<and> ns_NamespaceID n = nid)" for d
    using GetNamespace_key [of k nid d] by (auto split: prod.split sum.split)
  then show ?thesis
    unfolding returns_def by (intro allI wp_stored) auto
qed

lemma loadActiveScope_known:
  assumes "engine_ok E s"
    and "\<And>scope t. outputs_only s t \<Longrightarrow>
      \<forall>(i, item) \<in> set (as_activeItems scope). item_known E item \<Longrightarrow> Q scope t"
    and "\<And>e t. outputs_only s t \<Longrightarrow> X e t"
  shows "wp (loadActiveScope E n) Q X s"
proof (rule wp_loadActiveScope)
  show "\<forall>(k, r) \<in> set (st_collections s). go_collection r"
    using assms(1) by (simp add: engine_ok_def)
next
  fix scope t
  assume t: "outputs_only s t" and scope: "scope_ok E n scope"
  have "item_known E item" if "(i, item) \<in> set (as_activeItems scope)" for i item
  proof -
    from scope have "\<forall>x \<in> set (as_activeItems scope). case x of (i, item) \<Rightarrow>
        \<exists>c k. c \<in> as_scopedCollections scope \<and> go_string c \<and> go_string k \<and>
          item = new_item (env_keyID E) (ns_NamespaceID n) c k i \<and>
          ItemID (env_crypto E) (ns_DEK n) (composeLogicalKey c k) = Inr i"
      by (simp add: scope_ok_def)
    from bspec [OF this that] obtain c k where item: "item = new_item (env_keyID E) (ns_NamespaceID n) c k i"
      and go: "go_string c" "go_string k"
      and "ItemID (env_crypto E) (ns_DEK n) (composeLogicalKey c k) = Inr i"
      by auto
    then have "id_derived (env_crypto E) item"
      by (auto simp: id_derived_def new_item_def)
    then show ?thesis by (simp add: item item_known_def item_inv_new) (simp add: new_item_def)
  qed
  with t show "Q scope t" by (intro assms(2)) auto
qed (rule assms(3))

lemma stays_loadActiveScope_known:
  assumes "\<And>scope. \<forall>(i, item) \<in> set (as_activeItems scope). item_known E item \<Longrightarrow>
      stays (engine_step E) (f scope)"
  shows "stays (engine_step E) (bindM (loadActiveScope E n) f)"
proof (rule staysI)
  fix s
  show "engine_step E s (snd (bindM (loadActiveScope E n) f s))"
  proof (cases "engine_ok E s")
    case False
    then show ?thesis by (simp add: engine_step_def)
  next
    case True
    then have "wp (bindM (loadActiveScope E n) f) (\<lambda>_. engine_step E s) (\<lambda>_. engine_step E s) s"
      unfolding wp_bindM
      by (rule loadActiveScope_known)
        (auto simp: wp_snd intro: engine_step_trans engine_step_outputs staysD [OF assms])
    then show ?thesis by (simp add: wp_snd)
  qed
qed

section \<open>Authentication\<close>

lemmas engine_outputs [engine_calls] = calls [THEN stays_engine_outputs]

lemma stays_snapshot:
  assumes "\<And>state. id_KeyID state = env_keyID E \<Longrightarrow> stays (engine_step E) (f state)"
  shows "stays (engine_step E) (bindM identityStateSnapshot f)"
proof (rule staysI)
  fix s
  have "bindM identityStateSnapshot f s = f (st_identity s) s"
    by (simp add: bindM_def identityStateSnapshot_def reads_def)
  moreover have "engine_step E s (snd (f (st_identity s) s))" if "engine_ok E s"
    using assms that by (simp add: engine_ok_def stays_def)
  ultimately show "engine_step E s (snd (bindM identityStateSnapshot f s))"
    by (auto simp: engine_step_def)
qed

lemma stays_commit_identity:
  assumes "id_KeyID i = env_keyID E"
  shows "stays (engine_step E)
    (seqM (store_SaveIdentity E i) (writes (\<lambda>s. s\<lparr>st_identity := i\<rparr>)))"
proof (rule staysI)
  fix s
  have "wp (store_SaveIdentity E i)
      (\<lambda>_. wp (writes (\<lambda>s. s\<lparr>st_identity := i\<rparr>)) (\<lambda>_. engine_step E s) (\<lambda>_. engine_step E s))
      (\<lambda>_. engine_step E s) s"
  proof (rule wp_store_SaveIdentity)
    fix t now d
    assume "outputs_only s t" and save: "SaveIdentity now i (st_db s) = (Inr (), d)"
    then have "engine_step E s (t\<lparr>st_db := d, st_identity := i\<rparr>)"
      using SaveIdentity_frame [OF assms save] db_wf_SaveIdentity [of "st_db s" now i] assms
        SaveIdentity_session [OF assms save]
      by (intro engine_step_db(2)) (auto simp: engine_ok_def)
    then show "wp (writes (\<lambda>s. s\<lparr>st_identity := i\<rparr>)) (\<lambda>_. engine_step E s) (\<lambda>_. engine_step E s)
        (t\<lparr>st_db := d\<rparr>)"
      by (simp add: wp)
  qed (rule engine_step_outputs)
  then show "engine_step E s (snd (seqM (store_SaveIdentity E i)
      (writes (\<lambda>s. s\<lparr>st_identity := i\<rparr>)) s))"
    by (simp flip: wp_snd add: wp)
qed

lemma stays_saveIdentityState [engine_calls]:
  assumes "id_KeyID state = env_keyID E"
  shows "stays (engine_step E) (saveIdentityState E state)"
proof -
  have "stays (engine_step E) (bindM (time_now E) (\<lambda>now.
      seqM (store_SaveIdentity E (i\<lparr>id_UpdatedAt := now\<rparr>))
        (writes (\<lambda>s. s\<lparr>st_identity := i\<lparr>id_UpdatedAt := now\<rparr>\<rparr>))))"
    if "id_KeyID i = env_keyID E" for i
    using that by (intro engine.combinators stays_commit_identity) (simp_all add: engine_calls)
  with assms show ?thesis
    by (auto simp: saveIdentityState_def Let_def bindM_if bindM_assoc intro!: stays_commit_identity)
qed

lemma stays_login [engine_calls]: "stays (engine_step E) (login E)"
  unfolding login_def by (intro engine.combinators engine_calls) simp_all

lemma stays_refresh [engine_calls]: "stays (engine_step E) (refresh E)"
  unfolding refresh_def by (intro stays_snapshot engine.combinators engine_calls) simp_all

lemma stays_login_or_report [engine_calls]: "stays (engine_step E) (login_or_report E t)"
  unfolding login_or_report_def by (intro engine.combinators engine_calls)

lemma stays_ensureAuthenticated [engine_calls]: "stays (engine_step E) (ensureAuthenticated E)"
  unfolding ensureAuthenticated_def
  by (intro stays_snapshot engine.combinators engine.ifM engine_calls)

lemma stays_reauthenticate [engine_calls]:
  "stays (engine_step E) (reauthenticateAfterUnauthorized E token)"
  unfolding reauthenticateAfterUnauthorized_def Let_def
  by (intro stays_snapshot engine.combinators engine.ifM engine_calls) simp_all

lemma stays_runAuthenticated [engine_calls]:
  "stays (engine_step E) fn \<Longrightarrow> stays (engine_step E) (runAuthenticated E fn)"
  unfolding runAuthenticated_def
  by (intro stays_snapshot engine.combinators engine.ifM engine_calls)

lemma stays_RevokeAllTokens [engine_calls]: "stays (engine_step E) (RevokeAllTokens E)"
  unfolding RevokeAllTokens_def Let_def
  by (intro stays_snapshot engine.combinators engine_calls) simp_all

end
