(* ===== verification/Remote_Apply.thy ===== *)
theory Remote_Apply
  imports Engine_Step
begin

text \<open>
  Applying one remote value to local state (\<open>src/bitboxsync/engine_items.go\<close>): reading and
  writing the application's value, the clean, merged and conflicting outcomes, the download
  and authentication of an item, and the two ways it is called. Both callers hold the lock
  of the logical key: what they read of the item in the store is still there when they
  write, while the application and other clients may act at every outside call.
\<close>

section \<open>The application's value\<close>

definition itemCurrentValue :: "ItemState \<Rightarrow> ('w st, bytes) eff" where
  "itemCurrentValue item =
     bindM (collectionRegistration (it_NamespaceID item) (it_Collection item)) (\<lambda>collection.
     case collection of
       None \<Rightarrow> raise (Wrapf ''for collection'' (Sentinel ErrNoBackend))
     | Some c \<Rightarrow> outside (rc_get c (it_Key item)))"

definition setItemCurrentValueIfCurrent ::
  "ItemState \<Rightarrow> bytes \<Rightarrow> bool \<Rightarrow> bytes \<Rightarrow> ('w st, bool) eff" where
  "setItemCurrentValueIfCurrent item current currentFound val =
     bindM (collectionRegistration (it_NamespaceID item) (it_Collection item)) (\<lambda>collection.
     case collection of
       None \<Rightarrow> raise (Wrapf ''for collection'' (Sentinel ErrNoBackend))
     | Some c \<Rightarrow> outside (rc_setIfCurrent c (it_Key item) current currentFound val))"

section \<open>Outcomes\<close>

definition keepDirtyAfterValueRace :: "'w env \<Rightarrow> ItemState \<Rightarrow> ('w st, unit) eff" where
  "keepDirtyAfterValueRace E item =
     bindM (time_now E) (\<lambda>now.
     let item = markItemDirty now item
     in seqM (store_SaveItem E item) (emitItem E item EventItemQueued))"

definition applyCleanRemoteValue ::
  "'w env \<Rightarrow> ItemState \<Rightarrow> u64 \<Rightarrow> bytes \<Rightarrow> bytes \<Rightarrow> bool \<Rightarrow> ('w st, unit) eff" where
  "applyCleanRemoteValue E item remoteVersion remoteValue currentValue currentFound =
     bindM (setItemCurrentValueIfCurrent item currentValue currentFound remoteValue) (\<lambda>replaced.
     if \<not> replaced then keepDirtyAfterValueRace E item
     else
       bindM (time_now E) (\<lambda>now.
       let item = markItemClean now item remoteVersion remoteValue
       in seqM (store_SaveItem E item)
          (seqM (emitItem E item EventItemChanged) (emitItem E item EventItemDownloaded))))"

definition saveApplied :: "'w env \<Rightarrow> ItemState \<Rightarrow> ('w st, unit) eff" where
  "saveApplied E item =
     seqM (store_SaveItem E item)
       (emitItem E item (if it_Conflict item then EventConflictDetected else EventItemChanged))"

text \<open>The part of \<open>applyRemoteValueLocked\<close> that has a local value to protect.\<close>

definition mergeRemoteValue ::
  "'w env \<Rightarrow> NamespaceState \<Rightarrow> ItemState \<Rightarrow> u64 \<Rightarrow> bytes \<Rightarrow> bytes \<Rightarrow> ('w st, unit) eff" where
  "mergeRemoteValue E namespaceState item remoteVersion remoteValue localValue =
     (if localValue = remoteValue
      then applyCleanRemoteValue E item remoteVersion remoteValue localValue True
      else
        bindM (applyMerge (ns_NamespaceID namespaceState) (it_Collection item) (it_Key item)
          (if hasMergeBase item then Some (it_BaseValue item) else None) localValue remoteValue)
          (\<lambda>(mergedValue, resolved).
        if resolved then
          bindM (setItemCurrentValueIfCurrent item localValue True mergedValue) (\<lambda>replaced.
          if \<not> replaced then keepDirtyAfterValueRace E item
          else
            bindM (time_now E) (\<lambda>now.
            saveApplied E
              (if mergedValue = remoteValue
               then markItemClean now item remoteVersion remoteValue
               else markItemDirtyWithBase now item remoteVersion remoteValue)))
        else
          bindM (time_now E) (\<lambda>now.
          saveApplied E (markItemConflict now item remoteVersion remoteValue))))"

definition applyRemoteValueLocked ::
  "'w env \<Rightarrow> NamespaceState \<Rightarrow> ItemState \<Rightarrow> u64 \<Rightarrow> bytes \<Rightarrow> ('w st, unit) eff" where
  "applyRemoteValueLocked E namespaceState item remoteVersion remoteValue =
     (if it_Conflict item then
        bindM (time_now E) (\<lambda>now.
        let item = markItemConflict now item remoteVersion remoteValue
        in seqM (store_SaveItem E item) (emitItem E item EventConflictDetected))
      else if \<not> it_Dirty item then
        bindM (attempt (itemCurrentValue item)) (\<lambda>r.
        case r of
          Inr localValue \<Rightarrow>
            if hasMergeBase item \<and> localValue = it_BaseValue item
            then applyCleanRemoteValue E item remoteVersion remoteValue localValue True
            else
              bindM (time_now E) (\<lambda>now.
              mergeRemoteValue E namespaceState (markItemDirty now item) remoteVersion
                remoteValue localValue)
        | Inl e \<Rightarrow>
            if errors_is ErrNotFound e
            then applyCleanRemoteValue E item remoteVersion remoteValue [] False
            else raise e)
      else
        bindM (itemCurrentValue item) (\<lambda>localValue.
        mergeRemoteValue E namespaceState item remoteVersion remoteValue localValue))"

section \<open>Downloading an item\<close>

definition decryptRemoteItem ::
  "'w env \<Rightarrow> NamespaceState \<Rightarrow> string \<Rightarrow> GetItemResponse \<Rightarrow> err + bytes" where
  "decryptRemoteItem E namespaceState itemID resp =
     bindR (DecodeBase64Exact ''nonce'' (gir_Nonce resp) ItemNonceLength) (\<lambda>nonce.
     bindR (DecodeBase64 ''aad'' (gir_AAD resp)) (\<lambda>aad.
     bindR (DecodeBase64 ''ciphertext'' (gir_Ciphertext resp)) (\<lambda>ciphertext.
     bindR (VerifyAAD (ns_NamespaceID namespaceState) itemID (gir_Version resp) aad) (\<lambda>_.
     DecryptItem (env_crypto E) (ns_DEK namespaceState) nonce aad ciphertext))))"

definition rollback :: "string \<Rightarrow> err" where
  "rollback what = Wrapf (''for namespace '' @ what) (Sentinel ErrRollback)"

definition fetchAndApplyRemoteItem ::
  "'w env \<Rightarrow> NamespaceState \<Rightarrow> ItemState \<Rightarrow> u64 \<Rightarrow> ('w st, unit) eff" where
  "fetchAndApplyRemoteItem E namespaceState item remoteVersion =
     bindM identityStateSnapshot (\<lambda>state.
     bindM (client_GetItem E (id_AccessToken state) (ns_NamespaceID namespaceState)
       (it_ItemID item)) (\<lambda>resp.
     seqM (guardM (it_Version item \<le> gir_Version resp) (rollback ''item''))
     (bindM (lift_result (decryptRemoteItem E namespaceState (it_ItemID item) resp)) (\<lambda>remoteValue.
     seqM (guardM (remoteVersion \<le> gir_Version resp) (rollback ''item''))
     (bindM (attempt (stored E (GetItemByID (env_keyID E) (it_NamespaceID item) (it_ItemID item))))
       (\<lambda>r.
      case r of
        Inr currentItem \<Rightarrow>
          if gir_Version resp \<le> it_Version currentItem then ret ()
          else applyRemoteValueLocked E namespaceState currentItem (gir_Version resp) remoteValue
      | Inl e \<Rightarrow>
          if \<not> errors_is ErrNotFound e then raise e
          else if it_KeyID item = [] then ret ()
          else if gir_Version resp \<le> it_Version item then ret ()
          else applyRemoteValueLocked E namespaceState item (gir_Version resp) remoteValue))))))"

definition fetchAndApplyRemoteItemForConflictLocked ::
  "'w env \<Rightarrow> NamespaceState \<Rightarrow> ItemState \<Rightarrow> ('w st, unit) eff" where
  "fetchAndApplyRemoteItemForConflictLocked E namespaceState item =
     bindM identityStateSnapshot (\<lambda>state.
     bindM (client_GetItem E (id_AccessToken state) (ns_NamespaceID namespaceState)
       (it_ItemID item)) (\<lambda>resp.
     seqM (guardM (it_Version item \<le> gir_Version resp) (rollback ''item''))
     (bindM (lift_result (decryptRemoteItem E namespaceState (it_ItemID item) resp)) (\<lambda>remoteValue.
     applyRemoteValueLocked E namespaceState item (gir_Version resp) remoteValue))))"

section \<open>Every outcome is a step of the engine\<close>

lemma stays_app_value [calls]:
  "stays outputs_only (itemCurrentValue item)"
  "stays outputs_only (setItemCurrentValueIfCurrent item c f v)"
  by (auto simp: itemCurrentValue_def setItemCurrentValueIfCurrent_def
      intro!: outputs.combinators calls)

lemma steps_keepDirty:
  assumes "engine_ok E s \<Longrightarrow> item_ready E s item"
  shows "steps_from E s (keepDirtyAfterValueRace E item)"
  unfolding keepDirtyAfterValueRace_def Let_def
  by (intro steps steps_from_save calls engine_calls) (simp add: assms item_ready_marks)

lemma steps_applyClean:
  assumes "engine_ok E s \<Longrightarrow> item_ready E s item" and "it_Version item \<le> v"
  shows "steps_from E s (applyCleanRemoteValue E item v r c f)"
  unfolding applyCleanRemoteValue_def Let_def
  by (intro steps steps_from_save calls engine_calls engine.seqM steps_keepDirty)
    (simp_all add: assms item_ready_marks)

lemma steps_saveApplied:
  assumes "engine_ok E s \<Longrightarrow> item_ready E s item"
  shows "steps_from E s (saveApplied E item)"
  unfolding saveApplied_def
  by (intro steps_from_save engine_calls) (rule assms)

lemma steps_merge:
  assumes "engine_ok E s \<Longrightarrow> item_ready E s item" and "it_Version item \<le> v"
  shows "steps_from E s (mergeRemoteValue E n item v r l)"
  unfolding mergeRemoteValue_def
  by (intro steps steps_applyClean steps_keepDirty steps_saveApplied calls)
    (simp_all add: assms item_ready_marks)

lemma steps_applyRemote:
  assumes "engine_ok E s \<Longrightarrow> item_ready E s item" and "it_Version item \<le> v"
  shows "steps_from E s (applyRemoteValueLocked E n item v r)"
proof -
  have "it_Version (markItemDirty now item) \<le> v" for now
    using assms(2) by (simp add: mark_defs)
  then show ?thesis
    unfolding applyRemoteValueLocked_def Let_def
    by (intro steps steps_applyClean steps_merge steps_from_save calls engine_calls
        outputs.attempt steps_from_outputs [OF outputs.raise])
      (simp_all add: assms item_ready_marks)
qed

text \<open>
  The item handed to \<open>fetchAndApplyRemoteItem\<close> comes from the store or from the scope.
\<close>

lemma stays_fetchAndApply:
  assumes "item_known E item"
  shows "stays (engine_step E) (fetchAndApplyRemoteItem E n item v)"
proof (rule steps_from_stays)
  fix s
  assume ok: "engine_ok E s"
  have apply_stored: "steps_from E s (applyRemoteValueLocked E n current w r)"
    if "item_of (st_db s) (env_keyID E, it_NamespaceID item, it_ItemID item) = Some current"
      and "\<not> w \<le> it_Version current" for current w r
    using item_ready_stored(1) [OF ok that(1)] that(2)
    by (intro steps_applyRemote) (simp_all add: linorder_not_le)
  have apply_new: "steps_from E s (applyRemoteValueLocked E n item w r)"
    if "item_of (st_db s) (env_keyID E, it_NamespaceID item, it_ItemID item) = None"
      and "\<not> w \<le> it_Version item" for w r
    using item_ready_missing [OF assms that(1)] that(2)
    by (intro steps_applyRemote) (simp_all add: linorder_not_le)
  show "steps_from E s (fetchAndApplyRemoteItem E n item v)"
    unfolding fetchAndApplyRemoteItem_def
    by (intro steps_from_GetItemByID steps calls outputs.combinators)
      (simp_all add: apply_stored apply_new steps_from_outputs outputs.ret outputs.raise
        split: if_split)
qed

lemma steps_fetchForConflict:
  assumes "engine_ok E s \<Longrightarrow> item_ready E s item"
  shows "steps_from E s (fetchAndApplyRemoteItemForConflictLocked E n item)"
proof -
  have "steps_from E s (seqM (guardM (it_Version item \<le> w) e)
      (bindM (lift_result r) (\<lambda>val. applyRemoteValueLocked E n item w val)))" for w e r
  proof (cases "it_Version item \<le> w")
    case True
    then show ?thesis
      by (intro steps_from_seq steps_from_bind steps_applyRemote assms outputs.combinators)
  next
    case False
    then show ?thesis
      by (simp add: guardM_def seqM_def bindM_def raise_def steps_from_def engine_step_outputs)
  qed
  then show ?thesis
    unfolding fetchAndApplyRemoteItemForConflictLocked_def
    by (intro steps_from_bind calls)
qed

end
