(* ===== verification/Namespaces.thy ===== *)
theory Namespaces
  imports Remote_Apply
begin

text \<open>
  Namespaces (\<open>src/bitboxsync/engine_namespace.go\<close>) and the reconciliation of one namespace's
  items (\<open>syncNamespaceItems\<close> of \<open>src/bitboxsync/engine_items.go\<close>): creating and joining,
  the checks that detect a server showing an older state, and the pass over remote items.

  A Go map that is ranged over is the list of its entries in the order of the iteration.
\<close>

section \<open>Reconciling the items of a namespace\<close>

fun classifyLocalItems ::
  "namespaceActiveScope \<Rightarrow> (string \<times> u64) list \<Rightarrow> ItemState list \<Rightarrow>
   err + (string \<times> ItemState) list \<times> string set" where
  "classifyLocalItems scope remote [] = Inr ([], {})"
| "classifyLocalItems scope remote (item # rest) =
     ensureR (case map_of remote (it_ItemID item) of
                Some version \<Rightarrow> it_Version item \<le> version
              | None \<Rightarrow> \<not> it_Version item > 0)
       (rollback ''item'')
     (bindR (classifyLocalItems scope remote rest) (\<lambda>(localByID, inactiveByID).
        if \<not> itemActive scope item then Inr (localByID, insert (it_ItemID item) inactiveByID)
        else Inr ((it_ItemID item, item) # localByID, inactiveByID)))"

definition addActiveItems ::
  "(string \<times> ItemState) list \<Rightarrow> namespaceActiveScope \<Rightarrow> (string \<times> ItemState) list" where
  "addActiveItems localByID scope =
     localByID @ filter (\<lambda>(itemID, item). itemID \<notin> fst ` set localByID) (as_activeItems scope)"

definition reconcileRemoteItem ::
  "'w env \<Rightarrow> NamespaceState \<Rightarrow> (string \<times> ItemState) list \<Rightarrow> string set \<Rightarrow> string \<times> u64 \<Rightarrow>
   ('w st, unit) eff" where
  "reconcileRemoteItem E namespaceState localByID inactiveByID = (\<lambda>(itemID, version).
     case map_of localByID itemID of
       None \<Rightarrow>
         if itemID \<in> inactiveByID then ret ()
         else emit E ((plain_event EventUnknownRemoteItem)
                \<lparr>ev_NamespaceID := ns_NamespaceID namespaceState, ev_ItemID := itemID\<rparr>)
     | Some localItem \<Rightarrow>
         if version \<le> it_Version localItem then ret ()
         else fetchAndApplyRemoteItem E namespaceState localItem version)"

definition syncNamespaceItems ::
  "'w env \<Rightarrow> NamespaceState \<Rightarrow> u64 \<Rightarrow> namespaceActiveScope \<Rightarrow> ('w st, unit) eff" where
  "syncNamespaceItems E namespaceState expectedHead scope =
     bindM identityStateSnapshot (\<lambda>state.
     bindM (client_GetNamespaceItems E (id_AccessToken state) (ns_NamespaceID namespaceState))
       (\<lambda>resp.
     seqM (guardM (ns_NamespaceHead namespaceState \<le> nir_NamespaceHead resp)
       (rollback ''namespace''))
     (seqM (guardM (expectedHead \<le> nir_NamespaceHead resp) (rollback ''namespace''))
     (bindM (stored E (ListNamespaceItems (env_keyID E) (ns_NamespaceID namespaceState)))
       (\<lambda>localItems.
     bindM (lift_result (classifyLocalItems scope (nir_Items resp) localItems))
       (\<lambda>(localByID, inactiveByID).
     seqM (forM (nir_Items resp)
       (reconcileRemoteItem E namespaceState (addActiveItems localByID scope) inactiveByID))
     (bindM (time_now E) (\<lambda>now.
      let head = (if nir_NamespaceHead resp < expectedHead then expectedHead
                  else nir_NamespaceHead resp)
      in seqM (store_SaveNamespace E (namespaceState\<lparr>ns_NamespaceHead := head,
           ns_ActiveScopeHash := as_activeScopeHash scope, ns_UpdatedAt := now\<rparr>))
         (emit E ((plain_event EventNamespaceChanged)
            \<lparr>ev_NamespaceID := ns_NamespaceID namespaceState\<rparr>))))))))))"

lemma classifyLocalItems_local:
  "classifyLocalItems scope remote its = Inr (localByID, inactive) \<Longrightarrow>
     (i, item) \<in> set localByID \<Longrightarrow> item \<in> set its \<and> it_ItemID item = i"
proof (induction scope remote its arbitrary: localByID inactive rule: classifyLocalItems.induct)
  case (1 scope remote)
  then show ?case by simp
next
  case (2 scope remote it rest)
  from 2(2) obtain l u where rest: "classifyLocalItems scope remote rest = Inr (l, u)"
    and "localByID = l \<or> localByID = (it_ItemID it, it) # l"
    by (auto split: if_splits)
  with 2(1) [OF rest] 2(3) show ?case by auto
qed

lemma addActiveItems_known:
  assumes "\<forall>item \<in> set its. item_known E item"
    and "\<forall>(i, item) \<in> set (as_activeItems scope). item_known E item"
    and "classifyLocalItems scope remote its = Inr (localByID, inactive)"
    and "map_of (addActiveItems localByID scope) i = Some item"
  shows "item_known E item"
proof -
  have "(i, item) \<in> set (addActiveItems localByID scope)"
    using assms(4) by (rule map_of_SomeD)
  then have "(i, item) \<in> set localByID \<or> (i, item) \<in> set (as_activeItems scope)"
    by (auto simp: addActiveItems_def)
  with classifyLocalItems_local [OF assms(3)] assms(1,2) show ?thesis by blast
qed

lemma stays_reconcileRemoteItem:
  assumes "\<And>i item. map_of local i = Some item \<Longrightarrow> item_known E item"
  shows "stays (engine_step E) (reconcileRemoteItem E n local inactive x)"
proof (cases x)
  case (Pair i v)
  then show ?thesis
    using assms
    by (cases "map_of local i")
      (auto simp: reconcileRemoteItem_def intro!: engine.ret stays_fetchAndApply engine_calls)
qed

lemma stays_classified:
  assumes "\<And>local inactive. classifyLocalItems scope remote its = Inr (local, inactive) \<Longrightarrow>
      stays (engine_step E) (f (local, inactive))"
  shows "stays (engine_step E) (bindM (lift_result (classifyLocalItems scope remote its)) f)"
proof (cases "classifyLocalItems scope remote its")
  case (Inl e)
  then show ?thesis
    by (simp add: stays_def bindM_def lift_result_def engine_step_refl)
next
  case (Inr p)
  with assms show ?thesis
    by (cases p) (simp add: stays_def bindM_def lift_result_def)
qed

lemma stays_syncNamespaceItems:
  assumes "ns_KeyID n = env_keyID E"
    and "\<forall>(i, item) \<in> set (as_activeItems scope). item_known E item"
  shows "stays (engine_step E) (syncNamespaceItems E n head scope)"
proof -
  have loop: "stays (engine_step E) (forM (nir_Items resp)
      (reconcileRemoteItem E n (addActiveItems local scope) inactive))"
    if "\<forall>i \<in> set its. item_known E i"
      and "classifyLocalItems scope (nir_Items resp) its = Inr (local, inactive)"
    for its resp local inactive
    using addActiveItems_known [OF that(1) assms(2) that(2)]
    by (intro engine.forM stays_reconcileRemoteItem)
  show ?thesis
    unfolding syncNamespaceItems_def Let_def
    by (rule stays_snapshot, rule engine.bindM, rule engine_calls, (rule engine.seqM, rule engine.guardM)+,
        rule stays_ListNamespaceItems, rule stays_classified, simp only: prod.case)
      (intro engine.combinators loop engine_calls, assumption+, simp_all add: assms(1))
qed

section \<open>Joining\<close>

definition getNamespaceState :: "'w env \<Rightarrow> string \<Rightarrow> ('w st, NamespaceState) eff" where
  "getNamespaceState E namespaceID = stored E (GetNamespace (env_keyID E) namespaceID)"

definition joinNamespace ::
  "'w env \<Rightarrow> string \<Rightarrow> string \<Rightarrow> ('w st, NamespaceState) eff" where
  "joinNamespace E namespaceID kindHint =
     bindM identityStateSnapshot (\<lambda>state.
     bindM (client_GetWrappedDEK E (id_AccessToken state) namespaceID (env_keyID E)) (\<lambda>wrappedResp.
     bindM (lift_result (DecodeBase64 ''wrappedDek'' (wdr_WrappedDEK wrappedResp))) (\<lambda>wrappedDEK.
     bindM (unwrapNamespaceDEK E namespaceID wrappedDEK) (\<lambda>namespaceDEK.
     bindM (attempt (getNamespaceState E namespaceID)) (\<lambda>r.
     bindM (case r of
              Inr n \<Rightarrow> ret n
            | Inl e \<Rightarrow>
                if errors_is ErrNotFound e
                then ret (new_namespace (env_keyID E) namespaceID kindHint)
                else raise e) (\<lambda>namespaceState.
     let namespaceState = (if ns_Kind namespaceState = []
                           then namespaceState\<lparr>ns_Kind := kindHint\<rparr> else namespaceState)
     in bindM (time_now E) (\<lambda>now.
        let namespaceState = namespaceState\<lparr>ns_DEK := namespaceDEK, ns_UpdatedAt := now\<rparr>
        in seqM (store_SaveNamespace E namespaceState) (ret namespaceState))))))))"

definition ensureNamespaceReady ::
  "'w env \<Rightarrow> string \<Rightarrow> string \<Rightarrow> ('w st, NamespaceState) eff" where
  "ensureNamespaceReady E namespaceID expectedKind =
     bindM (attempt (getNamespaceState E namespaceID)) (\<lambda>r.
     let checkKind = (\<lambda>n. seqM (guardM (expectedKind = [] \<or> ns_Kind n = expectedKind)
                               (Errorf ''namespace has another kind'')) (ret n));
         join = seqM (ensureAuthenticated E)
                  (bindM (joinNamespace E namespaceID expectedKind) checkKind)
     in case r of
          Inr n \<Rightarrow> if ns_DEK n \<noteq> [] then checkKind n else join
        | Inl e \<Rightarrow> if \<not> errors_is ErrNotFound e then raise e else join)"

section \<open>Creating\<close>

text \<open>The handle of a namespace is its ID.\<close>

definition defaultNamespace :: "'w env \<Rightarrow> ('w st, string) eff" where
  "defaultNamespace E =
     bindM identityStateSnapshot (\<lambda>state.
     if id_DefaultNamespaceID state \<noteq> [] then
       bindM (ensureNamespaceReady E (id_DefaultNamespaceID state) NamespaceKindDefault) (\<lambda>_.
       ret (id_DefaultNamespaceID state))
     else
       bindM (RandomNamespaceID E) (\<lambda>namespaceIDRaw.
       bindM (RandomNamespaceDEK E) (\<lambda>namespaceDEK.
       bindM (wrapNamespaceDEKFor E (hex_encode namespaceIDRaw) namespaceDEK
         (ident_WrapPublicKey (env_identity E))) (\<lambda>wrappedDEK.
       bindM (client_EnsureDefaultNamespace E (id_AccessToken state) (hex_encode namespaceIDRaw)
         (EncodeBase64 wrappedDEK)) (\<lambda>resp.
       bindM (if edr_Created resp then ret namespaceDEK
              else
                bindM (lift_result (DecodeBase64 ''wrappedDek'' (edr_WrappedDEK resp)))
                  (\<lambda>serverWrappedDEK.
                unwrapNamespaceDEK E (edr_NamespaceID resp) serverWrappedDEK)) (\<lambda>dek.
       bindM (time_now E) (\<lambda>now.
       seqM (saveIdentityState E (state\<lparr>id_DefaultNamespaceID := edr_NamespaceID resp,
               id_UpdatedAt := now\<rparr>))
       (bindM (time_now E) (\<lambda>now.
        seqM (store_SaveNamespace E
          ((new_namespace (env_keyID E) (edr_NamespaceID resp) (edr_Kind resp))
             \<lparr>ns_DEK := dek, ns_UpdatedAt := now\<rparr>))
        (ret (edr_NamespaceID resp)))))))))))"

definition createSharedNamespace :: "'w env \<Rightarrow> ('w st, string) eff" where
  "createSharedNamespace E =
     bindM identityStateSnapshot (\<lambda>state.
     bindM (RandomNamespaceID E) (\<lambda>namespaceIDRaw.
     bindM (RandomNamespaceDEK E) (\<lambda>namespaceDEK.
     bindM (wrapNamespaceDEKFor E (hex_encode namespaceIDRaw) namespaceDEK
       (ident_WrapPublicKey (env_identity E))) (\<lambda>wrappedDEK.
     bindM (client_CreateSharedNamespace E (id_AccessToken state) (hex_encode namespaceIDRaw)
       (EncodeBase64 wrappedDEK)) (\<lambda>resp.
     bindM (time_now E) (\<lambda>now.
     seqM (store_SaveNamespace E
       ((new_namespace (env_keyID E) (csr_NamespaceID resp) (csr_Kind resp))
          \<lparr>ns_DEK := namespaceDEK, ns_UpdatedAt := now\<rparr>))
     (ret (csr_NamespaceID resp))))))))"

definition DefaultNamespace :: "'w env \<Rightarrow> ('w st, string) eff" where
  "DefaultNamespace E = runAuthenticated E (defaultNamespace E)"

definition CreateSharedNamespace :: "'w env \<Rightarrow> ('w st, string) eff" where
  "CreateSharedNamespace E = runAuthenticated E (createSharedNamespace E)"

definition Namespace :: "'w env \<Rightarrow> string \<Rightarrow> ('w st, string) eff" where
  "Namespace E namespaceID =
     runAuthenticated E (seqM (ensureNamespaceReady E namespaceID []) (ret namespaceID))"

definition JoinNamespace :: "'w env \<Rightarrow> string \<Rightarrow> ('w st, string) eff" where
  "JoinNamespace E namespaceID =
     runAuthenticated E (seqM (joinNamespace E namespaceID []) (ret namespaceID))"

definition Members :: "'w env \<Rightarrow> string \<Rightarrow> ('w st, NamespaceMember list) eff" where
  "Members E namespaceID =
     runAuthenticated E (bindM identityStateSnapshot (\<lambda>state.
       client_GetMembers E (id_AccessToken state) namespaceID))"

definition Login_op :: "'w env \<Rightarrow> ('w st, unit) eff" where
  "Login_op E = seqM (runAuthenticated E (seqM (defaultNamespace E) (ret ()))) signal_login"

section \<open>Reconciling namespaces\<close>

definition validateNamespaceKind :: "string \<Rightarrow> err + unit" where
  "validateNamespaceKind kind =
     ensureR (kind = NamespaceKindDefault \<or> kind = NamespaceKindShared)
       (Errorf ''unsupported namespace kind'') (Inr ())"

text \<open>The first loop of \<open>syncNamespaces\<close>, with the default namespace found so far.\<close>

fun scanRemoteNamespaces ::
  "string \<Rightarrow> NamespaceSummary list \<Rightarrow> string \<Rightarrow> err + string" where
  "scanRemoteNamespaces stateDefault [] remoteDefault = Inr remoteDefault"
| "scanRemoteNamespaces stateDefault (remote # rest) remoteDefault =
     bindR (validateNamespaceKind (sum_Kind remote)) (\<lambda>_.
     ensureR (\<not> (stateDefault \<noteq> [] \<and> sum_NamespaceID remote = stateDefault \<and>
                sum_Kind remote \<noteq> NamespaceKindDefault)) (rollback ''default kind mismatch'')
     (if sum_Kind remote = NamespaceKindDefault
      then ensureR (\<not> (remoteDefault \<noteq> [] \<and> remoteDefault \<noteq> sum_NamespaceID remote))
             (Errorf ''server returned multiple default namespaces'')
             (scanRemoteNamespaces stateDefault rest (sum_NamespaceID remote))
      else scanRemoteNamespaces stateDefault rest remoteDefault))"

definition checkNamespaceList ::
  "string \<Rightarrow> NamespaceSummary list \<Rightarrow> NamespaceState list \<Rightarrow> err + unit" where
  "checkNamespaceList stateDefault remotes localNamespaces =
     bindR (scanRemoteNamespaces stateDefault remotes []) (\<lambda>remoteDefault.
     ensureR (\<not> (stateDefault \<noteq> [] \<and> remoteDefault \<noteq> [] \<and> stateDefault \<noteq> remoteDefault))
       (rollback ''default mismatch'')
     (ensureR (stateDefault \<noteq> [] \<longrightarrow> stateDefault \<in> sum_NamespaceID ` set remotes)
       (rollback ''default disappeared'')
     (ensureR (\<forall>n \<in> set localNamespaces. ns_NamespaceID n \<in> sum_NamespaceID ` set remotes)
       (rollback ''namespace disappeared'') (Inr ()))))"

definition syncRemoteNamespace ::
  "'w env \<Rightarrow> IdentityState \<Rightarrow> NamespaceSummary \<Rightarrow> ('w st, IdentityState) eff" where
  "syncRemoteNamespace E state remote =
     bindM (attempt (getNamespaceState E (sum_NamespaceID remote))) (\<lambda>r.
     bindM (case r of
              Inr n \<Rightarrow> ret n
            | Inl e \<Rightarrow>
                if errors_is ErrNotFound e
                then ret (new_namespace (env_keyID E) (sum_NamespaceID remote) (sum_Kind remote))
                else raise e) (\<lambda>localNamespace.
     seqM (guardM (ns_NamespaceHead localNamespace \<le> sum_NamespaceHead remote)
       (rollback ''namespace''))
     (bindM (if ns_DEK localNamespace = []
             then joinNamespace E (sum_NamespaceID remote) (sum_Kind remote)
             else ret (localNamespace\<lparr>ns_Kind := sum_Kind remote\<rparr>)) (\<lambda>localNamespace.
      bindM (loadActiveScope E localNamespace) (\<lambda>scope.
      seqM (if ns_NamespaceHead localNamespace < sum_NamespaceHead remote \<or>
               as_activeScopeHash scope \<noteq> ns_ActiveScopeHash localNamespace
            then seqM (syncNamespaceItems E localNamespace (sum_NamespaceHead remote) scope)
                   (seqM (getNamespaceState E (sum_NamespaceID remote)) (ret ()))
            else
              bindM (time_now E) (\<lambda>now.
              store_SaveNamespace E (localNamespace
                \<lparr>ns_NamespaceHead := sum_NamespaceHead remote,
                 ns_ActiveScopeHash := as_activeScopeHash scope, ns_UpdatedAt := now\<rparr>)))
      (if sum_Kind remote = NamespaceKindDefault \<and> id_DefaultNamespaceID state = []
       then
         bindM (time_now E) (\<lambda>now.
         let state = state\<lparr>id_DefaultNamespaceID := sum_NamespaceID remote, id_UpdatedAt := now\<rparr>
         in seqM (saveIdentityState E state) (ret state))
       else ret state))))))"

definition syncNamespaces :: "'w env \<Rightarrow> ('w st, unit) eff" where
  "syncNamespaces E =
     bindM identityStateSnapshot (\<lambda>state.
     bindM (client_ListNamespaces E (id_AccessToken state)) (\<lambda>remotes.
     bindM (stored E (Store_Operations.ListNamespaces (env_keyID E))) (\<lambda>localNamespaces.
     seqM (lift_result
       (checkNamespaceList (id_DefaultNamespaceID state) remotes localNamespaces))
     (bindM (foldM (syncRemoteNamespace E) state remotes) (\<lambda>_. ret ())))))"

definition Engine_ListNamespaces :: "'w env \<Rightarrow> ('w st, NamespaceState list) eff" where
  "Engine_ListNamespaces E =
     bindM (runAuthenticated E
       (seqM (syncNamespaces E) (stored E (Store_Operations.ListNamespaces (env_keyID E))))) (\<lambda>nss.
     ret (sort_key (\<lambda>n. (ns_Kind n, ns_NamespaceID n)) nss))"

section \<open>Every operation is a step of the engine\<close>

lemma stays_getNamespaceState [engine_calls]: "stays (engine_step E) (getNamespaceState E nid)"
  by (simp add: getNamespaceState_def engine_calls)

definition own_namespace :: "'w env \<Rightarrow> string \<Rightarrow> NamespaceState \<Rightarrow> bool" where
  "own_namespace E nid n \<longleftrightarrow> ns_KeyID n = env_keyID E \<and> ns_NamespaceID n = nid"

lemma returns_getNamespaceState: "returns (own_namespace E nid) (getNamespaceState E nid)"
  unfolding getNamespaceState_def own_namespace_def by (rule returns_GetNamespace)

lemma own_new_namespace: "own_namespace E nid (new_namespace (env_keyID E) nid k)"
  by (simp add: own_namespace_def new_namespace_def)

text \<open>The stored namespace, or a new one when there is none.\<close>

lemma returns_stored_or_new:
  assumes "\<forall>n. r = Inr n \<longrightarrow> own_namespace E nid n"
  shows "returns (own_namespace E nid)
    (case r of Inr n \<Rightarrow> ret n
     | Inl e \<Rightarrow> if errors_is ErrNotFound e then ret (new_namespace (env_keyID E) nid k)
             else raise e)"
  using assms by (auto simp: own_new_namespace split: sum.split intro: returns_ret returns_raise)

lemma stays_stored_or_new:
  "stays (engine_step E)
    (case r of Inr n \<Rightarrow> ret n
     | Inl e \<Rightarrow> if errors_is ErrNotFound e then ret (new_namespace (env_keyID E) nid k)
             else raise e)"
  by (intro engine.combinators engine.ifM)

lemmas own_bind = stays_bindM_result [OF engine.step_relation_axioms]

lemma stays_joinNamespace [engine_calls]: "stays (engine_step E) (joinNamespace E nid k)"
proof -
  have save: "stays (engine_step E) (bindM (time_now E) (\<lambda>now.
      seqM (store_SaveNamespace E (f now)) (ret (f now))))"
    if "\<And>now. ns_KeyID (f now) = env_keyID E" for f
    using that by (intro engine.combinators engine_calls)
  have found: "returns (\<lambda>r. \<forall>n. r = Inr n \<longrightarrow> own_namespace E nid n)
      (attempt (getNamespaceState E nid))"
    by (intro returns_attempt returns_getNamespaceState)
  show ?thesis
    unfolding joinNamespace_def Let_def
    by (rule engine.bindM, rule engine_calls, rule engine.bindM, rule engine_calls,
        rule engine.bindM, rule engine.lift_result, rule engine.bindM, rule engine_calls,
        rule own_bind [OF _ found], rule engine.attempt, rule engine_calls,
        rule own_bind [OF stays_stored_or_new returns_stored_or_new], assumption, rule save)
      (simp add: own_namespace_def)
qed

lemma returns_joinNamespace: "returns (own_namespace E nid) (joinNamespace E nid k)"
proof -
  have found: "returns (\<lambda>r. \<forall>n. r = Inr n \<longrightarrow> own_namespace E nid n)
      (attempt (getNamespaceState E nid))"
    by (intro returns_attempt returns_getNamespaceState)
  show ?thesis
    unfolding joinNamespace_def Let_def
    by (rule returns_bindM, rule returns_bindM, rule returns_bindM, rule returns_bindM,
        rule returns_bindM_with [OF found],
        rule returns_bindM_with [OF returns_stored_or_new], assumption,
        intro returns_bindM returns_seqM returns_ret)
      (simp add: own_namespace_def)
qed

lemma stays_ensureNamespaceReady [engine_calls]:
  "stays (engine_step E) (ensureNamespaceReady E nid k)"
  unfolding ensureNamespaceReady_def Let_def
  by (intro engine.combinators engine.ifM engine_calls)

lemma returns_ensureNamespaceReady:
  "returns (own_namespace E nid) (ensureNamespaceReady E nid k)"
proof -
  have found: "returns (\<lambda>r. \<forall>n. r = Inr n \<longrightarrow> own_namespace E nid n)
      (attempt (getNamespaceState E nid))"
    by (intro returns_attempt returns_getNamespaceState)
  show ?thesis
    unfolding ensureNamespaceReady_def Let_def
    by (rule returns_bindM_with [OF found])
      (auto intro!: returns_case_sum returns_seqM returns_ret returns_raise
        returns_bindM_with [OF returns_joinNamespace])
qed

lemma stays_defaultNamespace [engine_calls]: "stays (engine_step E) (defaultNamespace E)"
  unfolding defaultNamespace_def
  by (intro stays_snapshot engine.combinators engine.ifM engine_calls)
    (simp_all add: new_namespace_def)

lemma stays_createSharedNamespace [engine_calls]:
  "stays (engine_step E) (createSharedNamespace E)"
  unfolding createSharedNamespace_def
  by (intro engine.combinators engine_calls) (simp_all add: new_namespace_def)

lemma stays_namespace_operations [engine_calls]:
  "stays (engine_step E) (DefaultNamespace E)"
  "stays (engine_step E) (CreateSharedNamespace E)"
  "stays (engine_step E) (Namespace E nid)"
  "stays (engine_step E) (JoinNamespace E nid)"
  "stays (engine_step E) (Members E nid)"
  unfolding DefaultNamespace_def CreateSharedNamespace_def Namespace_def JoinNamespace_def
    Members_def
  by (intro engine.combinators engine_calls)+

lemma stays_signal_login [engine_calls]: "stays (engine_step E) signal_login"
  unfolding signal_login_def
  by (intro engine.seqM; simp add: stays_def writes_def engine_step_def engine_ok_def
      registry_ok_def evolves_def items_evolve_refl others_untouched_def outputs_grow_def)

lemma stays_Login [engine_calls]: "stays (engine_step E) (Login_op E)"
  unfolding Login_op_def by (intro engine.combinators engine_calls)

lemma stays_syncRemoteNamespace:
  assumes "id_KeyID state = env_keyID E"
  shows "stays (engine_step E) (syncRemoteNamespace E state remote)"
proof -
  have found: "returns (\<lambda>r. \<forall>n. r = Inr n \<longrightarrow> own_namespace E nid n)
      (attempt (getNamespaceState E nid))" for nid
    by (intro returns_attempt returns_getNamespaceState)
  have join: "stays (engine_step E) (if ns_DEK n = [] then joinNamespace E nid k
        else ret (n\<lparr>ns_Kind := k\<rparr>))"
      "own_namespace E nid n \<Longrightarrow> returns (own_namespace E nid)
        (if ns_DEK n = [] then joinNamespace E nid k else ret (n\<lparr>ns_Kind := k\<rparr>))" for n nid k
    by (simp_all add: engine_calls engine.ret returns_joinNamespace own_namespace_def returns_ret)
  show ?thesis
    unfolding syncRemoteNamespace_def Let_def
    by (rule own_bind [OF _ found], rule engine.attempt, rule engine_calls,
        rule own_bind [OF stays_stored_or_new returns_stored_or_new], assumption,
        rule engine.seqM, rule engine.guardM, rule own_bind [OF join], assumption,
        rule stays_loadActiveScope_known,
        intro engine.combinators engine.ifM engine_calls stays_syncNamespaceItems)
      (simp_all add: own_namespace_def assms)
qed

lemma returns_syncRemoteNamespace:
  assumes "id_KeyID state = env_keyID E"
  shows "returns (\<lambda>i. id_KeyID i = env_keyID E) (syncRemoteNamespace E state remote)"
  unfolding syncRemoteNamespace_def Let_def
  by (intro returns_bindM returns_seqM returns_if returns_ret) (simp_all add: assms)

lemma stays_syncNamespaces [engine_calls]: "stays (engine_step E) (syncNamespaces E)"
  unfolding syncNamespaces_def
  by (rule stays_snapshot, intro engine.bindM engine.seqM engine.lift_result engine.ret engine_calls
      stays_foldM_result [OF engine.step_relation_axioms, where P = "\<lambda>i. id_KeyID i = env_keyID E"])
    (simp_all add: stays_syncRemoteNamespace returns_syncRemoteNamespace)

lemma stays_Engine_ListNamespaces [engine_calls]:
  "stays (engine_step E) (Engine_ListNamespaces E)"
  unfolding Engine_ListNamespaces_def by (intro engine.combinators engine_calls)

end
