(* ===== verification/Snapshots.thy ===== *)
theory Snapshots
  imports Namespaces
begin

text \<open>
  Local changes (\<open>src/bitboxsync/engine_snapshots.go\<close>): comparing the application's values
  to the last synced ones and queueing what differs; and the resolution of a stored conflict
  by the application (\<open>src/bitboxsync/collection.go\<close>).
\<close>

section \<open>Reconciling snapshots\<close>

text \<open>The item that was queued, if any. The read and the write are under the key's lock.\<close>

definition reconcileSnapshotValue ::
  "'w env \<Rightarrow> 'w registeredCollection \<Rightarrow> string \<Rightarrow> string \<Rightarrow> bytes \<Rightarrow>
   ('w st, ItemState option) eff" where
  "reconcileSnapshotValue E collection key itemID val =
     bindM (attempt (stored E (GetItemByLogicalKey (env_keyID E) (rc_namespaceID collection)
       (rc_name collection) key))) (\<lambda>r.
     bindM (case r of
              Inr item \<Rightarrow> ret item
            | Inl e \<Rightarrow>
                if errors_is ErrNotFound e
                then ret (new_item (env_keyID E) (rc_namespaceID collection) (rc_name collection)
                       key itemID)
                else raise e) (\<lambda>item.
     let item = (if it_ItemID item = [] then item\<lparr>it_ItemID := itemID\<rparr> else item)
     in if it_Conflict item \<or> it_Dirty item then ret None
        else if hasMergeBase item \<and> val = it_BaseValue item then ret None
        else
          bindM (time_now E) (\<lambda>now.
          let item = markItemDirty now item
          in seqM (store_SaveItem E item) (ret (Some item)))))"

definition snapshotKey ::
  "'w env \<Rightarrow> NamespaceState \<Rightarrow> 'w registeredCollection \<Rightarrow> (string \<times> bytes) list \<Rightarrow>
   (string \<times> namespaceActiveScope) list \<Rightarrow> string \<Rightarrow>
   ('w st, (string \<times> namespaceActiveScope) list) eff" where
  "snapshotKey E namespaceState collection vals scopeCache key =
     bindM (lift_result (ItemID (env_crypto E) (ns_DEK namespaceState)
       (composeLogicalKey (rc_name collection) key))) (\<lambda>itemID.
     bindM (case map_of scopeCache (rc_namespaceID collection) of
              Some scope \<Rightarrow> ret (scope, scopeCache)
            | None \<Rightarrow>
                bindM (loadActiveScope E namespaceState) (\<lambda>scope.
                ret (scope, (rc_namespaceID collection, scope) # scopeCache)))
       (\<lambda>(scope, scopeCache).
     if \<not> itemActive scope (new_item [] (rc_namespaceID collection) (rc_name collection) key itemID)
     then ret scopeCache
     else
       bindM (reconcileSnapshotValue E collection key itemID
         (case map_of vals key of None \<Rightarrow> [] | Some v \<Rightarrow> v)) (\<lambda>queued.
       seqM (case queued of None \<Rightarrow> ret () | Some item \<Rightarrow> emitItem E item EventItemQueued)
       (ret scopeCache))))"

definition reconcileLocalSnapshots :: "'w env \<Rightarrow> ('w st, unit) eff" where
  "reconcileLocalSnapshots E =
     bindM registeredCollections (\<lambda>collections.
     bindM (foldM (\<lambda>scopeCache collection.
         bindM (ensureNamespaceReady E (rc_namespaceID collection) []) (\<lambda>namespaceState.
         bindM (outside (rc_snapshot collection)) (\<lambda>vals.
         foldM (snapshotKey E namespaceState collection vals) scopeCache
           (sorted_list_of_set (fst ` set vals)))))
       [] collections) (\<lambda>_. ret ()))"

section \<open>Resolving a conflict\<close>

definition resolveConflict ::
  "'w env \<Rightarrow> string \<Rightarrow> string \<Rightarrow> string \<Rightarrow> (ItemState \<Rightarrow> ('w st, gotime \<Rightarrow> ItemState) eff) \<Rightarrow>
   ('w st, unit) eff" where
  "resolveConflict E namespaceID name key decide =
     bindM (stored E (GetItemByLogicalKey (env_keyID E) namespaceID name key)) (\<lambda>item.
     if \<not> it_Conflict item then ret ()
     else
       bindM (decide item) (\<lambda>resolved.
       bindM (time_now E) (\<lambda>now.
       store_SaveItem E (resolved now))))"

definition ResolveConflictWithValue ::
  "'w env \<Rightarrow> string \<Rightarrow> string \<Rightarrow> ('w, 't) ValueBackend \<Rightarrow> string \<Rightarrow> 't \<Rightarrow> ('w st, unit) eff" where
  "ResolveConflictWithValue E namespaceID name backend key val =
     resolveConflict E namespaceID name key (\<lambda>item.
       seqM (outside (vb_Set backend key val))
       (ret (\<lambda>now. markItemDirty now (clearItemConflict item))))"

definition ResolveConflictPreferLocal ::
  "'w env \<Rightarrow> string \<Rightarrow> string \<Rightarrow> ('w, 't) ValueBackend \<Rightarrow> string \<Rightarrow> ('w st, unit) eff" where
  "ResolveConflictPreferLocal E namespaceID name backend key =
     resolveConflict E namespaceID name key (\<lambda>item.
       bindM (outside (vb_Get backend key)) (\<lambda>_.
       ret (\<lambda>now. markItemDirty now (clearItemConflict item))))"

definition ResolveConflictPreferRemote ::
  "'w env \<Rightarrow> string \<Rightarrow> string \<Rightarrow> 't Codec \<Rightarrow> ('w, 't) ValueBackend \<Rightarrow> string \<Rightarrow>
   ('w st, unit) eff" where
  "ResolveConflictPreferRemote E namespaceID name codec backend key =
     resolveConflict E namespaceID name key (\<lambda>item.
       bindM (lift_result (cd_Decode codec (it_ConflictRemoteValue item))) (\<lambda>val.
       seqM (outside (vb_Set backend key val))
       (ret (\<lambda>now. markItemClean now item (it_ConflictRemoteVersion item)
          (it_ConflictRemoteValue item)))))"

section \<open>Every operation is a step of the engine\<close>

lemma missing_logical_key:
  assumes "engine_ok E s"
    and derived: "id_derived (env_crypto E) (new_item (env_keyID E) n c y i)"
    and missing: "\<And>kk j. item_of (st_db s) kk = Some j \<Longrightarrow> logical_key j \<noteq> (env_keyID E, n, c, y)"
  shows "item_of (st_db s) (env_keyID E, n, i) = None"
proof (rule ccontr)
  assume "item_of (st_db s) (env_keyID E, n, i) \<noteq> None"
  then obtain j where j: "item_of (st_db s) (env_keyID E, n, i) = Some j" by blast
  note stored = item_ready_stored [OF assms(1) j]
  then have "it_Collection j = c \<and> it_Key j = y"
    using derived assms(1)
    by (auto simp: item_ready_def engine_ok_def crypto_ok_def item_ids_identify_def new_item_def)
  then have "logical_key j = (env_keyID E, n, c, y)"
    using stored by (simp add: item_ready_def logical_key_def)
  with missing [OF j] show False by simp
qed

lemma stays_reconcileSnapshotValue:
  assumes "id_derived (env_crypto E)
    (new_item (env_keyID E) (rc_namespaceID c) (rc_name c) key itemID)"
  shows "stays (engine_step E) (reconcileSnapshotValue E c key itemID val)"
proof (rule steps_from_stays)
  fix s
  assume ok: "engine_ok E s"
  let ?new = "new_item (env_keyID E) (rc_namespaceID c) (rc_name c) key itemID"
  let ?rest = "\<lambda>item.
     if it_Conflict item \<or> it_Dirty item then ret None
     else if hasMergeBase item \<and> val = it_BaseValue item then ret None
     else bindM (time_now E) (\<lambda>now.
       seqM (store_SaveItem E (markItemDirty now item)) (ret (Some (markItemDirty now item))))"
  have rest: "steps_from E s (?rest item)" if "item_ready E s item" for item
    using that
    by (intro steps steps_from_save calls engine.ret steps_from_outputs [OF outputs.ret])
      (simp add: item_ready_marks)
  have id: "(if it_ItemID item = [] then item\<lparr>it_ItemID := itemID\<rparr> else item) = item"
    if "item_ready E s item" for item
    using that ok id_derived_nonempty by (auto simp: item_ready_def engine_ok_def)
  have found: "item_ready E s item"
    if "item_of (st_db s) (item_key item) = Some item"
      and "logical_key item = (env_keyID E, rc_namespaceID c, rc_name c, key)" for item
    using that ok by (intro item_ready_stored_key) (simp_all add: logical_key_def)
  have new: "item_ready E s ?new"
    if "\<And>kk i. item_of (st_db s) kk = Some i \<Longrightarrow>
      logical_key i \<noteq> (env_keyID E, rc_namespaceID c, rc_name c, key)"
    using missing_logical_key [OF ok assms that] assms by (rule item_ready_fresh)
  show "steps_from E s (reconcileSnapshotValue E c key itemID val)"
    unfolding reconcileSnapshotValue_def
  proof (rule steps_from_GetItemByLogicalKey, goal_cases)
    case (1 item)
    then have r: "item_ready E s item" by (rule found)
    show ?case using rest [OF r] by (simp only: sum.case bindM_ret Let_def id [OF r])
  next
    case 2
    then have r: "item_ready E s ?new" by (rule new)
    show ?case
      using rest [OF r]
      by (simp only: sum.case bindM_ret Let_def id [OF r] errors_is.simps if_True refl)
  next
    case 3
    show ?case by (simp add: steps_from_outputs outputs.raise)
  qed
qed

lemma stays_snapshotKey:
  assumes "go_string (rc_name c)" and "go_string key"
  shows "stays (engine_step E) (snapshotKey E n c vals cache key)"
proof -
  have "stays (engine_step E) (reconcileSnapshotValue E c key itemID val)"
    if "ItemID (env_crypto E) (ns_DEK n) (composeLogicalKey (rc_name c) key) = Inr itemID"
    for itemID val
    using assms that
    by (intro stays_reconcileSnapshotValue) (auto simp: id_derived_def new_item_def)
  then have body: "stays (engine_step E) (bindM (lift_result (ItemID (env_crypto E) (ns_DEK n)
      (composeLogicalKey (rc_name c) key))) f)"
    if "\<And>itemID. (\<And>val. stays (engine_step E) (reconcileSnapshotValue E c key itemID val)) \<Longrightarrow>
      stays (engine_step E) (f itemID)" for f :: "string \<Rightarrow> ('a st, 'b) eff"
    using that
    by (cases "ItemID (env_crypto E) (ns_DEK n) (composeLogicalKey (rc_name c) key)")
      (simp_all add: bindM_def lift_result_def stays_def engine_step_refl)
  show ?thesis
    unfolding snapshotKey_def
    by (rule body) (intro engine.combinators engine.ifM engine_calls)
qed

lemma returns_snapshot:
  "go_collection c \<Longrightarrow> returns (\<lambda>vals. \<forall>(k, v) \<in> set vals. go_string k) (outside (rc_snapshot c))"
  by (auto simp: returns_def wp go_collection_def split: prod.split sum.split)

lemma stays_registeredCollections:
  assumes "\<And>cs. \<forall>c \<in> set cs. go_collection c \<Longrightarrow> stays (engine_step E) (f cs)"
  shows "stays (engine_step E) (bindM registeredCollections f)"
proof (rule staysI)
  fix s
  have "engine_step E s (snd (f (map snd (sort_key fst (st_collections s))) s))" if "engine_ok E s"
    by (rule staysD, rule assms) (use that in \<open>auto simp: engine_ok_def\<close>)
  then have "engine_step E s (snd (f (map snd (sort_key fst (st_collections s))) s))"
    by (cases "engine_ok E s") (simp_all add: engine_step_def)
  then show "engine_step E s (snd (bindM registeredCollections f s))"
    by (simp add: registeredCollections_def bindM_reads)
qed

lemma stays_reconcileLocalSnapshots [engine_calls]:
  "stays (engine_step E) (reconcileLocalSnapshots E)"
proof -
  have body: "stays (engine_step E) (bindM (outside (rc_snapshot c)) (\<lambda>vals.
      foldM (snapshotKey E n c vals) cache (sorted_list_of_set (fst ` set vals))))"
    if "go_collection c" for c n cache
    using that
    by (intro stays_bindM_result [OF engine.step_relation_axioms _ returns_snapshot]
        engine.foldM stays_snapshotKey engine_calls) (fastforce simp: go_collection_def)+
  show ?thesis
    unfolding reconcileLocalSnapshots_def
    by (rule stays_registeredCollections, rule engine.bindM, rule engine.foldM, rule engine.bindM,
        rule engine_calls) (auto intro: engine.ret body)
qed

lemma steps_from_query_result:
  assumes "\<And>item. item_of (st_db s) (item_key item) = Some item \<Longrightarrow>
      logical_key item = (k, n, c, y) \<Longrightarrow> steps_from E s (f item)"
  shows "steps_from E s (bindM (stored E (GetItemByLogicalKey k n c y)) f)"
proof -
  have "bindM (stored E (GetItemByLogicalKey k n c y)) f =
      bindM (attempt (stored E (GetItemByLogicalKey k n c y)))
        (\<lambda>r. case r of Inl e \<Rightarrow> raise e | Inr x \<Rightarrow> f x)"
    by (auto simp: bindM_def attempt_def raise_def fun_eq_iff split: prod.split sum.split)
  moreover have "steps_from E s \<dots>"
    by (rule steps_from_GetItemByLogicalKey)
      (simp_all add: assms steps_from_outputs outputs.raise)
  ultimately show ?thesis by simp
qed

lemma stays_resolveConflict:
  assumes "\<And>item. stays outputs_only (decide item)"
    and "\<And>item s. item_ready E s item \<Longrightarrow> it_Conflict item \<Longrightarrow>
      returns (\<lambda>r. \<forall>now. item_ready E s (r now)) (decide item)"
  shows "stays (engine_step E) (resolveConflict E n name key decide)"
proof (rule steps_from_stays)
  fix s
  assume ok: "engine_ok E s"
  have "steps_from E s (bindM (decide item) (\<lambda>r. bindM (time_now E) (\<lambda>now.
      store_SaveItem E (r now))))"
    if "item_ready E s item" and "it_Conflict item" for item
  proof (rule steps_from_bind_result [OF assms(1) assms(2) [OF that]])
    fix r :: "gotime \<Rightarrow> ItemState"
    assume r: "\<forall>now. item_ready E s (r now)"
    have "steps_from E s (store_SaveItem E (r now))" for now
      unfolding steps_from_wp by (intro allI impI wp_SaveItem_step) (simp_all add: r)
    then show "steps_from E s (bindM (time_now E) (\<lambda>now. store_SaveItem E (r now)))"
      by (intro steps_from_bind calls)
  qed
  moreover have "item_ready E s item"
    if "item_of (st_db s) (item_key item) = Some item"
      and "logical_key item = (env_keyID E, n, name, key)" for item
    using that ok by (intro item_ready_stored_key) (simp_all add: logical_key_def)
  ultimately show "steps_from E s (resolveConflict E n name key decide)"
    unfolding resolveConflict_def
    by (intro steps_from_query_result steps_from_if steps_from_outputs [OF outputs.ret]) simp_all
qed

lemma item_ready_accept_remote:
  assumes "item_ready E s item" and "it_Conflict item"
  shows "item_ready E s (markItemClean now item (it_ConflictRemoteVersion item) r)"
proof -
  have "it_Version item \<le> it_ConflictRemoteVersion item"
    using assms by (simp add: item_ready_def item_inv_def)
  with assms(1) show ?thesis by (rule item_ready_marks(3))
qed

lemma stays_conflict_operations [engine_calls]:
  "stays (engine_step E) (ResolveConflictWithValue E n name b key val)"
  "stays (engine_step E) (ResolveConflictPreferLocal E n name b key)"
  "stays (engine_step E) (ResolveConflictPreferRemote E n name cd b key)"
  unfolding ResolveConflictWithValue_def ResolveConflictPreferLocal_def
    ResolveConflictPreferRemote_def
  by (rule stays_resolveConflict;
      auto intro!: outputs.combinators calls returns_bindM returns_seqM returns_ret
        simp: item_ready_marks item_ready_accept_remote)+

end
