(* ===== verification/Upload.thy ===== *)
theory Upload
  imports Snapshots
begin

text \<open>
  Uploading queued changes (\<open>flushDirtyItems\<close> of \<open>src/bitboxsync/engine_items.go\<close>): one
  upload attempt with its precondition and its encrypted, version-bound body, the handling
  of its outcome, and the loop over dirty items. The per-key body runs under the lock of the
  logical key.
\<close>

definition isPreconditionError :: "err \<Rightarrow> bool" where
  "isPreconditionError e \<longleftrightarrow> api_status e = Some 412 \<or> api_status e = Some 428"

definition validateUploadValueSize :: "ItemState \<Rightarrow> bytes \<Rightarrow> err + unit" where
  "validateUploadValueSize item uploadValue =
     (if length uploadValue > MaxItemCiphertextSize - aead_overhead
      then Inl (Errorf ''dirty item ciphertext too large'') else Inr ())"

definition upload_target :: "ItemState \<Rightarrow> u64" where
  "upload_target item = (if it_Version item > 0 then it_Version item + 1 else 1)"

definition upload_if_match :: "ItemState \<Rightarrow> u64 option" where
  "upload_if_match item = (if it_Version item > 0 then Some (it_Version item) else None)"

definition upload ::
  "'w env \<Rightarrow> string \<Rightarrow> NamespaceState \<Rightarrow> ItemState \<Rightarrow> ('w st, PutItemResponse \<times> bytes) eff" where
  "upload E accessToken namespaceState item =
     bindM (attempt (itemCurrentValue item)) (\<lambda>r.
     case r of
       Inl e \<Rightarrow>
         if errors_is ErrNotFound e
         then raise (PermanentUpload (Wrapf ''dirty item has no current value'' e))
         else raise e
     | Inr uploadValue \<Rightarrow>
         (case validateUploadValueSize item uploadValue of
            Inl e \<Rightarrow> raise (PermanentUpload e)
          | Inr _ \<Rightarrow>
              bindM (rand_bytes E ItemNonceLength) (\<lambda>nonce.
              bindM (lift_result (EncryptItem (env_crypto E) nonce (it_NamespaceID item)
                (it_ItemID item) (upload_target item) (ns_DEK namespaceState) uploadValue))
                (\<lambda>(nonce, aad, ciphertext).
              bindM (client_PutItem E accessToken (it_NamespaceID item) (it_ItemID item)
                \<lparr>piq_Nonce = EncodeBase64 nonce, piq_AAD = EncodeBase64 aad,
                 piq_Ciphertext = EncodeBase64 ciphertext\<rparr> (upload_if_match item)) (\<lambda>resp.
              ret (resp, uploadValue))))))"

definition saveUpload ::
  "'w env \<Rightarrow> NamespaceState \<Rightarrow> ItemState \<Rightarrow> PutItemResponse \<Rightarrow> bytes \<Rightarrow>
   ('w st, NamespaceState) eff" where
  "saveUpload E namespaceState item resp uploadValue =
     bindM (time_now E) (\<lambda>now.
     let item = markItemClean now item (pir_Version resp) uploadValue
     in seqM (store_SaveItem E item)
        (bindM (time_now E) (\<lambda>now.
         let namespaceState = namespaceState
               \<lparr>ns_NamespaceHead := ns_NamespaceHead namespaceState + 1, ns_UpdatedAt := now\<rparr>
         in seqM (store_SaveNamespace E namespaceState)
            (seqM (emitItem E item EventItemUploaded) (ret namespaceState)))))"

definition upload_allowed :: "namespaceActiveScope \<Rightarrow> ItemState \<Rightarrow> bool" where
  "upload_allowed scope item \<longleftrightarrow>
     \<not> (it_Conflict item \<or> \<not> it_Dirty item \<or> \<not> itemActive scope item)"

text \<open>What follows the first precondition failure: fetch, reload, and try once more.\<close>

definition retryUpload ::
  "'w env \<Rightarrow> string \<Rightarrow> namespaceActiveScope \<Rightarrow> NamespaceState \<Rightarrow> ItemState \<Rightarrow>
   ('w st, NamespaceState) eff" where
  "retryUpload E accessToken scope namespaceState item =
     bindM (attempt (stored E (GetItemByID (env_keyID E) (it_NamespaceID item) (it_ItemID item))))
       (\<lambda>r.
     case r of
       Inl e \<Rightarrow> if errors_is ErrNotFound e then ret namespaceState else raise e
     | Inr item \<Rightarrow>
         if \<not> upload_allowed scope item then ret namespaceState
         else
           bindM (attempt (upload E accessToken namespaceState item)) (\<lambda>outcome.
           case outcome of
             Inr (resp, uploadValue) \<Rightarrow> saveUpload E namespaceState item resp uploadValue
           | Inl e \<Rightarrow>
               if is_permanent_upload e then ret namespaceState
               else if isPreconditionError e
               then seqM (fetchAndApplyRemoteItemForConflictLocked E namespaceState item)
                      (ret namespaceState)
               else raise e))"

definition flushItem ::
  "'w env \<Rightarrow> string \<Rightarrow> namespaceActiveScope \<Rightarrow> NamespaceState \<Rightarrow> ItemState \<Rightarrow>
   ('w st, NamespaceState) eff" where
  "flushItem E accessToken scope namespaceState item =
     bindM (attempt (stored E (GetItemByID (env_keyID E) (it_NamespaceID item) (it_ItemID item))))
       (\<lambda>r.
     case r of
       Inl e \<Rightarrow> if errors_is ErrNotFound e then ret namespaceState else raise e
     | Inr item \<Rightarrow>
         if \<not> upload_allowed scope item then ret namespaceState
         else
           bindM (attempt (upload E accessToken namespaceState item)) (\<lambda>outcome.
           case outcome of
             Inr (resp, uploadValue) \<Rightarrow> saveUpload E namespaceState item resp uploadValue
           | Inl e \<Rightarrow>
               if is_permanent_upload e then ret namespaceState
               else if isPreconditionError e
               then seqM (fetchAndApplyRemoteItemForConflictLocked E namespaceState item)
                      (retryUpload E accessToken scope namespaceState item)
               else raise e))"

text \<open>The caches of one flush: namespace states and active scopes by namespace ID.\<close>

type_synonym flush_cache =
  "(string \<times> NamespaceState) list \<times> (string \<times> namespaceActiveScope) list"

definition flushDirtyItem ::
  "'w env \<Rightarrow> string \<Rightarrow> flush_cache \<Rightarrow> ItemState \<Rightarrow> ('w st, flush_cache) eff" where
  "flushDirtyItem E accessToken = (\<lambda>(namespaceCache, scopeCache) item.
     bindM (case map_of namespaceCache (it_NamespaceID item) of
              Some n \<Rightarrow> ret (n, namespaceCache)
            | None \<Rightarrow>
                bindM (ensureNamespaceReady E (it_NamespaceID item) []) (\<lambda>n.
                ret (n, AList.update (it_NamespaceID item) n namespaceCache)))
       (\<lambda>(namespaceState, namespaceCache).
     bindM (case map_of scopeCache (it_NamespaceID item) of
              Some scope \<Rightarrow> ret (scope, scopeCache)
            | None \<Rightarrow>
                bindM (loadActiveScope E namespaceState) (\<lambda>scope.
                ret (scope, AList.update (it_NamespaceID item) scope scopeCache)))
       (\<lambda>(scope, scopeCache).
     if \<not> itemActive scope item then ret (namespaceCache, scopeCache)
     else
       bindM (flushItem E accessToken scope namespaceState item) (\<lambda>namespaceState.
       ret (AList.update (it_NamespaceID item) namespaceState namespaceCache, scopeCache)))))"

definition flushDirtyItems :: "'w env \<Rightarrow> ('w st, unit) eff" where
  "flushDirtyItems E =
     bindM identityStateSnapshot (\<lambda>state.
     bindM (stored E (ListDirtyItems (env_keyID E))) (\<lambda>dirtyItems.
     bindM (foldM (flushDirtyItem E (id_AccessToken state)) ([], [])
       (sort_key it_UpdatedAt dirtyItems)) (\<lambda>_. ret ())))"

section \<open>A full pass\<close>

definition isClosed :: "('w st, bool) eff" where
  "isClosed = reads st_closed"

definition syncPass :: "'w env \<Rightarrow> ('w st, unit) eff" where
  "syncPass E = seqM (reconcileLocalSnapshots E) (seqM (syncNamespaces E) (flushDirtyItems E))"

definition SyncNow :: "'w env \<Rightarrow> ('w st, unit) eff" where
  "SyncNow E =
     bindM isClosed (\<lambda>closed.
     if closed then raise (Sentinel ErrClosed)
     else
       seqM (emit E (plain_event EventSyncStarted))
       (bindM (attempt (runAuthenticated E (syncPass E))) (\<lambda>r.
        case r of
          Inl e \<Rightarrow>
            seqM (emit E ((plain_event EventSyncFailed)\<lparr>ev_Err := Some e\<rparr>)) (raise e)
        | Inr _ \<Rightarrow> emit E (plain_event EventSyncFinished))))"

section \<open>Every operation is a step of the engine\<close>

lemma upload_target_next:
  "upload_target item = (case upload_if_match item of None \<Rightarrow> 0 | Some v \<Rightarrow> v) + 1"
  by (simp add: upload_target_def upload_if_match_def)

lemma EncryptItem_aad:
  "EncryptItem C nonce ns item v dek val = Inr (n, aad, ct) \<Longrightarrow> BuildItemAAD ns item v = Inr aad"
  by (auto simp: EncryptItem_def)

lemma stays_put_encrypted:
  assumes "EncryptItem C nonce (it_NamespaceID item) (it_ItemID item) (upload_target item) dek val =
    Inr (n, aad, ct)"
  shows "stays outputs_only (client_PutItem E tok (it_NamespaceID item) (it_ItemID item)
    \<lparr>piq_Nonce = nonce64, piq_AAD = EncodeBase64 aad, piq_Ciphertext = ct64\<rparr> (upload_if_match item))"
proof (rule stays_PutItem, rule item_write_ok_put)
  show "BuildItemAAD (it_NamespaceID item) (it_ItemID item)
      ((case upload_if_match item of None \<Rightarrow> 0 | Some v \<Rightarrow> v) + 1) = Inr aad"
    using EncryptItem_aad [OF assms] by (simp only: upload_target_next)
qed (auto simp: upload_if_match_def)

lemma stays_encrypted_put:
  "stays outputs_only (bindM (lift_result (EncryptItem C nonce (it_NamespaceID item) (it_ItemID item)
      (upload_target item) dek val)) (\<lambda>(nonce, aad, ciphertext).
     bindM (client_PutItem E tok (it_NamespaceID item) (it_ItemID item)
       \<lparr>piq_Nonce = EncodeBase64 nonce, piq_AAD = EncodeBase64 aad,
        piq_Ciphertext = EncodeBase64 ciphertext\<rparr> (upload_if_match item)) (\<lambda>resp.
     ret (resp, val))))"
proof (rule outputs.bind_result, clarify)
  fix n aad ct
  assume "EncryptItem C nonce (it_NamespaceID item) (it_ItemID item) (upload_target item) dek val =
    Inr (n, aad, ct)"
  then show "stays outputs_only (bindM (client_PutItem E tok (it_NamespaceID item) (it_ItemID item)
       \<lparr>piq_Nonce = EncodeBase64 n, piq_AAD = EncodeBase64 aad,
        piq_Ciphertext = EncodeBase64 ct\<rparr> (upload_if_match item)) (\<lambda>resp. ret (resp, val)))"
    by (intro outputs.bindM outputs.ret stays_put_encrypted)
qed

lemma stays_upload [calls]: "stays outputs_only (upload E tok n item)"
  unfolding upload_def
  by (intro stays_encrypted_put outputs.combinators outputs.ifM calls)

lemma returns_PutItem:
  "returns (\<lambda>resp. pir_Version resp = (case im of None \<Rightarrow> 1 | Some v \<Rightarrow> v + 1))
     (client_PutItem E tok n i req im)"
  unfolding client_PutItem_def validated_def Let_def unexpected_body_def
  by (intro returns_seqM returns_bindM)
    (auto simp: returns_def wp split: api_response.split)

lemma returns_upload:
  "returns (\<lambda>(resp, val). pir_Version resp = upload_target item) (upload E tok n item)"
proof -
  have "returns (\<lambda>resp. pir_Version resp = upload_target item)
      (client_PutItem E tok ns i req (upload_if_match item))" for ns i req
    using returns_PutItem [of "upload_if_match item" E tok ns i req]
    by (cases "0 < it_Version item") (simp_all add: upload_target_def upload_if_match_def)
  then have "returns (\<lambda>(resp, val). pir_Version resp = upload_target item)
      (bindM (client_PutItem E tok ns i req (upload_if_match item)) (\<lambda>resp. ret (resp, val)))"
    for ns i req and val :: bytes
    by (rule returns_bindM_with) (simp add: returns_ret)
  then show ?thesis
    unfolding upload_def
    by (intro returns_bindM [where m = "attempt _"] returns_case_sum returns_if returns_raise
        returns_bindM [where m = "rand_bytes _ _"] returns_bindM [where m = "lift_result _"])
      (simp split: prod.split)
qed

lemma upload_target_greater: "storable (it_Version item) \<Longrightarrow> it_Version item < upload_target item"
  by (simp add: upload_target_def storable_def word_less_def uint_word_ariths)

lemma item_ready_stored_version:
  assumes "engine_ok E s" and "item_of (st_db s) (k, n, i) = Some item"
  shows "it_Version item < upload_target item"
  using assms item_of_key(2) by (auto simp: engine_ok_def item_storable_def intro: upload_target_greater)

lemma steps_saveUpload:
  assumes "engine_ok E s \<Longrightarrow> item_ready E s item" and "it_Version item \<le> pir_Version resp"
    and "ns_KeyID n = env_keyID E"
  shows "steps_from E s (saveUpload E n item resp val)"
  unfolding saveUpload_def Let_def
  by (intro steps steps_from_save calls engine.combinators engine_calls)
    (simp_all add: assms item_ready_marks)

lemma steps_uploaded:
  assumes ok: "engine_ok E s" and stored: "item_of (st_db s) (env_keyID E, ns, i) = Some item"
    and n: "ns_KeyID n = env_keyID E"
    and failed: "\<And>e. steps_from E s (g e)"
  shows "steps_from E s (bindM (attempt (upload E tok n item)) (\<lambda>outcome.
      case outcome of
        Inr (resp, val) \<Rightarrow> saveUpload E n item resp val
      | Inl e \<Rightarrow> g e))"
proof (rule steps_from_bind_result [OF outputs.attempt [OF stays_upload] returns_attempt
      [OF returns_upload]])
  fix outcome :: "err + PutItemResponse \<times> bytes"
  assume outcome: "\<forall>x. outcome = Inr x \<longrightarrow>
      (case x of (resp, val) \<Rightarrow> pir_Version resp = upload_target item)"
  show "steps_from E s (case outcome of
        Inr (resp, val) \<Rightarrow> saveUpload E n item resp val
      | Inl e \<Rightarrow> g e)"
  proof (cases outcome)
    case (Inl e)
    with failed show ?thesis by simp
  next
    case (Inr x)
    obtain resp val where x: "x = (resp, val)" by (cases x)
    with outcome Inr have "it_Version item \<le> pir_Version resp"
      using item_ready_stored_version [OF ok stored] by simp
    then show ?thesis
      using item_ready_stored(1) [OF ok stored] n by (simp add: Inr x steps_saveUpload)
  qed
qed

lemma stays_retryUpload:
  assumes n: "ns_KeyID n = env_keyID E"
  shows "stays (engine_step E) (retryUpload E tok scope n item)"
proof (rule steps_from_stays)
  fix s
  assume ok: "engine_ok E s"
  have failed: "steps_from E s (if is_permanent_upload e then ret n
      else if isPreconditionError e
      then seqM (fetchAndApplyRemoteItemForConflictLocked E n current) (ret n) else raise e)"
    if "item_of (st_db s) (env_keyID E, it_NamespaceID item, it_ItemID item) = Some current"
    for current e
    unfolding seqM_def
    using item_ready_stored(1) [OF ok that]
    by (intro steps_from_if steps_from_outputs [OF outputs.ret] steps_from_outputs [OF outputs.raise]
        steps_from_then steps_fetchForConflict engine.ret) simp
  show "steps_from E s (retryUpload E tok scope n item)"
    unfolding retryUpload_def
    by (rule steps_from_GetItemByID)
      (auto intro!: steps_from_if steps_uploaded [OF ok _ n] failed
        steps_from_outputs [OF outputs.ret] steps_from_outputs [OF outputs.raise])
qed

lemma stays_flushItem:
  assumes n: "ns_KeyID n = env_keyID E"
  shows "stays (engine_step E) (flushItem E tok scope n item)"
proof (rule steps_from_stays)
  fix s
  assume ok: "engine_ok E s"
  have failed: "steps_from E s (if is_permanent_upload e then ret n
      else if isPreconditionError e
      then seqM (fetchAndApplyRemoteItemForConflictLocked E n current)
             (retryUpload E tok scope n current) else raise e)"
    if "item_of (st_db s) (env_keyID E, it_NamespaceID item, it_ItemID item) = Some current"
    for current e
    unfolding seqM_def
    using item_ready_stored(1) [OF ok that]
    by (intro steps_from_if steps_from_outputs [OF outputs.ret] steps_from_outputs [OF outputs.raise]
        steps_from_then steps_fetchForConflict stays_retryUpload n) simp
  show "steps_from E s (flushItem E tok scope n item)"
    unfolding flushItem_def
    by (rule steps_from_GetItemByID)
      (auto intro!: steps_from_if steps_uploaded [OF ok _ n] failed
        steps_from_outputs [OF outputs.ret] steps_from_outputs [OF outputs.raise])
qed

lemma returns_flushItem:
  assumes n: "ns_KeyID n = env_keyID E"
  shows "returns (\<lambda>n'. ns_KeyID n' = env_keyID E) (flushItem E tok scope n item)"
proof -
  have save: "returns (\<lambda>n'. ns_KeyID n' = env_keyID E) (saveUpload E n item resp val)"
    for item resp val
    unfolding saveUpload_def Let_def
    by (intro returns_bindM returns_seqM returns_ret) (simp add: n)
  show ?thesis
    unfolding flushItem_def retryUpload_def
    by (auto intro!: returns_bindM returns_seqM returns_ret returns_raise returns_case_sum
        save n split: prod.split)
qed

definition cache_ok :: "'w env \<Rightarrow> flush_cache \<Rightarrow> bool" where
  "cache_ok E c \<longleftrightarrow> (\<forall>(k, n) \<in> set (fst c). ns_KeyID n = env_keyID E)"

lemma cache_ok_update:
  "cache_ok E (nc, sc) \<Longrightarrow> ns_KeyID n = env_keyID E \<Longrightarrow> cache_ok E (AList.update k n nc, sc')"
  using set_update_subset [of k n nc] by (fastforce simp: cache_ok_def)

lemma stays_flushDirtyItem:
  assumes "cache_ok E cache"
  shows "stays (engine_step E) (flushDirtyItem E tok cache item)"
    and "returns (cache_ok E) (flushDirtyItem E tok cache item)"
proof -
  obtain nc sc where cache: "cache = (nc, sc)" by (cases cache)
  let ?P = "\<lambda>(n, nc'). ns_KeyID n = env_keyID E \<and> (\<forall>sc. cache_ok E (nc', sc))"
  let ?ready = "case map_of nc (it_NamespaceID item) of
      Some n \<Rightarrow> ret (n, nc)
    | None \<Rightarrow> bindM (ensureNamespaceReady E (it_NamespaceID item) [])
        (\<lambda>n. ret (n, AList.update (it_NamespaceID item) n nc))"
  have ready: "stays (engine_step E) ?ready"
    by (intro engine.combinators engine_calls)
  have found: "ns_KeyID n = env_keyID E" if "map_of nc k = Some n" for n k
    using assms map_of_SomeD [OF that] by (auto simp: cache cache_ok_def)
  have result: "returns ?P ?ready"
  proof (cases "map_of nc (it_NamespaceID item)")
    case None
    have "returns ?P (bindM (ensureNamespaceReady E (it_NamespaceID item) [])
        (\<lambda>n. ret (n, AList.update (it_NamespaceID item) n nc)))"
      using assms
      by (intro returns_bindM_with [OF returns_ensureNamespaceReady] returns_ret)
        (auto simp: own_namespace_def cache intro: cache_ok_update)
    with None show ?thesis by simp
  next
    case (Some n)
    with found [OF Some] assms show ?thesis by (simp add: cache cache_ok_def returns_ret)
  qed
  show "stays (engine_step E) (flushDirtyItem E tok cache item)"
    unfolding flushDirtyItem_def cache prod.case
    by (rule own_bind [OF ready result])
      (auto intro!: engine.combinators engine_calls stays_flushItem)
  have flushed: "returns (cache_ok E) (bindM (flushItem E tok scope n item)
      (\<lambda>n'. ret (AList.update k n' nc', sc')))"
    if "ns_KeyID n = env_keyID E" and "\<forall>sc. cache_ok E (nc', sc)" for n nc' sc' scope k
    using that(2)
    by (intro returns_bindM_with [OF returns_flushItem [OF that(1)]] returns_ret)
      (simp add: cache_ok_update)
  show "returns (cache_ok E) (flushDirtyItem E tok cache item)"
    unfolding flushDirtyItem_def cache prod.case
  proof (rule returns_bindM_with [OF result], clarify)
    fix n :: NamespaceState and nc'
    assume "ns_KeyID n = env_keyID E" and "\<forall>sc. cache_ok E (nc', sc)"
    then show "returns (cache_ok E)
      (bindM (case map_of sc (it_NamespaceID item) of
              Some scope \<Rightarrow> ret (scope, sc)
            | None \<Rightarrow>
                bindM (loadActiveScope E n) (\<lambda>scope.
                ret (scope, AList.update (it_NamespaceID item) scope sc)))
       (\<lambda>(scope, scopeCache).
         if \<not> itemActive scope item then ret (nc', scopeCache)
         else bindM (flushItem E tok scope n item) (\<lambda>n'.
           ret (AList.update (it_NamespaceID item) n' nc', scopeCache))))"
      by (intro returns_bindM) (auto simp: flushed intro: returns_ret split: prod.split)
  qed
qed

lemma stays_flushDirtyItems [engine_calls]: "stays (engine_step E) (flushDirtyItems E)"
  unfolding flushDirtyItems_def
  by (rule engine.bindM, rule engine_calls, rule engine.bindM, rule engine_calls, rule engine.bindM,
      rule stays_foldM_result [OF engine.step_relation_axioms, where P = "cache_ok E"])
    (simp_all add: engine.ret stays_flushDirtyItem, simp add: cache_ok_def)

lemma stays_syncPass [engine_calls]: "stays (engine_step E) (syncPass E)"
  unfolding syncPass_def by (intro engine.combinators engine_calls)

lemma stays_SyncNow [engine_calls]: "stays (engine_step E) (SyncNow E)"
proof -
  have "stays (engine_step E) isClosed"
    by (simp add: isClosed_def engine.reads)
  then show ?thesis
    unfolding SyncNow_def by (intro engine.combinators engine.ifM engine_calls)
qed

end
