(* ===== verification/Sync_Loop.thy ===== *)
theory Sync_Loop
  imports Upload
begin

text \<open>
  Background syncing: the polling loop (\<open>src/bitboxsync/engine_run.go\<close>) and the namespace
  watch (\<open>src/bitboxsync/engine_watch.go\<close>). Durations are Go's 64-bit nanosecond counts;
  \<open>int64_wrap\<close> writes out their wrap-around where the code multiplies.

  The loop of \<open>Run\<close> is a step function of what \<open>select\<close> picked, so a run is a list of
  wake-ups; the watch is a step function of the outcome of one long poll.
\<close>

section \<open>Intervals\<close>

definition int64_wrap :: "int \<Rightarrow> int" where
  "int64_wrap x = (x + 2 ^ 63) mod 2 ^ 64 - 2 ^ 63"

definition int64_ok :: "int \<Rightarrow> bool" where
  "int64_ok x \<longleftrightarrow> - (2 ^ 63) \<le> x \<and> x < 2 ^ 63"

lemma int64_wrap_id: "int64_ok x \<Longrightarrow> int64_wrap x = x"
  by (simp add: int64_wrap_def int64_ok_def)

text \<open>The loop body \<open>doublings\<close> times; no iterations for a negative count.\<close>

fun doublingLoop :: "duration \<Rightarrow> nat \<Rightarrow> duration \<Rightarrow> duration" where
  "doublingLoop mx 0 interval = (if interval > mx then mx else interval)"
| "doublingLoop mx (Suc n) interval =
     (if interval \<ge> mx then mx
      else if interval > mx div 2 then mx
      else doublingLoop mx n (int64_wrap (interval * 2)))"

definition cappedDoubledInterval :: "duration \<Rightarrow> duration \<Rightarrow> int \<Rightarrow> duration" where
  "cappedDoubledInterval base mx doublings =
     (if base \<le> 0 then 0
      else doublingLoop (if mx < base then base else mx) (nat doublings) base)"

definition idlePollInterval :: "duration \<Rightarrow> duration \<Rightarrow> int \<Rightarrow> duration" where
  "idlePollInterval base mx idlePolls = cappedDoubledInterval base mx (idlePolls div 3)"

definition backoffPollInterval :: "duration \<Rightarrow> duration \<Rightarrow> int \<Rightarrow> duration" where
  "backoffPollInterval base mx failures =
     (if failures \<le> 0 then base else cappedDoubledInterval base mx failures)"

text \<open>The random offset is an argument, absent when the random source fails.\<close>

definition jitterPollInterval :: "duration \<Rightarrow> int option \<Rightarrow> duration" where
  "jitterPollInterval interval rnd =
     (if interval \<le> 0 then 0
      else
        let jitter = interval div 10
        in if jitter \<le> 0 then interval
           else (case rnd of None \<Rightarrow> interval | Some offset \<Rightarrow> interval - jitter + offset))"

definition randomDuration :: "duration \<Rightarrow> int option \<Rightarrow> duration" where
  "randomDuration mx rnd =
     (if mx \<le> 0 then 0 else (case rnd of None \<Rightarrow> mx div 2 | Some offset \<Rightarrow> offset))"

lemma doublingLoop_min:
  assumes "0 < interval" and "interval \<le> mx" and "int64_ok mx"
  shows "doublingLoop mx n interval = min mx (interval * 2 ^ n)"
  using assms
proof (induction n arbitrary: interval)
  case 0
  then show ?case by simp
next
  case (Suc n)
  have pow: "interval * 2 \<le> interval * 2 ^ Suc n"
  proof -
    have "(1::int) \<le> 2 ^ n" by simp
    then show ?thesis using Suc.prems(1) by simp
  qed
  show ?case
  proof (cases "interval \<ge> mx \<or> interval > mx div 2")
    case True
    then have "mx \<le> interval * 2" using Suc.prems(1) by linarith
    with pow have "mx \<le> interval * 2 ^ Suc n" by linarith
    with True show ?thesis by auto
  next
    case False
    then have le: "interval * 2 \<le> mx" by linarith
    with Suc.prems have "int64_wrap (interval * 2) = interval * 2"
      by (intro int64_wrap_id) (simp add: int64_ok_def)
    with False Suc.IH [of "interval * 2"] Suc.prems le show ?thesis
      by (simp add: mult.assoc)
  qed
qed

lemma cappedDoubledInterval_eq:
  assumes "0 < base" and "base \<le> mx" and "int64_ok mx"
  shows "cappedDoubledInterval base mx n = min mx (base * 2 ^ nat n)"
  using assms by (simp add: cappedDoubledInterval_def doublingLoop_min)

lemma cappedDoubledInterval_bounds:
  assumes "0 < base" and "base \<le> mx" and "int64_ok mx"
  shows "base \<le> cappedDoubledInterval base mx n \<and> cappedDoubledInterval base mx n \<le> mx"
proof -
  have "base * 1 \<le> base * 2 ^ nat n" using assms(1) by (intro mult_left_mono) simp_all
  with assms show ?thesis by (simp add: cappedDoubledInterval_eq)
qed

section \<open>The polling loop\<close>

record run_state =
  rn_interval :: duration
  rn_failures :: int
  rn_idlePolls :: int

definition resetBackoff :: "Config \<Rightarrow> run_state" where
  "resetBackoff cfg = \<lparr>rn_interval = cfg_PollInterval cfg, rn_failures = 0, rn_idlePolls = 0\<rparr>"

definition recordResult ::
  "Config \<Rightarrow> bool \<Rightarrow> bool \<Rightarrow> bool \<Rightarrow> bool \<Rightarrow> run_state \<Rightarrow> run_state" where
  "recordResult cfg idlePolling activity failed resetOnSuccess rs =
     (if failed then
        rs\<lparr>rn_failures := rn_failures rs + 1, rn_idlePolls := 0,
           rn_interval := backoffPollInterval (cfg_PollInterval cfg) (cfg_MaxPollInterval cfg)
             (rn_failures rs + 1)\<rparr>
      else if activity \<or> resetOnSuccess then
        rs\<lparr>rn_failures := 0, rn_idlePolls := 0, rn_interval := cfg_PollInterval cfg\<rparr>
      else if \<not> idlePolling then
        rs\<lparr>rn_failures := 0, rn_idlePolls := 0, rn_interval := cfg_PollInterval cfg\<rparr>
      else
        rs\<lparr>rn_failures := 0, rn_idlePolls := rn_idlePolls rs + 1,
           rn_interval := idlePollInterval (cfg_PollInterval cfg) (cfg_MaxPollInterval cfg)
             (rn_idlePolls rs + 1)\<rparr>)"

definition syncNowWithActivity :: "'w env \<Rightarrow> ('w st, bool \<times> (err + unit)) eff" where
  "syncNowWithActivity E =
     bindM (reads st_activitySeq) (\<lambda>before.
     bindM (attempt (SyncNow E)) (\<lambda>r.
     bindM (reads st_activitySeq) (\<lambda>after_seq.
     ret (after_seq \<noteq> before, r))))"

definition scheduleSync :: "('w st, unit) eff" where
  "scheduleSync = writes (\<lambda>s. s\<lparr>st_wakeSync := True\<rparr>)"

definition SetIdlePolling :: "bool \<Rightarrow> ('w st, unit) eff" where
  "SetIdlePolling idle =
     seqM (writes (\<lambda>s. s\<lparr>st_idlePolling := idle\<rparr>)) scheduleSync"

definition runSync :: "'w env \<Rightarrow> bool \<Rightarrow> run_state \<Rightarrow> ('w st, run_state \<times> (err + unit)) eff" where
  "runSync E resetOnSuccess rs =
     bindM (syncNowWithActivity E) (\<lambda>(activity, r).
     bindM (reads st_idlePolling) (\<lambda>idlePolling.
     ret (recordResult (env_cfg E) idlePolling activity (\<exists>e. r = Inl e) resetOnSuccess rs, r)))"

text \<open>The known heads are a map by namespace ID.\<close>

definition knownNamespaceHeads :: "'w env \<Rightarrow> ('w st, (string \<times> u64) list) eff" where
  "knownNamespaceHeads E =
     bindM (stored E (Store_Operations.ListNamespaces (env_keyID E))) (\<lambda>nss.
     ret (map (\<lambda>n. (ns_NamespaceID n, ns_NamespaceHead n)) nss))"

fun anyNamespaceAhead :: "(string \<times> u64) list \<Rightarrow> NamespaceSummary list \<Rightarrow> err + bool" where
  "anyNamespaceAhead knownHeads [] = Inr False"
| "anyNamespaceAhead knownHeads (n # rest) =
     (case map_of knownHeads (sum_NamespaceID n) of
        None \<Rightarrow> Inr True
      | Some knownHead \<Rightarrow>
          if knownHead < sum_NamespaceHead n then Inr True
          else if knownHead > sum_NamespaceHead n then Inl (rollback ''namespace'')
          else anyNamespaceAhead knownHeads rest)"

definition namespaceWatchNeedsSync :: "'w env \<Rightarrow> NamespaceSummary list \<Rightarrow> ('w st, bool) eff" where
  "namespaceWatchNeedsSync E nss =
     bindM (knownNamespaceHeads E) (\<lambda>knownHeads.
     lift_result (anyNamespaceAhead knownHeads nss))"

text \<open>What the \<open>select\<close> of the loop may pick.\<close>

datatype wake =
    TimerFired
  | WakeSync
  | LoginSucceeded
  | SyncRequest "NamespaceSummary list"
  | ContextDone err
  | EngineClosed

text \<open>
  One round: the new loop state and, for a request of the watch, the answer sent back. The
  loop ends with an error only.
\<close>

definition runRound ::
  "'w env \<Rightarrow> run_state \<Rightarrow> wake \<Rightarrow> ('w st, run_state \<times> (err + unit) option) eff" where
  "runRound E rs w =
     (case w of
        ContextDone e \<Rightarrow> raise e
      | EngineClosed \<Rightarrow> raise (Sentinel ErrClosed)
      | TimerFired \<Rightarrow> bindM (runSync E False rs) (\<lambda>(rs, _). ret (rs, None))
      | WakeSync \<Rightarrow>
          seqM (writes (\<lambda>s. s\<lparr>st_wakeSync := False\<rparr>))
            (bindM (runSync E True rs) (\<lambda>(rs, _). ret (rs, None)))
      | LoginSucceeded \<Rightarrow>
          seqM (writes (\<lambda>s. s\<lparr>st_loginSucceededRun := False\<rparr>))
            (ret (resetBackoff (env_cfg E), None))
      | SyncRequest nss \<Rightarrow>
          if length nss > 0 then
            bindM (attempt (namespaceWatchNeedsSync E nss)) (\<lambda>r.
            case r of
              Inl e \<Rightarrow> ret (rs, Some (Inl e))
            | Inr needsSync \<Rightarrow>
                if \<not> needsSync then ret (rs, Some (Inr ()))
                else bindM (runSync E True rs) (\<lambda>(rs, answer). ret (rs, Some answer)))
          else bindM (runSync E True rs) (\<lambda>(rs, answer). ret (rs, Some answer)))"

definition runLoop :: "'w env \<Rightarrow> run_state \<Rightarrow> wake list \<Rightarrow> ('w st, run_state) eff" where
  "runLoop E = foldM (\<lambda>rs w. bindM (runRound E rs w) (\<lambda>(rs, _). ret rs))"

definition Run :: "'w env \<Rightarrow> wake list \<Rightarrow> ('w st, run_state) eff" where
  "Run E wakes =
     bindM (runSync E False (resetBackoff (env_cfg E))) (\<lambda>(rs, _). runLoop E rs wakes)"

text \<open>The invariant of the loop state: the interval is the one its counters stand for.\<close>

definition run_inv :: "Config \<Rightarrow> run_state \<Rightarrow> bool" where
  "run_inv cfg rs \<longleftrightarrow>
     0 \<le> rn_failures rs \<and> 0 \<le> rn_idlePolls rs \<and>
     (rn_failures rs = 0 \<or> rn_idlePolls rs = 0) \<and>
     rn_interval rs =
       (if 0 < rn_failures rs
        then backoffPollInterval (cfg_PollInterval cfg) (cfg_MaxPollInterval cfg) (rn_failures rs)
        else idlePollInterval (cfg_PollInterval cfg) (cfg_MaxPollInterval cfg) (rn_idlePolls rs))"

definition run_config_ok :: "Config \<Rightarrow> bool" where
  "run_config_ok cfg \<longleftrightarrow> 0 < cfg_PollInterval cfg \<and>
     cfg_PollInterval cfg \<le> cfg_MaxPollInterval cfg \<and> int64_ok (cfg_MaxPollInterval cfg)"

lemma idlePollInterval_quiet:
  "run_config_ok cfg \<Longrightarrow>
     idlePollInterval (cfg_PollInterval cfg) (cfg_MaxPollInterval cfg) 0 = cfg_PollInterval cfg"
  by (simp add: run_config_ok_def idlePollInterval_def cappedDoubledInterval_eq)

lemma run_inv_reset: "run_config_ok cfg \<Longrightarrow> run_inv cfg (resetBackoff cfg)"
  by (simp add: run_inv_def resetBackoff_def idlePollInterval_quiet)

lemma run_inv_record:
  "run_config_ok cfg \<Longrightarrow> run_inv cfg rs \<Longrightarrow> run_inv cfg (recordResult cfg idle act failed reset rs)"
  by (simp add: run_inv_def recordResult_def idlePollInterval_quiet)

lemma run_inv_bounds:
  assumes "run_config_ok cfg" and "run_inv cfg rs"
  shows "cfg_PollInterval cfg \<le> rn_interval rs \<and> rn_interval rs \<le> cfg_MaxPollInterval cfg"
  using assms
  by (simp add: run_inv_def run_config_ok_def backoffPollInterval_def idlePollInterval_def
      cappedDoubledInterval_bounds)

lemma returns_runSync:
  assumes "run_config_ok (env_cfg E)" and "run_inv (env_cfg E) rs"
  shows "returns (\<lambda>(rs', r). run_inv (env_cfg E) rs') (runSync E reset rs)"
  unfolding runSync_def
  by (auto intro!: returns_bindM returns_ret simp: run_inv_record [OF assms] split: prod.split)

lemma returns_runRound:
  assumes cfg: "run_config_ok (env_cfg E)" and rs: "run_inv (env_cfg E) rs"
  shows "returns (\<lambda>(rs', a). run_inv (env_cfg E) rs') (runRound E rs w)"
proof -
  have sync: "returns (\<lambda>(rs', a). run_inv (env_cfg E) rs')
      (bindM (runSync E reset rs) (\<lambda>(rs, r). ret (rs, f r)))"
    for reset and f :: "err + unit \<Rightarrow> (err + unit) option"
    by (rule returns_bindM_with [OF returns_runSync [OF cfg rs]]) (auto intro: returns_ret)
  show ?thesis
    unfolding runRound_def
    using sync [of _ "\<lambda>_. None"] sync [of _ Some] rs run_inv_reset [OF cfg]
    by (cases w) (auto intro!: returns_seqM returns_ret returns_raise returns_case_sum
        returns_bindM [where m = "attempt _"])
qed

lemma returns_runLoop:
  assumes cfg: "run_config_ok (env_cfg E)"
  shows "run_inv (env_cfg E) rs \<Longrightarrow> returns (run_inv (env_cfg E)) (runLoop E rs wakes)"
  unfolding runLoop_def
proof (induction wakes arbitrary: rs)
  case Nil
  then show ?case by (simp add: returns_ret)
next
  case (Cons w wakes)
  have "returns (run_inv (env_cfg E)) (bindM (runRound E rs w) (\<lambda>(rs, _). ret rs))"
    by (rule returns_bindM_with [OF returns_runRound [OF cfg Cons.prems]]) (auto intro: returns_ret)
  then show ?case
    by (simp add: returns_bindM_with Cons.IH)
qed

lemma stays_flags [engine_calls]:
  "stays (engine_step E) (writes (\<lambda>s. s\<lparr>st_wakeSync := b\<rparr>))"
  "stays (engine_step E) (writes (\<lambda>s. s\<lparr>st_loginSucceededRun := b\<rparr>))"
  "stays (engine_step E) (writes (\<lambda>s. s\<lparr>st_loginSucceededWatch := b\<rparr>))"
  by (simp_all add: stays_def writes_def engine_step_def engine_ok_def registry_ok_def
      evolves_def items_evolve_refl others_untouched_def outputs_grow_def)

lemma stays_scheduleSync [engine_calls]: "stays (engine_step E) scheduleSync"
  by (simp add: scheduleSync_def engine_calls)

lemma stays_runSync [engine_calls]: "stays (engine_step E) (runSync E reset rs)"
  unfolding runSync_def syncNowWithActivity_def
  by (intro engine.combinators engine_calls)

lemma stays_needsSync [engine_calls]: "stays (engine_step E) (namespaceWatchNeedsSync E nss)"
  unfolding namespaceWatchNeedsSync_def knownNamespaceHeads_def
  by (intro engine.combinators engine_calls)

lemma stays_runRound [engine_calls]: "stays (engine_step E) (runRound E rs w)"
  unfolding runRound_def
  by (cases w) (auto intro!: engine.combinators engine_calls)

lemma stays_runLoop [engine_calls]: "stays (engine_step E) (runLoop E rs wakes)"
  unfolding runLoop_def by (intro engine.combinators engine_calls)

lemma stays_Run [engine_calls]: "stays (engine_step E) (Run E wakes)"
  unfolding Run_def by (intro engine.combinators engine_calls)

section \<open>The namespace watch\<close>

definition isNamespaceWatchUnsupported :: "err \<Rightarrow> bool" where
  "isNamespaceWatchUnsupported e \<longleftrightarrow> api_status e \<in> {Some 404, Some 405, Some 501}"

text \<open>
  What each \<open>select\<close> of \<open>requestRunSync\<close> and \<open>sleepOrDone\<close> picked is an argument. \<open>serve\<close> is
  the other end of the channel: the loop of \<open>Run\<close> handling the request, and its answer.
\<close>

datatype pick = Proceeds | ContextCancelled err | EngineStopped

definition requestRunSync ::
  "(NamespaceSummary list \<Rightarrow> ('w st, err + unit) eff) \<Rightarrow> pick \<Rightarrow> pick \<Rightarrow> NamespaceSummary list \<Rightarrow>
   ('w st, unit) eff" where
  "requestRunSync serve sending waiting nss =
     (case sending of
        ContextCancelled e \<Rightarrow> raise e
      | EngineStopped \<Rightarrow> raise (Sentinel ErrClosed)
      | Proceeds \<Rightarrow>
          bindM (serve nss) (\<lambda>answer.
          case waiting of
            ContextCancelled e \<Rightarrow> raise e
          | EngineStopped \<Rightarrow> raise (Sentinel ErrClosed)
          | Proceeds \<Rightarrow> lift_result answer))"

datatype sleep_pick = SleepCancelled | SleepEngineClosed | SleepElapsed | SleepLoginSucceeded

text \<open>Whether to go on, and whether a login succeeded; the login signal is consumed.\<close>

definition sleepOrDone :: "sleep_pick \<Rightarrow> ('w st, bool \<times> bool) eff" where
  "sleepOrDone p =
     (case p of
        SleepCancelled \<Rightarrow> ret (False, False)
      | SleepEngineClosed \<Rightarrow> ret (False, False)
      | SleepElapsed \<Rightarrow> ret (True, False)
      | SleepLoginSucceeded \<Rightarrow>
          seqM (writes (\<lambda>s. s\<lparr>st_loginSucceededWatch := False\<rparr>)) (ret (True, True)))"

definition watchNamespacesOnce ::
  "'w env \<Rightarrow> (NamespaceSummary list \<Rightarrow> ('w st, unit) eff) \<Rightarrow> ('w st, bool) eff" where
  "watchNamespacesOnce E request =
     bindM (runAuthenticated E
       (bindM (knownNamespaceHeads E) (\<lambda>knownHeads.
        bindM identityStateSnapshot (\<lambda>state.
        client_WatchNamespaces E (id_AccessToken state) knownHeads)))) (\<lambda>(nss, timedOut).
     if length nss = 0 then
       (if \<not> timedOut
        then raise (Errorf ''namespace watch returned no changes without timing out'')
        else ret True)
     else
       bindM (namespaceWatchNeedsSync E nss) (\<lambda>needsSync.
       if \<not> needsSync then ret False
       else seqM (request nss) (ret False)))"

text \<open>What the loop does after one call, and its new failure count.\<close>

datatype watch_next =
    WatchStops
  | WatchReconnects
  | WatchPausesAfterTimeout
  | WatchBacksOff duration

definition watchDecision :: "Config \<Rightarrow> bool \<Rightarrow> int \<Rightarrow> err + bool \<Rightarrow> watch_next \<times> int" where
  "watchDecision cfg contextDone failures r =
     (case r of
        Inr timedOut \<Rightarrow> (if timedOut then WatchPausesAfterTimeout else WatchReconnects, 0)
      | Inl e \<Rightarrow>
          if contextDone \<or> errors_is ErrClosed e then (WatchStops, failures)
          else if isNamespaceWatchUnsupported e then (WatchStops, failures)
          else (WatchBacksOff (backoffPollInterval (cfg_PollInterval cfg)
                  (cfg_MaxPollInterval cfg) (failures + 1)), failures + 1))"

text \<open>One iteration: the failure count for the next one, or \<open>None\<close> when the watch ends.\<close>

definition watchRound ::
  "'w env \<Rightarrow> (NamespaceSummary list \<Rightarrow> ('w st, unit) eff) \<Rightarrow> bool \<Rightarrow> sleep_pick \<Rightarrow> int \<Rightarrow>
   ('w st, int option) eff" where
  "watchRound E request contextDone sleep failures =
     bindM (attempt (watchNamespacesOnce E request)) (\<lambda>r.
     case watchDecision (env_cfg E) contextDone failures r of
       (WatchStops, _) \<Rightarrow> ret None
     | (WatchReconnects, failures) \<Rightarrow> ret (Some failures)
     | (WatchPausesAfterTimeout, failures) \<Rightarrow>
         bindM (sleepOrDone sleep) (\<lambda>(ok, _). ret (if \<not> ok then None else Some failures))
     | (WatchBacksOff _, failures) \<Rightarrow>
         seqM (emit E ((plain_event EventNamespaceWatchFailed)
                 \<lparr>ev_Err := (case r of Inl e \<Rightarrow> Some e | Inr _ \<Rightarrow> None)\<rparr>))
         (bindM (sleepOrDone sleep) (\<lambda>(ok, loginSucceeded).
          ret (if \<not> ok then None else if loginSucceeded then Some 0 else Some failures))))"

lemma stays_watchNamespacesOnce [engine_calls]:
  "(\<And>nss. stays (engine_step E) (request nss)) \<Longrightarrow>
     stays (engine_step E) (watchNamespacesOnce E request)"
  unfolding watchNamespacesOnce_def knownNamespaceHeads_def
  by (intro engine.combinators engine.ifM engine_calls)

lemma stays_requestRunSync [engine_calls]:
  assumes "\<And>nss. stays (engine_step E) (serve nss)"
  shows "stays (engine_step E) (requestRunSync serve sending waiting nss)"
  unfolding requestRunSync_def
  by (cases sending; cases waiting) (auto intro!: engine.combinators assms)

lemma stays_sleepOrDone [engine_calls]: "stays (engine_step E) (sleepOrDone p)"
  unfolding sleepOrDone_def
  by (cases p) (auto intro!: engine.combinators engine_calls)

lemma stays_watchRound [engine_calls]:
  assumes "\<And>nss. stays (engine_step E) (request nss)"
  shows "stays (engine_step E) (watchRound E request ctx sleep failures)"
proof -
  have "stays (engine_step E) (case p of
       (WatchStops, _) \<Rightarrow> ret None
     | (WatchReconnects, failures) \<Rightarrow> ret (Some failures)
     | (WatchPausesAfterTimeout, failures) \<Rightarrow> bindM (sleepOrDone sleep) (g failures)
     | (WatchBacksOff _, failures) \<Rightarrow> seqM (emit E ev) (bindM (sleepOrDone sleep) (f failures)))"
    if "\<And>n x. stays (engine_step E) (f n x)" "\<And>n x. stays (engine_step E) (g n x)"
    for p ev and f g :: "int \<Rightarrow> bool \<times> bool \<Rightarrow> ('a st, int option) eff"
    using that by (auto intro!: engine.combinators engine_calls split: prod.split watch_next.split)
  from this [of "\<lambda>n (ok, login). ret (if \<not> ok then None else if login then Some 0 else Some n)"
      "\<lambda>n (ok, _). ret (if \<not> ok then None else Some n)"]
  show ?thesis
    unfolding watchRound_def
    by (intro engine.bindM engine.attempt stays_watchNamespacesOnce assms)
      (auto intro: engine.ret split: prod.split)
qed

lemma anyNamespaceAhead_current:
  "anyNamespaceAhead known nss = Inr False \<longleftrightarrow>
     (\<forall>n \<in> set nss. map_of known (sum_NamespaceID n) = Some (sum_NamespaceHead n))"
  by (induction nss) (auto split: option.splits)

end
