(* ===== verification/Go_Url.thy ===== *)
theory Go_Url
  imports Wire_Numbers
begin

text \<open>
  The parts of the Go standard library that invite URIs and server origins are parsed with:
  string cutting and splitting (\<open>strings\<close>), signed decimal numbers (\<open>strconv\<close>), and
  \<open>url.Parse\<close>, \<open>url.ParseQuery\<close>, \<open>URL.EscapedFragment\<close>, \<open>URL.Hostname\<close>, \<open>URL.Port\<close> of
  \<open>net/url\<close> as of Go 1.26, the version of \<open>go.mod\<close>. An IP literal (a host in brackets) is not
  parsed: both callers refuse every such host, so it is refused here. \<open>ForceQuery\<close>, \<open>RawPath\<close>
  and \<open>OmitHost\<close> are not read by the callers and left out, and so is the limit of ten
  thousand query parameters, since both callers refuse more than five.
\<close>

section \<open>Strings\<close>

text \<open>\<open>strings.Cut(s, sep)\<close> for a separator of one byte.\<close>

definition before :: "char \<Rightarrow> string \<Rightarrow> string" where
  "before c s = takeWhile (\<lambda>x. x \<noteq> c) s"

definition after :: "char \<Rightarrow> string \<Rightarrow> string" where
  "after c s = tl (dropWhile (\<lambda>x. x \<noteq> c) s)"

text \<open>\<open>strings.Split\<close>\<close>

fun split_on :: "char \<Rightarrow> string \<Rightarrow> string list" where
  "split_on c [] = [[]]"
| "split_on c (x # xs) =
     (if x = c then [] # split_on c xs
      else case split_on c xs of [] \<Rightarrow> [[x]] | y # ys \<Rightarrow> (x # y) # ys)"

definition has_prefix :: "string \<Rightarrow> string \<Rightarrow> bool" where
  "has_prefix s p \<longleftrightarrow> take (length p) s = p"

definition has_suffix :: "string \<Rightarrow> string \<Rightarrow> bool" where
  "has_suffix s p \<longleftrightarrow> has_prefix (rev s) (rev p)"

definition trim_prefix :: "string \<Rightarrow> string \<Rightarrow> string" where
  "trim_prefix s p = (if has_prefix s p then drop (length p) s else s)"

fun contains_dots :: "string \<Rightarrow> bool" where
  "contains_dots (a # b # s) \<longleftrightarrow> a = CHR ''.'' \<and> b = CHR ''.'' \<or> contains_dots (b # s)"
| "contains_dots s \<longleftrightarrow> False"

definition is_ascii :: "char \<Rightarrow> bool" where
  "is_ascii c \<longleftrightarrow> (of_char c :: nat) < 128"

definition letters :: string where
  "letters = ''ABCDEFGHIJKLMNOPQRSTUVWXYZabcdefghijklmnopqrstuvwxyz''"

definition digits :: string where
  "digits = ''0123456789''"

text \<open>\<open>strconv.FormatInt\<close> and \<open>strconv.ParseInt\<close> in base 10 with 64 bits.\<close>

definition format_int :: "int \<Rightarrow> string" where
  "format_int i = (if i < 0 then CHR ''-'' # dec_of_nat (nat (- i)) else dec_of_nat (nat i))"

definition parse_int64 :: "string \<Rightarrow> err + int" where
  "parse_int64 s =
     (let negative = has_prefix s ''-'';
          unsigned = (if negative \<or> has_prefix s ''+'' then tl s else s)
      in bindR (parse_uint 64 unsigned) (\<lambda>n.
        if \<not> negative \<and> n \<ge> 2 ^ 63 \<or> negative \<and> n > 2 ^ 63
        then Inl (Errorf ''value out of range'')
        else Inr (if negative then - int n else int n)))"

section \<open>Escaping\<close>

datatype url_mode = UrlHost | UrlPath | UrlUser | UrlQuery | UrlFragment

text \<open>The bytes of the host that may stand unescaped, among the ASCII ones.\<close>

definition host_char :: "char \<Rightarrow> bool" where
  "host_char c \<longleftrightarrow> c \<in> set letters \<or> c \<in> set digits \<or>
     c \<in> set ''!$&()*+,;=:[]<>-_.~'' \<or> c = CHR 0x22 \<or> c = CHR 0x27"

fun url_unescape :: "url_mode \<Rightarrow> string \<Rightarrow> err + string" where
  "url_unescape mode [] = Inr []"
| "url_unescape mode (c # rest) =
     (if c = CHR ''%'' then
        (case rest of
           a # b # more \<Rightarrow>
             (case (hex_value a, hex_value b) of
                (Some x, Some y) \<Rightarrow>
                  if mode = UrlHost \<and> x < 8 \<and> [a, b] \<noteq> ''25''
                  then Inl (Errorf ''invalid URL escape'')
                  else bindR (url_unescape mode more) (\<lambda>s. Inr (char_of (16 * x + y) # s))
              | _ \<Rightarrow> Inl (Errorf ''invalid URL escape''))
         | _ \<Rightarrow> Inl (Errorf ''invalid URL escape''))
      else if mode = UrlHost \<and> is_ascii c \<and> \<not> host_char c
      then Inl (Errorf ''invalid character in host name'')
      else bindR (url_unescape mode rest) (\<lambda>s.
        Inr ((if mode = UrlQuery \<and> c = CHR ''+'' then CHR '' '' else c) # s)))"

text \<open>\<open>shouldEscape(c, encodeFragment)\<close>, negated, and \<open>escape\<close> in that mode.\<close>

definition fragment_char :: "char \<Rightarrow> bool" where
  "fragment_char c \<longleftrightarrow> c \<in> set letters \<or> c \<in> set digits \<or> c \<in> set ''-_.~$&+,/:;=?@!()*''"

definition upper_hex_digit :: "nat \<Rightarrow> char" where
  "upper_hex_digit n = ''0123456789ABCDEF'' ! n"

definition escape_fragment :: "string \<Rightarrow> string" where
  "escape_fragment s =
     concat (map (\<lambda>c. if fragment_char c then [c]
       else [CHR ''%'', upper_hex_digit (of_char c div 16), upper_hex_digit (of_char c mod 16)]) s)"

text \<open>\<open>validEncoded(s, encodeFragment)\<close>\<close>

definition valid_encoded_fragment :: "string \<Rightarrow> bool" where
  "valid_encoded_fragment s \<longleftrightarrow>
     list_all (\<lambda>c. fragment_char c \<or> c \<in> set ''[]%'' \<or> c = CHR 0x27) s"

section \<open>URLs\<close>

record url =
  url_Scheme :: string
  url_Opaque :: string
  url_User :: "(string \<times> string option) option"
  url_Host :: string
  url_Path :: string
  url_RawQuery :: string
  url_Fragment :: string
  url_RawFragment :: string

definition empty_url :: url where
  "empty_url = \<lparr>url_Scheme = [], url_Opaque = [], url_User = None, url_Host = [], url_Path = [],
     url_RawQuery = [], url_Fragment = [], url_RawFragment = []\<rparr>"

definition scheme_char :: "char \<Rightarrow> bool" where
  "scheme_char c \<longleftrightarrow> c \<in> set letters \<or> c \<in> set digits \<or> c \<in> set ''+-.''"

text \<open>\<open>getScheme\<close>: the scheme and the rest after the colon, or no scheme.\<close>

definition get_scheme :: "string \<Rightarrow> err + string \<times> string" where
  "get_scheme raw =
     (let scheme = takeWhile scheme_char raw; rest = dropWhile scheme_char raw
      in if scheme \<noteq> [] \<and> hd scheme \<notin> set letters then Inr ([], raw)
         else if has_prefix rest '':'' then
           (if scheme = [] then Inl (Errorf ''missing protocol scheme'') else Inr (scheme, tl rest))
         else Inr ([], raw))"

text \<open>\<open>validOptionalPort\<close>\<close>

definition valid_optional_port :: "string \<Rightarrow> bool" where
  "valid_optional_port port \<longleftrightarrow>
     port = [] \<or> hd port = CHR '':'' \<and> list_all (\<lambda>c. c \<in> set digits) (tl port)"

definition parse_host :: "string \<Rightarrow> err + string" where
  "parse_host host =
     (if CHR ''['' \<in> set host then Inl (Errorf ''invalid IP-literal'')
      else if \<not> valid_optional_port (dropWhile (\<lambda>c. c \<noteq> CHR '':'') host)
      then Inl (Errorf ''invalid port after host'')
      else url_unescape UrlHost host)"

definition userinfo_char :: "char \<Rightarrow> bool" where
  "userinfo_char c \<longleftrightarrow> c \<in> set letters \<or> c \<in> set digits \<or> c \<in> set ''-._:~!$&()*+,;=%@'' \<or>
     c = CHR 0x27"

text \<open>\<open>parseAuthority\<close>: the last at sign separates the user from the host.\<close>

definition parse_authority :: "string \<Rightarrow> err + (string \<times> string option) option \<times> string" where
  "parse_authority authority =
     (if CHR ''@'' \<notin> set authority
      then bindR (parse_host authority) (\<lambda>host. Inr (None, host))
      else
        let host = rev (before CHR ''@'' (rev authority));
            userinfo = rev (after CHR ''@'' (rev authority))
        in bindR (parse_host host) (\<lambda>host.
           ensureR (list_all userinfo_char userinfo) (Errorf ''net/url: invalid userinfo'')
           (if CHR '':'' \<notin> set userinfo
            then bindR (url_unescape UrlUser userinfo) (\<lambda>user. Inr (Some (user, None), host))
            else
              bindR (url_unescape UrlUser (before CHR '':'' userinfo)) (\<lambda>user.
              bindR (url_unescape UrlUser (after CHR '':'' userinfo)) (\<lambda>password.
                Inr (Some (user, Some password), host))))))"

definition parse_hierarchy :: "string \<Rightarrow> string \<Rightarrow> string \<Rightarrow> err + url" where
  "parse_hierarchy scheme query rest =
     (let u = empty_url\<lparr>url_Scheme := scheme, url_RawQuery := query\<rparr>
      in if \<not> has_prefix rest ''/'' \<and> scheme \<noteq> [] then Inr (u\<lparr>url_Opaque := rest\<rparr>)
         else if \<not> has_prefix rest ''/'' \<and> CHR '':'' \<in> set (before CHR ''/'' rest)
         then Inl (Errorf ''first path segment in URL cannot contain colon'')
         else if (scheme \<noteq> [] \<or> \<not> has_prefix rest ''///'') \<and> has_prefix rest ''//'' then
           (let authority = before CHR ''/'' (drop 2 rest);
                path = dropWhile (\<lambda>c. c \<noteq> CHR ''/'') (drop 2 rest)
            in bindR (parse_authority authority) (\<lambda>(user, host).
               bindR (url_unescape UrlPath path) (\<lambda>path.
                 Inr (u\<lparr>url_User := user, url_Host := host, url_Path := path\<rparr>))))
         else bindR (url_unescape UrlPath rest) (\<lambda>path. Inr (u\<lparr>url_Path := path\<rparr>)))"

definition is_control :: "char \<Rightarrow> bool" where
  "is_control c \<longleftrightarrow> (of_char c :: nat) < 32 \<or> c = CHR 0x7F"

definition url_parse :: "string \<Rightarrow> err + url" where
  "url_parse value =
     (let raw = before CHR ''#'' value; fragment = after CHR ''#'' value
      in ensureR (\<not> list_ex is_control raw) (Errorf ''invalid control character in URL'')
         (bindR
           (if raw = ''*'' then Inr (empty_url\<lparr>url_Path := ''*''\<rparr>)
            else
              bindR (get_scheme raw) (\<lambda>(scheme, rest).
                parse_hierarchy (to_lower scheme) (after CHR ''?'' rest) (before CHR ''?'' rest)))
           (\<lambda>u.
           if fragment = [] then Inr u
           else
             bindR (url_unescape UrlFragment fragment) (\<lambda>text.
               Inr (u\<lparr>url_Fragment := text,
                 url_RawFragment := (if fragment = escape_fragment text then [] else fragment)\<rparr>)))))"

definition escaped_fragment :: "url \<Rightarrow> string" where
  "escaped_fragment u =
     (if url_RawFragment u \<noteq> [] \<and> valid_encoded_fragment (url_RawFragment u) \<and>
         url_unescape UrlFragment (url_RawFragment u) = Inr (url_Fragment u)
      then url_RawFragment u
      else escape_fragment (url_Fragment u))"

text \<open>\<open>splitHostPort\<close>: the last colon, if what follows it can be a port. Hosts have no brackets.\<close>

definition split_host_port :: "string \<Rightarrow> string \<times> string" where
  "split_host_port hostPort =
     (let port = rev (before CHR '':'' (rev hostPort))
      in if CHR '':'' \<in> set hostPort \<and> list_all (\<lambda>c. c \<in> set digits) port
         then (rev (after CHR '':'' (rev hostPort)), port)
         else (hostPort, []))"

section \<open>Query strings\<close>

text \<open>
  \<open>url.ParseQuery\<close>: the fields in order; a name may occur more than once. Parsing goes on
  after a malformed field, but the first error is returned.
\<close>

type_synonym url_values = "(string \<times> string) list"

definition parse_field :: "string \<Rightarrow> err + string \<times> string" where
  "parse_field s =
     ensureR (CHR '';'' \<notin> set s) (Errorf ''invalid semicolon separator in query'')
     (bindR (url_unescape UrlQuery (before CHR ''='' s)) (\<lambda>key.
      bindR (url_unescape UrlQuery (after CHR ''='' s)) (\<lambda>value. Inr (key, value))))"

definition parse_query :: "string \<Rightarrow> err + url_values" where
  "parse_query query = mapR parse_field (filter (\<lambda>s. s \<noteq> []) (split_on CHR ''&'' query))"

definition url_get :: "url_values \<Rightarrow> string \<Rightarrow> string list" where
  "url_get vs name = map snd (filter (\<lambda>f. fst f = name) vs)"

definition url_count :: "url_values \<Rightarrow> nat" where
  "url_count vs = length (remdups (map fst vs))"

section \<open>Facts\<close>

lemma before_after:
  assumes "c \<notin> set xs"
  shows "before c (xs @ c # ys) = xs" and "after c (xs @ c # ys) = ys"
    and "before c xs = xs" and "after c xs = []"
proof -
  have neq: "\<And>x. x \<in> set xs \<Longrightarrow> x \<noteq> c" using assms by blast
  show "before c (xs @ c # ys) = xs" "after c (xs @ c # ys) = ys"
    unfolding before_def after_def
    by (subst takeWhile_append2 dropWhile_append2, erule neq, simp)+
  show "before c xs = xs" unfolding before_def by (rule takeWhile_eq_all_conv [THEN iffD2]) (simp add: neq)
  have "dropWhile (\<lambda>x. x \<noteq> c) xs = []" by (rule dropWhile_eq_Nil_conv [THEN iffD2]) (simp add: neq)
  then show "after c xs = []" by (simp only: after_def list.sel)
qed

lemma dropWhile_free: "c \<notin> set s \<Longrightarrow> dropWhile (\<lambda>x. x \<noteq> c) s = []"
  by (induction s) auto

lemma split_on_append:
  assumes "c \<notin> set xs"
  shows "split_on c (xs @ c # ys) = xs # split_on c ys" and "split_on c xs = [xs]"
  using assms by (induction xs) auto

lemma split_on_join: "concat (map (\<lambda>s. s @ [c]) (split_on c xs)) = xs @ [c]"
  by (induction xs) (auto split: list.split)

lemma split_on_free: "s \<in> set (split_on c xs) \<Longrightarrow> c \<notin> set s"
  by (induction xs arbitrary: s) (auto split: if_splits list.splits)

lemma has_prefix_append [simp]: "has_prefix (p @ s) p"
  by (simp add: has_prefix_def)

lemma trim_prefix_append [simp]: "trim_prefix (p @ s) p = s"
  by (simp add: trim_prefix_def)

lemma url_unescape_plain:
  assumes "\<forall>c \<in> set s. c \<noteq> CHR ''%'' \<and> c \<noteq> CHR ''+'' \<and> (mode = UrlHost \<longrightarrow> host_char c)"
  shows "url_unescape mode s = Inr s"
  using assms by (induction s) auto

lemma escape_fragment_plain:
  assumes "\<forall>c \<in> set s. fragment_char c"
  shows "escape_fragment s = s"
  using assms by (induction s) (auto simp: escape_fragment_def)

end
