(* ===== verification/Invite_Tokens.thy ===== *)
theory Invite_Tokens
  imports Signed_Payloads Sync_Types Go_Url
begin

text \<open>
  Server origins and the invite URI a member shares as a QR code (\<open>CanonicalServerOrigin\<close>,
  \<open>ServerOriginHash\<close>, \<open>EncodeNamespaceInviteToken\<close>, \<open>ParseNamespaceInviteToken\<close> and their
  helpers in \<open>src/protocol/crypto.go\<close>). The lemmas characterise canonical origins, show
  that they are fixed points, and that parsing inverts encoding.
\<close>

section \<open>Server origins\<close>

definition MaxServerOriginLength :: nat where "MaxServerOriginLength = 128"

definition isASCII :: "string \<Rightarrow> bool" where
  "isASCII value \<longleftrightarrow> list_all is_ascii value"

definition label_char :: "char \<Rightarrow> bool" where
  "label_char ch \<longleftrightarrow> ch \<in> set ''abcdefghijklmnopqrstuvwxyz'' \<or> ch \<in> set digits \<or> ch = CHR ''-''"

definition label_ok :: "string \<Rightarrow> bool" where
  "label_ok label \<longleftrightarrow>
     \<not> has_prefix label ''-'' \<and> \<not> has_suffix label ''-'' \<and> list_all label_char label"

definition host_syntax_ok :: "string \<Rightarrow> bool" where
  "host_syntax_ok host \<longleftrightarrow>
     \<not> has_prefix host ''.'' \<and> \<not> has_suffix host ''.'' \<and> \<not> contains_dots host \<and>
     list_all label_ok (split_on CHR ''.'' host)"

definition canonical_port :: "string \<Rightarrow> err + string" where
  "canonical_port port =
     (if port = [] then Inr []
      else case parse_uint 16 port of
        Inl _ \<Rightarrow> Inl (Errorf ''server origin port must be canonical'')
      | Inr n \<Rightarrow>
          ensureR (n \<noteq> 0) (Errorf ''server origin port must be canonical'')
          (ensureR (dec_of_nat n = port) (Errorf ''server origin port must be canonical'')
          (Inr (if n = 443 then [] else port))))"

definition CanonicalServerOrigin :: "string \<Rightarrow> err + string" where
  "CanonicalServerOrigin value =
     (case url_parse value of
        Inl e \<Rightarrow> Inl (Wrapf ''parse server origin'' e)
      | Inr parsed \<Rightarrow>
          ensureR (url_Scheme parsed = ''https'') (Errorf ''server origin scheme must be https'')
          (ensureR (url_Host parsed \<noteq> [] \<and> url_User parsed = None \<and> url_Path parsed = [] \<and>
              url_RawQuery parsed = [] \<and> url_Fragment parsed = [])
            (Errorf ''server origin must contain only scheme, host, and optional port'')
          (let (host, port) = split_host_port (url_Host parsed)
           in ensureR (host \<noteq> [] \<and> isASCII host \<and> to_lower host = host)
               (Errorf ''server origin host must be lowercase ASCII'')
             (ensureR (host_syntax_ok host)
               (Errorf ''server origin host must be an IDNA A-label host'')
             (bindR (canonical_port port) (\<lambda>port.
                let canonical = url_Scheme parsed @ ''://'' @ host @
                      (if port \<noteq> [] then '':'' @ port else [])
                in ensureR (length canonical \<le> MaxServerOriginLength)
                     (Errorf ''server origin exceeds maximum bytes'') (Inr canonical)))))))"

definition ServerOriginHash :: "crypto \<Rightarrow> string \<Rightarrow> err + bytes" where
  "ServerOriginHash C origin =
     bindR (CanonicalServerOrigin origin) (\<lambda>canonical.
       ensureR (canonical = origin) (Errorf ''server origin must be canonical'')
         (Inr (sha256 C origin)))"

section \<open>Invite URIs\<close>

definition encodedServerOrigin :: "string \<Rightarrow> string" where
  "encodedServerOrigin canonical = trim_prefix canonical ''https://''"

definition EncodeNamespaceInviteToken :: "NamespaceInviteToken \<Rightarrow> err + string" where
  "EncodeNamespaceInviteToken token =
     ensureR (tok_Version token = NamespaceJoinRequestVersion) (Sentinel ErrUnsupportedVersion)
     (bindR (CanonicalServerOrigin (tok_ServerOrigin token)) (\<lambda>serverOrigin.
      bindR (ValidateNamespaceID (tok_NamespaceID token)) (\<lambda>_.
      bindR (ValidateInviteID (tok_InviteID token)) (\<lambda>_.
      ensureR (tok_ExpiresAt token > 0) (Errorf ''invite expiry must be positive'')
      (bindR (DecodeBase64URLExact ''inviteSecret'' (tok_InviteSecret token) InviteSecretLength) (\<lambda>_.
        Inr (''bitboxsync://join-namespace?v='' @ format_int NamespaceJoinRequestVersion @
             ''&s='' @ encodedServerOrigin serverOrigin @
             ''&n='' @ tok_NamespaceID token @
             ''&i='' @ tok_InviteID token @
             ''&e='' @ format_int (tok_ExpiresAt token) @
             ''#k='' @ tok_InviteSecret token)))))))"

definition rejectEmptyInviteURIComponents :: "string \<Rightarrow> string \<Rightarrow> err + unit" where
  "rejectEmptyInviteURIComponents name raw =
     ensureR (raw \<noteq> []) (Errorf (''namespace invite URI must include '' @ name @ '' fields''))
     (ensureR (list_all (\<lambda>component. component \<noteq> []) (split_on CHR ''&'' raw))
       (Errorf (''namespace invite URI must not contain empty '' @ name @ '' components''))
       (Inr ()))"

definition singleInviteURIValue :: "url_values \<Rightarrow> string \<Rightarrow> string option" where
  "singleInviteURIValue values name =
     (case url_get values name of [item] \<Rightarrow> Some item | _ \<Rightarrow> None)"

definition exactInviteURIFields :: "url_values \<Rightarrow> string list \<Rightarrow> bool" where
  "exactInviteURIFields values names \<longleftrightarrow>
     url_count values = length names \<and>
     list_all (\<lambda>name. singleInviteURIValue values name \<noteq> None) names"

definition single_value :: "url_values \<Rightarrow> string \<Rightarrow> string \<Rightarrow> err + string" where
  "single_value values name what =
     (case singleInviteURIValue values name of
        None \<Rightarrow> Inl (Errorf (''namespace invite URI must include one '' @ what))
      | Some v \<Rightarrow> Inr v)"

definition ParseNamespaceInviteToken :: "string \<Rightarrow> err + NamespaceInviteToken" where
  "ParseNamespaceInviteToken value =
     ensureR (has_prefix value ''bitboxsync:'') (Errorf ''unsupported namespace invite URI'')
     (bindR (map_sum (Wrapf ''parse namespace invite'') (\<lambda>u. u) (url_parse value)) (\<lambda>u.
      ensureR (url_Scheme u = ''bitboxsync'' \<and> url_Host u = ''join-namespace'' \<and> url_Path u = [])
        (Errorf ''unsupported namespace invite URI'')
     (bindR (rejectEmptyInviteURIComponents ''query'' (url_RawQuery u)) (\<lambda>_.
      bindR (map_sum (Wrapf ''parse invite query'') (\<lambda>q. q) (parse_query (url_RawQuery u))) (\<lambda>q.
      ensureR (exactInviteURIFields q [''v'', ''s'', ''n'', ''i'', ''e''])
        (Errorf ''namespace invite URI must use canonical query fields'')
     (bindR (single_value q ''v'' ''version'') (\<lambda>version.
      ensureR (version = format_int NamespaceJoinRequestVersion) (Sentinel ErrUnsupportedVersion)
     (bindR (single_value q ''s'' ''server origin'') (\<lambda>serverValue.
      bindR (CanonicalServerOrigin (''https://'' @ serverValue)) (\<lambda>serverOrigin.
      ensureR (serverValue = encodedServerOrigin serverOrigin)
        (Errorf ''namespace invite URI must use canonical server origin encoding'')
     (bindR (single_value q ''n'' ''namespace id'') (\<lambda>namespaceID.
      bindR (ValidateNamespaceID namespaceID) (\<lambda>_.
      bindR (single_value q ''i'' ''invite id'') (\<lambda>inviteID.
      bindR (ValidateInviteID inviteID) (\<lambda>_.
      bindR (single_value q ''e'' ''expiry'') (\<lambda>expiresValue.
      bindR (map_sum (Wrapf ''parse invite expiry'') (\<lambda>i. i) (parse_int64 expiresValue)) (\<lambda>expiresAt.
      ensureR (expiresAt > 0) (Errorf ''invite expiry must be positive'')
     (ensureR (expiresValue = format_int expiresAt)
        (Errorf ''namespace invite URI must use canonical expiry'')
     (bindR (rejectEmptyInviteURIComponents ''fragment'' (escaped_fragment u)) (\<lambda>_.
      bindR (map_sum (Wrapf ''parse invite fragment'') (\<lambda>q. q) (parse_query (escaped_fragment u)))
        (\<lambda>fragment.
      ensureR (exactInviteURIFields fragment [''k''])
        (Errorf ''namespace invite URI must use canonical fragment fields'')
     (bindR (single_value fragment ''k'' ''invite secret'') (\<lambda>inviteSecret.
      bindR (DecodeBase64URLExact ''inviteSecret'' inviteSecret InviteSecretLength) (\<lambda>_.
        Inr \<lparr>tok_Version = NamespaceJoinRequestVersion, tok_ServerOrigin = serverOrigin,
             tok_NamespaceID = namespaceID, tok_InviteID = inviteID,
             tok_ExpiresAt = expiresAt, tok_InviteSecret = inviteSecret\<rparr>))))))))))))))))))))))))"

section \<open>Canonical origins\<close>

text \<open>The bytes that appear unescaped in hosts, ports, identifiers and secrets.\<close>

definition uri_chars :: string where
  "uri_chars = letters @ digits @ ''-._:''"

definition uri_plain :: "string \<Rightarrow> bool" where
  "uri_plain s \<longleftrightarrow> list_all (\<lambda>c. c \<in> set uri_chars) s"

lemma uri_chars_class:
  "list_all (\<lambda>c. host_char c \<and> fragment_char c \<and> \<not> is_control c \<and> is_ascii c \<and>
     c \<notin> set ''%+#?/;@[&='') uri_chars"
  by code_simp

lemma uri_char:
  assumes "uri_plain s" and "c \<in> set s"
  shows "host_char c" "fragment_char c" "\<not> is_control c" "is_ascii c" "c \<notin> set ''%+#?/;@[&=''"
  using uri_chars_class assms by (auto simp: uri_plain_def list_all_iff)

lemma uri_plain_simps [simp]:
  "uri_plain []" "uri_plain (xs @ ys) \<longleftrightarrow> uri_plain xs \<and> uri_plain ys"
  by (simp_all add: uri_plain_def)

lemma uri_plain_free:
  assumes "uri_plain s" and "c \<in> set ''%+#?/;@[&=''"
  shows "c \<notin> set s"
  using uri_char(5) [OF assms(1)] assms(2) by blast

lemma uri_plain_unescape: "uri_plain s \<Longrightarrow> url_unescape mode s = Inr s"
  by (rule url_unescape_plain) (auto dest: uri_char(1) uri_char(5))

lemma class_plain:
  "list_all label_char s \<Longrightarrow> uri_plain s" "list_all (\<lambda>c. c \<in> set digits) s \<Longrightarrow> uri_plain s"
proof -
  have lower: "set ''abcdefghijklmnopqrstuvwxyz'' \<subseteq> set uri_chars" by code_simp
  have dash: "CHR ''-'' \<in> set uri_chars" by code_simp
  have digits: "set digits \<subseteq> set uri_chars" unfolding uri_chars_def set_append by blast
  have "c \<in> set uri_chars" if "label_char c" for c
    using that unfolding label_char_def by (elim disjE) (use lower dash digits in blast)+
  then show "list_all label_char s \<Longrightarrow> uri_plain s"
    unfolding uri_plain_def list_all_iff by blast
  show "list_all (\<lambda>c. c \<in> set digits) s \<Longrightarrow> uri_plain s"
    using digits unfolding uri_plain_def list_all_iff by blast
qed

lemma parse_host_plain:
  assumes "uri_plain host" and "CHR '':'' \<notin> set host" and "list_all (\<lambda>c. c \<in> set digits) port"
  shows "parse_host host = Inr host" and "parse_host (host @ CHR '':'' # port) = Inr (host @ CHR '':'' # port)"
proof -
  have plain: "uri_plain (host @ CHR '':'' # port)"
    using assms(1) class_plain(2) [OF assms(3)]
    by (simp add: uri_plain_def uri_chars_def)
  have free: "CHR ''['' \<notin> set host" "CHR ''['' \<notin> set (host @ CHR '':'' # port)"
    by (rule uri_plain_free [OF assms(1)], simp) (rule uri_plain_free [OF plain], simp)
  have neq: "\<And>c. c \<in> set host \<Longrightarrow> c \<noteq> CHR '':''" using assms(2) by blast
  show "parse_host host = Inr host"
    using free(1) uri_plain_unescape [OF assms(1)] assms(2)
    by (simp add: parse_host_def valid_optional_port_def dropWhile_free)
  from neq have "dropWhile (\<lambda>c. c \<noteq> CHR '':'') (host @ CHR '':'' # port) = CHR '':'' # port"
    by (subst dropWhile_append2) simp_all
  then have "valid_optional_port (dropWhile (\<lambda>c. c \<noteq> CHR '':'') (host @ CHR '':'' # port))"
    using assms(3) by (simp only: valid_optional_port_def list.sel simp_thms)
  then show "parse_host (host @ CHR '':'' # port) = Inr (host @ CHR '':'' # port)"
    using free(2) uri_plain_unescape [OF plain]
    by (simp only: parse_host_def if_False not_True_eq_False)
qed

lemma get_scheme_known:
  "get_scheme (''https:'' @ r) = Inr (''https'', r)"
  "get_scheme (''bitboxsync:'' @ r) = Inr (''bitboxsync'', r)"
  by (simp_all add: get_scheme_def scheme_char_def letters_def digits_def has_prefix_def Let_def)

lemma to_lower_known: "to_lower ''https'' = ''https''" "to_lower ''bitboxsync'' = ''bitboxsync''"
  by code_simp+

lemma url_parse_https:
  assumes plain: "uri_plain hp" and host: "parse_host hp = Inr hp"
  shows "url_parse (''https://'' @ hp) = Inr (empty_url\<lparr>url_Scheme := ''https'', url_Host := hp\<rparr>)"
proof -
  let ?v = "''https://'' @ hp"
  have free: "c \<notin> set ?v" if "c \<in> set ''%+#?;@[&=''" for c
    using that uri_plain_free [OF plain] by auto
  have cut: "before CHR ''#'' ?v = ?v" "after CHR ''#'' ?v = []"
    using before_after(3,4) [OF free] by simp_all
  have ctl: "\<not> list_ex is_control ?v"
  proof -
    have "list_all (\<lambda>c. \<not> is_control c) ''https://''" by code_simp
    then show ?thesis using uri_char(3) [OF plain] by (auto simp: list_ex_iff list_all_iff)
  qed
  have rest: "before CHR ''?'' (''//'' @ hp) = ''//'' @ hp" "after CHR ''?'' (''//'' @ hp) = []"
    using before_after(3,4) [of "CHR ''?''" "''//'' @ hp"] free [of "CHR ''?''"] by simp_all
  have slash: "CHR ''/'' \<notin> set hp" using uri_plain_free [OF plain] by simp
  have at: "CHR ''@'' \<notin> set hp" using uri_plain_free [OF plain] by simp
  have auth: "parse_authority hp = Inr (None, hp)" using at host by (simp add: parse_authority_def)
  have "parse_hierarchy ''https'' [] (''//'' @ hp) =
      Inr (empty_url\<lparr>url_Scheme := ''https'', url_Host := hp\<rparr>)"
    using auth slash
    by (simp add: parse_hierarchy_def Let_def has_prefix_def empty_url_def before_after(3)
        dropWhile_free)
  then show ?thesis
    unfolding url_parse_def Let_def cut
    using ctl get_scheme_known(1) [of "''//'' @ hp"] rest
    by (simp add: to_lower_known ensureR_def)
qed

text \<open>The host and port of a canonical origin.\<close>

definition host_ok :: "string \<Rightarrow> bool" where
  "host_ok host \<longleftrightarrow> host \<noteq> [] \<and> isASCII host \<and> to_lower host = host \<and> host_syntax_ok host"

definition port_ok :: "string \<Rightarrow> bool" where
  "port_ok port \<longleftrightarrow> port = [] \<or> (\<exists>n. port = dec_of_nat n \<and> 0 < n \<and> n < 65536 \<and> n \<noteq> 443)"

definition origin_text :: "string \<Rightarrow> string \<Rightarrow> string" where
  "origin_text host port = ''https://'' @ host @ (if port \<noteq> [] then '':'' @ port else [])"

lemma host_ok_chars:
  assumes "host_ok host"
  shows "uri_plain host" and "CHR '':'' \<notin> set host"
proof -
  have labels: "list_all label_ok (split_on CHR ''.'' host)"
    using assms by (simp add: host_ok_def host_syntax_ok_def)
  have ch: "label_char c \<or> c = CHR ''.''" if "c \<in> set host" for c
  proof -
    from that have "c \<in> set (concat (map (\<lambda>s. s @ [CHR ''.'']) (split_on CHR ''.'' host)))"
      by (simp add: split_on_join)
    with labels show ?thesis by (auto simp: list_all_iff label_ok_def split: if_splits)
  qed
  have "uri_plain [c]" if "label_char c \<or> c = CHR ''.''" for c
  proof -
    have "CHR ''.'' \<in> set uri_chars" by code_simp
    with class_plain(1) [of "[c]"] that show ?thesis by (auto simp: uri_plain_def)
  qed
  with ch show "uri_plain host" unfolding uri_plain_def list_all_iff by fastforce
  have "\<not> (label_char CHR '':'' \<or> CHR '':'' = CHR ''.'')" by code_simp
  with ch show "CHR '':'' \<notin> set host" by blast
qed

lemma dec_digit_digits: "n < 10 \<Longrightarrow> dec_digit n \<in> set digits"
proof -
  have "\<forall>n \<in> set [0..<10]. dec_digit n \<in> set digits" by code_simp
  then show "n < 10 \<Longrightarrow> dec_digit n \<in> set digits" by simp
qed

lemma dec_of_nat_digits: "list_all (\<lambda>c. c \<in> set digits) (dec_of_nat n)"
proof (induction n rule: dec_of_nat.induct)
  case (1 n)
  then show ?case
    by (cases "n < 10") (simp_all add: dec_of_nat.simps [of n] dec_digit_digits)
qed

lemma canonical_port_ok:
  "canonical_port port = Inr p \<Longrightarrow> port_ok p"
  "port_ok p \<Longrightarrow> canonical_port p = Inr p" "port_ok p \<Longrightarrow> list_all (\<lambda>c. c \<in> set digits) p"
proof -
  show "canonical_port port = Inr p \<Longrightarrow> port_ok p"
    using parse_uint_bound [of 16 port]
    by (auto simp: canonical_port_def port_ok_def ensureR_def split: if_splits sum.splits)
  show "port_ok p \<Longrightarrow> canonical_port p = Inr p"
    by (auto simp: canonical_port_def port_ok_def parse_uint_dec_of_nat)
  show "port_ok p \<Longrightarrow> list_all (\<lambda>c. c \<in> set digits) p"
    by (auto simp: port_ok_def dec_of_nat_digits)
qed

lemma split_host_port_text:
  assumes "CHR '':'' \<notin> set host" and "list_all (\<lambda>c. c \<in> set digits) port"
  shows "split_host_port host = (host, [])" and "split_host_port (host @ CHR '':'' # port) = (host, port)"
proof -
  have "CHR '':'' \<notin> set digits" by code_simp
  then have "CHR '':'' \<notin> set (rev port)" using assms(2) by (auto simp: list_all_iff)
  from before_after(1,2) [OF this, of "rev host"]
  have "before CHR '':'' (rev (host @ CHR '':'' # port)) = rev port"
    "after CHR '':'' (rev (host @ CHR '':'' # port)) = rev host" by simp_all
  with assms(2) show "split_host_port (host @ CHR '':'' # port) = (host, port)"
    by (simp add: split_host_port_def Let_def)
  show "split_host_port host = (host, [])" using assms(1) by (simp add: split_host_port_def)
qed

lemma CanonicalServerOrigin_shape:
  assumes "CanonicalServerOrigin v = Inr c"
  shows "\<exists>host port. c = origin_text host port \<and> host_ok host \<and> port_ok port \<and>
    length c \<le> MaxServerOriginLength"
proof -
  obtain u where u: "url_parse v = Inr u"
    using assms by (auto simp: CanonicalServerOrigin_def split: sum.splits)
  obtain host port where hp: "split_host_port (url_Host u) = (host, port)" by fastforce
  obtain p where p: "canonical_port port = Inr p" and c: "c = origin_text host p"
    and "url_Scheme u = ''https''" "host_ok host" "length c \<le> MaxServerOriginLength"
    using assms
    by (auto simp: CanonicalServerOrigin_def u hp host_ok_def origin_text_def bindR_eq_Inr
        ensureR_def Let_def split: if_splits)
  then show ?thesis using canonical_port_ok(1) [OF p] by blast
qed

lemma CanonicalServerOrigin_fixed:
  assumes "host_ok host" and "port_ok port" and "length (origin_text host port) \<le> MaxServerOriginLength"
  shows "CanonicalServerOrigin (origin_text host port) = Inr (origin_text host port)"
proof -
  let ?hp = "host @ (if port \<noteq> [] then '':'' @ port else [])"
  note host = host_ok_chars [OF assms(1)] and digits = canonical_port_ok(3) [OF assms(2)]
  have "CHR '':'' \<in> set uri_chars" by code_simp
  with host(1) class_plain(2) [OF digits] have plain: "uri_plain ?hp"
    by (simp add: uri_plain_def)
  have parsed: "parse_host ?hp = Inr ?hp"
    using parse_host_plain [OF host digits] by simp
  have split: "split_host_port ?hp = (host, port)"
    using split_host_port_text [OF host(2) digits] by simp
  have "?hp \<noteq> []" using assms(1) by (simp add: host_ok_def)
  with url_parse_https [OF plain parsed] split assms canonical_port_ok(2) [OF assms(2)]
  show ?thesis
    by (simp add: CanonicalServerOrigin_def origin_text_def host_ok_def empty_url_def)
qed

lemma CanonicalServerOrigin_idempotent:
  "CanonicalServerOrigin v = Inr c \<Longrightarrow> CanonicalServerOrigin c = Inr c"
  using CanonicalServerOrigin_shape CanonicalServerOrigin_fixed by blast

text \<open>The default port is dropped.\<close>

lemma CanonicalServerOrigin_default_port:
  assumes "host_ok host" and "length (origin_text host []) \<le> MaxServerOriginLength"
  shows "CanonicalServerOrigin (origin_text host ''443'') = Inr (origin_text host [])"
proof -
  let ?hp = "host @ '':443''"
  note host = host_ok_chars [OF assms(1)]
  have digits: "list_all (\<lambda>c. c \<in> set digits) ''443''" by code_simp
  have "uri_plain '':443''" by code_simp
  with host(1) have plain: "uri_plain ?hp" by simp
  have dec: "dec_of_nat 443 = ''443''" by code_simp
  have "parse_uint 16 (dec_of_nat 443) = Inr 443" by (rule parse_uint_dec_of_nat) simp
  then have port: "canonical_port ''443'' = Inr []" by (simp add: canonical_port_def dec)
  have hp: "parse_host ?hp = Inr ?hp" "split_host_port ?hp = (host, ''443'')" "?hp \<noteq> []"
    using parse_host_plain(2) [OF host digits] split_host_port_text(2) [OF host(2) digits] by simp_all
  show ?thesis
    using url_parse_https [OF plain hp(1)] hp(2,3) port assms
    by (simp add: CanonicalServerOrigin_def origin_text_def host_ok_def empty_url_def)
qed

section \<open>Parsing what was encoded\<close>

text \<open>Query strings of plain fields: the separators between fields, and plain text otherwise.\<close>

definition query_plain :: "string \<Rightarrow> bool" where
  "query_plain s \<longleftrightarrow> (\<forall>c \<in> set s. c \<in> set uri_chars \<or> c = CHR ''='' \<or> c = CHR ''&'')"

lemma query_plain_simps [simp]:
  "query_plain []" "query_plain (xs @ ys) \<longleftrightarrow> query_plain xs \<and> query_plain ys"
  "query_plain (CHR ''='' # ys) \<longleftrightarrow> query_plain ys" "query_plain (CHR ''&'' # ys) \<longleftrightarrow> query_plain ys"
  by (auto simp: query_plain_def)

lemma query_plain_letter: "c \<in> set letters \<Longrightarrow> query_plain (c # ys) \<longleftrightarrow> query_plain ys"
  by (simp add: query_plain_def uri_chars_def)

lemma uri_plain_query: "uri_plain s \<Longrightarrow> query_plain s"
  by (simp add: query_plain_def uri_plain_def list_all_iff)

lemma query_char:
  assumes "query_plain s" and "c \<in> set s"
  shows "fragment_char c" "\<not> is_control c" "c \<notin> set ''%+#?/;@[''"
proof -
  have "fragment_char c \<and> \<not> is_control c \<and> c \<notin> set ''%+#?/;@[''"
    if "c = CHR ''='' \<or> c = CHR ''&''"
  proof -
    have "list_all (\<lambda>c. fragment_char c \<and> \<not> is_control c \<and> c \<notin> set ''%+#?/;@['') ''=&''"
      by code_simp
    with that show ?thesis by auto
  qed
  moreover have "fragment_char c \<and> \<not> is_control c \<and> c \<notin> set ''%+#?/;@[''"
    if "c \<in> set uri_chars"
    using uri_char [of "[c]" c] that by (simp add: uri_plain_def)
  ultimately show "fragment_char c" "\<not> is_control c" "c \<notin> set ''%+#?/;@[''"
    using assms unfolding query_plain_def by blast+
qed

lemma url_parse_invite:
  assumes q: "query_plain q" and f: "query_plain f" "f \<noteq> []"
  shows "url_parse (''bitboxsync://join-namespace?'' @ q @ CHR ''#'' # f) =
    Inr (empty_url\<lparr>url_Scheme := ''bitboxsync'', url_Host := ''join-namespace'',
      url_RawQuery := q, url_Fragment := f\<rparr>)"
proof -
  let ?raw = "''bitboxsync://join-namespace?'' @ q"
  have "CHR ''#'' \<notin> set q" using query_char(3) [OF q] by auto
  then have cut: "before CHR ''#'' (?raw @ CHR ''#'' # f) = ?raw"
    "after CHR ''#'' (?raw @ CHR ''#'' # f) = f"
    using before_after(1,2) [of "CHR ''#''" ?raw f] by simp_all
  have ctl: "\<not> list_ex is_control ?raw"
  proof -
    have "list_all (\<lambda>c. \<not> is_control c) ''bitboxsync://join-namespace?''" by code_simp
    then show ?thesis using query_char(2) [OF q] by (auto simp: list_ex_iff list_all_iff)
  qed
  have rest: "before CHR ''?'' (''//join-namespace?'' @ q) = ''//join-namespace''"
    "after CHR ''?'' (''//join-namespace?'' @ q) = q"
    using before_after(1,2) [of "CHR ''?''" "''//join-namespace''" q] by simp_all
  have host: "parse_host ''join-namespace'' = Inr ''join-namespace''"
    by (rule parse_host_plain(1) [of _ "[]"]) (code_simp, simp_all)
  have "parse_hierarchy ''bitboxsync'' q ''//join-namespace'' =
      Inr (empty_url\<lparr>url_Scheme := ''bitboxsync'', url_Host := ''join-namespace'', url_RawQuery := q\<rparr>)"
    using host
    by (simp add: parse_hierarchy_def Let_def has_prefix_def empty_url_def before_def
        parse_authority_def)
  moreover have "url_unescape UrlFragment f = Inr f"
    by (rule url_unescape_plain) (use query_char(3) [OF f(1)] in auto)
  moreover have "escape_fragment f = f"
    by (rule escape_fragment_plain) (use query_char(1) [OF f(1)] in auto)
  ultimately have "url_parse (?raw @ CHR ''#'' # f) =
    Inr (empty_url\<lparr>url_Scheme := ''bitboxsync'', url_Host := ''join-namespace'',
      url_RawQuery := q, url_Fragment := f\<rparr>)"
    unfolding url_parse_def Let_def cut
    using ctl get_scheme_known(2) [of "''//join-namespace?'' @ q"] rest f(2)
    by (simp add: to_lower_known ensureR_def empty_url_def)
  then show ?thesis by simp
qed

lemma parse_field_plain:
  assumes "uri_plain k" and "uri_plain v"
  shows "parse_field (k @ CHR ''='' # v) = Inr (k, v)" and "CHR ''&'' \<notin> set (k @ CHR ''='' # v)"
proof -
  have "CHR ''='' \<notin> set k" using uri_plain_free [OF assms(1)] by simp
  note cut = before_after(1,2) [OF this, of v]
  have "CHR '';'' \<notin> set (k @ CHR ''='' # v)"
    using uri_plain_free [OF assms(1)] uri_plain_free [OF assms(2)] by simp
  then show "parse_field (k @ CHR ''='' # v) = Inr (k, v)"
    by (simp add: parse_field_def cut uri_plain_unescape assms)
  show "CHR ''&'' \<notin> set (k @ CHR ''='' # v)"
    using uri_plain_free [OF assms(1)] uri_plain_free [OF assms(2)] by simp
qed

text \<open>The query of a list of fields, and that it is parsed back.\<close>

fun query_of :: "(string \<times> string) list \<Rightarrow> string" where
  "query_of [] = []"
| "query_of [(k, v)] = k @ CHR ''='' # v"
| "query_of ((k, v) # rest) = (k @ CHR ''='' # v) @ CHR ''&'' # query_of rest"

lemma split_query:
  assumes "fs \<noteq> []" and "\<forall>(k, v) \<in> set fs. uri_plain k \<and> uri_plain v"
  shows "split_on CHR ''&'' (query_of fs) = map (\<lambda>(k, v). k @ CHR ''='' # v) fs"
  using assms
proof (induction fs rule: query_of.induct)
  case (2 k v)
  then show ?case using split_on_append(2) [OF parse_field_plain(2) [of k v]] by simp
next
  case (3 k v f fs)
  then show ?case
    using split_on_append(1) [OF parse_field_plain(2) [of k v], of "query_of (f # fs)"] by simp
qed simp

lemma parse_query_of:
  assumes "fs \<noteq> []" and "\<forall>(k, v) \<in> set fs. uri_plain k \<and> uri_plain v"
  shows "parse_query (query_of fs) = Inr fs"
    and "rejectEmptyInviteURIComponents name (query_of fs) = Inr ()"
proof -
  have "mapR parse_field (map (\<lambda>(k, v). k @ CHR ''='' # v) fs) = Inr fs"
    using assms(2) by (induction fs) (auto simp: parse_field_plain)
  moreover have "filter (\<lambda>s. s \<noteq> []) (map (\<lambda>(k, v). k @ CHR ''='' # v) fs) =
      map (\<lambda>(k, v). k @ CHR ''='' # v) fs"
    by (auto simp: filter_id_conv)
  ultimately show "parse_query (query_of fs) = Inr fs"
    by (simp add: parse_query_def split_query [OF assms])
  have "query_of fs \<noteq> []" using assms(1) by (cases fs rule: query_of.cases) auto
  then show "rejectEmptyInviteURIComponents name (query_of fs) = Inr ()"
    by (simp add: rejectEmptyInviteURIComponents_def split_query [OF assms] list_all_iff)
      (auto simp: ensureR_def)
qed

lemma uri_plain_hex: "uri_plain (hex_encode b)"
proof (induction b)
  case (Cons c b)
  have "\<forall>n \<in> set [0..<16]. hex_digit n \<in> set uri_chars" by code_simp
  then have "hex_digit n \<in> set uri_chars" if "n < 16" for n using that by simp
  with Cons show ?case by (simp add: uri_plain_def char_div16)
qed simp

lemma uri_plain_base64url: "uri_plain (EncodeBase64URL b)"
proof -
  have "\<forall>n \<in> set [0..<64]. b64_digit B64RawURL n \<in> set uri_chars" by code_simp
  then have digit: "b64_digit B64RawURL n \<in> set uri_chars" if "n < 64" for n using that by simp
  have group: "uri_plain (b64_group B64RawURL n)" if "n < 16777216" for n
    using that digit by (simp add: uri_plain_def b64_group_def less_mult_imp_div_less)
  have take: "uri_plain (take k s)" if "uri_plain s" for k s
    using that by (auto simp: uri_plain_def list_all_iff dest: in_set_takeD)
  have byte: "of_char c < (256 :: nat)" for c by simp
  have bound: "of_char x * 65536 + of_char y * 256 + of_char z < (16777216 :: nat)" for x y z
    using byte [of x] byte [of y] byte [of z] by linarith
  have "uri_plain (b64_encode v b)" if "v = B64RawURL" for v
    using that
  proof (induction v b rule: b64_encode.induct)
    case (2 v a)
    then show ?case using bound [of a] byte [of a] by (auto intro!: take group)
  next
    case (3 v a b)
    have "of_char a * 65536 + of_char b * 256 < (16777216 :: nat)" using byte [of a] byte [of b] by linarith
    with 3 show ?case by (simp add: take group)
  next
    case (4 v a b c rest)
    then show ?case using group [OF bound] by simp
  qed simp
  then show ?thesis by (simp add: EncodeBase64URL_def)
qed

lemma uri_plain_dec: "uri_plain (dec_of_nat n)"
  by (rule class_plain(2)) (rule dec_of_nat_digits)

lemma parse_int64_format:
  assumes "0 < i" and "i < 2 ^ 63"
  shows "parse_int64 (format_int i) = Inr i"
proof -
  let ?s = "dec_of_nat (nat i)"
  obtain c cs where s: "?s = c # cs" by (cases ?s) simp_all
  then have "c \<in> set digits" using dec_of_nat_digits [of "nat i"] by simp
  moreover have "CHR ''-'' \<notin> set digits" "CHR ''+'' \<notin> set digits" by code_simp+
  ultimately have "\<not> has_prefix ?s ''-''" "\<not> has_prefix ?s ''+''" by (auto simp: s has_prefix_def)
  moreover have "parse_uint 64 ?s = Inr (nat i)"
    using assms by (intro parse_uint_dec_of_nat) (simp add: nat_less_iff)
  ultimately show ?thesis using assms by (simp add: parse_int64_def format_int_def Let_def)
qed

lemma uri_plain_origin:
  assumes "CanonicalServerOrigin v = Inr c"
  shows "uri_plain (encodedServerOrigin c)" and "''https://'' @ encodedServerOrigin c = c"
proof -
  obtain host port where c: "c = origin_text host port" and ok: "host_ok host" "port_ok port"
    using CanonicalServerOrigin_shape [OF assms] by blast
  have "CHR '':'' \<in> set uri_chars" by code_simp
  then have "uri_plain (host @ (if port \<noteq> [] then '':'' @ port else []))"
    using host_ok_chars(1) [OF ok(1)] class_plain(2) [OF canonical_port_ok(3) [OF ok(2)]]
    by (simp add: uri_plain_def)
  moreover have "encodedServerOrigin c = host @ (if port \<noteq> [] then '':'' @ port else [])"
    unfolding c origin_text_def encodedServerOrigin_def by (rule trim_prefix_append)
  ultimately show "uri_plain (encodedServerOrigin c)" "''https://'' @ encodedServerOrigin c = c"
    by (simp_all add: c origin_text_def)
qed

text \<open>The fields of an encoded token.\<close>

definition token_fields :: "NamespaceInviteToken \<Rightarrow> (string \<times> string) list" where
  "token_fields t =
     [(''v'', format_int NamespaceJoinRequestVersion),
      (''s'', encodedServerOrigin (tok_ServerOrigin t)), (''n'', tok_NamespaceID t),
      (''i'', tok_InviteID t), (''e'', format_int (tok_ExpiresAt t))]"

definition valid_token :: "NamespaceInviteToken \<Rightarrow> bool" where
  "valid_token t \<longleftrightarrow> tok_Version t = NamespaceJoinRequestVersion \<and>
     CanonicalServerOrigin (tok_ServerOrigin t) = Inr (tok_ServerOrigin t) \<and>
     ValidateNamespaceID (tok_NamespaceID t) = Inr () \<and> ValidateInviteID (tok_InviteID t) = Inr () \<and>
     0 < tok_ExpiresAt t \<and> tok_ExpiresAt t < 2 ^ 63 \<and>
     (\<exists>b. DecodeBase64URLExact ''inviteSecret'' (tok_InviteSecret t) InviteSecretLength = Inr b)"

lemma Encode_valid_token:
  assumes "valid_token t"
  shows "EncodeNamespaceInviteToken t =
    Inr (''bitboxsync://join-namespace?'' @ query_of (token_fields t) @ CHR ''#'' #
      query_of [(''k'', tok_InviteSecret t)])"
  using assms
  by (auto simp: valid_token_def EncodeNamespaceInviteToken_def token_fields_def)

lemma Encode_accepts:
  assumes "EncodeNamespaceInviteToken t = Inr uri" and "tok_ExpiresAt t < 2 ^ 63"
  shows "\<exists>c. CanonicalServerOrigin (tok_ServerOrigin t) = Inr c \<and>
    valid_token (t\<lparr>tok_ServerOrigin := c\<rparr>) \<and>
    EncodeNamespaceInviteToken (t\<lparr>tok_ServerOrigin := c\<rparr>) = Inr uri"
proof -
  obtain c where c: "CanonicalServerOrigin (tok_ServerOrigin t) = Inr c"
    using assms(1) by (auto simp: EncodeNamespaceInviteToken_def bindR_eq_Inr ensureR_def split: if_splits)
  note idem = CanonicalServerOrigin_idempotent [OF c]
  have "EncodeNamespaceInviteToken (t\<lparr>tok_ServerOrigin := c\<rparr>) = Inr uri"
    using assms(1) c idem by (simp add: EncodeNamespaceInviteToken_def)
  moreover have "valid_token (t\<lparr>tok_ServerOrigin := c\<rparr>)"
    using assms c idem
    by (auto simp: EncodeNamespaceInviteToken_def valid_token_def bindR_eq_Inr ensureR_def
        split: if_splits)
  ultimately show ?thesis using c by blast
qed

lemma Validate_hex:
  "ValidateNamespaceID s = Inr () \<Longrightarrow> uri_plain s" "ValidateInviteID s = Inr () \<Longrightarrow> uri_plain s"
  by (auto simp: ValidateNamespaceID_def ValidateInviteID_def validate_hex_def bindR_eq_Inr
      DecodeLowerHexExact_accepts uri_plain_hex)

lemma parse_valid_token:
  assumes "valid_token t"
  shows "ParseNamespaceInviteToken (''bitboxsync://join-namespace?'' @ query_of (token_fields t) @
    CHR ''#'' # query_of [(''k'', tok_InviteSecret t)]) = Inr t"
proof -
  have valid: "tok_Version t = NamespaceJoinRequestVersion"
    "CanonicalServerOrigin (tok_ServerOrigin t) = Inr (tok_ServerOrigin t)"
    "ValidateNamespaceID (tok_NamespaceID t) = Inr ()" "ValidateInviteID (tok_InviteID t) = Inr ()"
    "0 < tok_ExpiresAt t" "tok_ExpiresAt t < 2 ^ 63"
    using assms by (simp_all add: valid_token_def)
  obtain b where secret: "tok_InviteSecret t = EncodeBase64URL b"
    "DecodeBase64URLExact ''inviteSecret'' (tok_InviteSecret t) InviteSecretLength = Inr b"
    using assms by (auto simp: valid_token_def DecodeBase64URLExact_accepts)
  let ?f = "[(''k'', tok_InviteSecret t)]" and ?q = "token_fields t"
  let ?u = "empty_url\<lparr>url_Scheme := ''bitboxsync'', url_Host := ''join-namespace'',
      url_RawQuery := query_of ?q, url_Fragment := query_of ?f\<rparr>"
  have letters: "uri_plain ''v'' \<and> uri_plain ''s'' \<and> uri_plain ''n'' \<and> uri_plain ''i'' \<and>
      uri_plain ''e'' \<and> uri_plain ''k''" by code_simp
  have q: "\<forall>(k, v) \<in> set ?q. uri_plain k \<and> uri_plain v"
    using letters valid Validate_hex uri_plain_origin(1) [OF valid(2)]
    by (simp add: token_fields_def format_int_def uri_plain_dec NamespaceJoinRequestVersion_def)
  have f: "\<forall>(k, v) \<in> set ?f. uri_plain k \<and> uri_plain v"
    using letters by (simp add: secret(1) uri_plain_base64url)
  have ne: "?q \<noteq> []" "?f \<noteq> []" "query_of ?f \<noteq> []" by (simp_all add: token_fields_def)
  have plain: "query_plain (query_of fs)" if "\<forall>(k, v) \<in> set fs. uri_plain k \<and> uri_plain v" for fs
    using that by (induction fs rule: query_of.induct) (auto dest: uri_plain_query)
  have parsed: "url_parse (''bitboxsync://join-namespace?'' @ query_of ?q @ CHR ''#'' # query_of ?f) =
      Inr ?u"
    by (rule url_parse_invite [OF plain [OF q] plain [OF f] ne(3)])
  have frag: "escaped_fragment ?u = query_of ?f"
    unfolding escaped_fragment_def
    by (simp add: empty_url_def del: query_of.simps)
      (rule escape_fragment_plain, use query_char(1) [OF plain [OF f]] in blast)
  have u: "url_Scheme ?u = ''bitboxsync''" "url_Host ?u = ''join-namespace''" "url_Path ?u = []"
    "url_RawQuery ?u = query_of ?q" by (simp_all add: empty_url_def)
  have "exactInviteURIFields ?q [''v'', ''s'', ''n'', ''i'', ''e'']" "exactInviteURIFields ?f [''k'']"
    by (simp_all add: exactInviteURIFields_def url_count_def singleInviteURIValue_def url_get_def
        token_fields_def)
  moreover have "single_value ?q ''v'' w = Inr (format_int NamespaceJoinRequestVersion)"
    "single_value ?q ''s'' w = Inr (encodedServerOrigin (tok_ServerOrigin t))"
    "single_value ?q ''n'' w = Inr (tok_NamespaceID t)" "single_value ?q ''i'' w = Inr (tok_InviteID t)"
    "single_value ?q ''e'' w = Inr (format_int (tok_ExpiresAt t))"
    "single_value ?f ''k'' w = Inr (tok_InviteSecret t)" for w
    by (simp_all add: single_value_def singleInviteURIValue_def url_get_def token_fields_def)
  moreover have "has_prefix (''bitboxsync://join-namespace?'' @ r) ''bitboxsync:''" for r
    by (simp add: has_prefix_def)
  ultimately show ?thesis
    unfolding ParseNamespaceInviteToken_def parsed
    using valid secret(2) parse_query_of [OF ne(1) q] parse_query_of [OF ne(2) f] u frag
      parse_int64_format [OF valid(5,6)] uri_plain_origin(2) [OF valid(2)]
    by (simp del: query_of.simps append.simps)
qed

end
