(* ===== verification/Namespace_Invites.thy ===== *)
theory Namespace_Invites
  imports Namespaces Invite_Tokens
begin

text \<open>
  Shared-namespace invites (\<open>src/bitboxsync/namespace_invites.go\<close>): a member creates an
  invite, a prospective member submits a signed join request with a proof of knowing the
  invite secret, the member lists, verifies and approves or rejects requests. A namespace
  handle is its ID. \<open>CreateInvite\<close> returns the token also on an error; the model returns the
  error alone.
\<close>

section \<open>Creating an invite\<close>

definition maxStoredInviteLimit :: int where "maxStoredInviteLimit = 2 ^ 31 - 1"

definition checkedUint32 :: "string \<Rightarrow> int \<Rightarrow> err + 32 word" where
  "checkedUint32 name value =
     (if value \<le> 0 \<or> value > maxStoredInviteLimit then Inl (Errorf (name @ '' is out of range''))
      else Inr (word_of_int value))"

text \<open>An identifier or secret given by the caller, or a fresh random one.\<close>

definition given_or_random ::
  "string \<Rightarrow> (string \<Rightarrow> err + bytes) \<Rightarrow> ('w st, bytes) eff \<Rightarrow> ('w st, bytes) eff" where
  "given_or_random given decode random =
     (if given \<noteq> [] then lift_result (decode given) else random)"

text \<open>The defaults and limits of the options.\<close>

definition invite_options :: "Config \<Rightarrow> NamespaceInviteOptions \<Rightarrow> err + NamespaceInviteOptions" where
  "invite_options cfg opts =
     (let opts = (if io_TTL opts \<le> 0 then opts\<lparr>io_TTL := cfg_InviteTTL cfg\<rparr> else opts)
      in ensureR (io_TTL opts \<le> MaxInviteTTL) (Errorf ''invite ttl exceeds maximum'')
         (let opts = (if io_MaxAccepted opts \<le> 0
                      then opts\<lparr>io_MaxAccepted := MaxAcceptedJoinRequestsPerInvite\<rparr> else opts)
          in ensureR (io_MaxAccepted opts \<le> MaxAcceptedJoinRequestsPerInvite)
               (Errorf ''maxAccepted exceeds maximum'') (Inr opts)))"

text \<open>The authenticated exchange of \<open>CreateInvite\<close>: challenge, signature, request.\<close>

definition requestInvite ::
  "'w env \<Rightarrow> NamespaceInviteToken \<Rightarrow> int \<Rightarrow> bytes \<Rightarrow> bytes \<Rightarrow> bytes \<Rightarrow> bytes \<Rightarrow>
   ('w st, NamespaceInviteToken) eff" where
  "requestInvite E token maxAccepted namespaceIDRaw inviteIDRaw inviteServerSecretHash
     actionFieldsHash =
     bindM identityStateSnapshot (\<lambda>state.
     bindM (client_SensitiveActionChallenge E SensitiveActionCreateNamespaceInvite
       (hex_encode actionFieldsHash)) (\<lambda>challengeResp.
     seqM (guardM (chr_SpamControl challengeResp = SpamControlKindNone)
       (Errorf ''unsupported spam control kind for namespace invite creation''))
     (bindM (lift_result (DecodeBase64Exact ''challenge'' (chr_Challenge challengeResp) 32))
       (\<lambda>challenge.
     bindM (signCreateNamespaceInviteIntent E challenge namespaceIDRaw inviteIDRaw
       inviteServerSecretHash (tok_ExpiresAt token) maxAccepted) (\<lambda>signature.
     bindM (client_CreateNamespaceInvite E (id_AccessToken state) (tok_NamespaceID token)
       \<lparr>ciq_Kind = ident_Kind (env_identity E), ciq_KeyID = env_keyID E,
        ciq_InviteID = tok_InviteID token,
        ciq_InviteServerSecretHash = hex_encode inviteServerSecretHash,
        ciq_Challenge = chr_Challenge challengeResp, ciq_IntentSignature = hex_encode signature,
        ciq_ExpiresAt = tok_ExpiresAt token, ciq_MaxAccepted = maxAccepted\<rparr>) (\<lambda>resp.
     seqM (guardM (cir_ExpiresAt resp = tok_ExpiresAt token)
       (Errorf ''create invite response expiry mismatch''))
     (seqM (guardM (cir_MaxAccepted resp = maxAccepted)
       (Errorf ''create invite response maxAccepted mismatch''))
     (ret (token\<lparr>tok_NamespaceID := cir_NamespaceID resp,
                 tok_InviteID := cir_InviteID resp\<rparr>)))))))))"

definition CreateInvite ::
  "'w env \<Rightarrow> string \<Rightarrow> NamespaceInviteOptions \<Rightarrow> ('w st, NamespaceInviteToken) eff" where
  "CreateInvite E namespaceID opts =
     bindM (lift_result (invite_options (env_cfg E) opts)) (\<lambda>opts.
     bindM (lift_result (CanonicalServerOrigin (io_ServerOrigin opts))) (\<lambda>serverOrigin.
     bindM (lift_result (DecodeLowerHexExact ''namespaceId'' namespaceID NamespaceIDLength))
       (\<lambda>namespaceIDRaw.
     bindM (ensureNamespaceReady E namespaceID NamespaceKindShared) (\<lambda>_.
     bindM (given_or_random (io_InviteID opts)
       (\<lambda>s. DecodeLowerHexExact ''inviteId'' s InviteIDLength) (RandomInviteID E)) (\<lambda>inviteIDRaw.
     bindM (given_or_random (io_InviteSecret opts)
       (\<lambda>s. DecodeBase64URLExact ''inviteSecret'' s InviteSecretLength) (RandomInviteSecret E))
       (\<lambda>inviteSecret.
     bindM (lift_result (checkedUint32 ''maxAccepted'' (io_MaxAccepted opts))) (\<lambda>maxAccepted.
     bindM (time_now E) (\<lambda>now.
     let expiresAt = time_unix (now + io_TTL opts)
     in seqM (guardM (expiresAt \<ge> 0) (Errorf ''invite expiry must be non-negative''))
     (let token = \<lparr>tok_Version = NamespaceJoinRequestVersion, tok_ServerOrigin = serverOrigin,
            tok_NamespaceID = namespaceID, tok_InviteID = hex_encode inviteIDRaw,
            tok_ExpiresAt = expiresAt, tok_InviteSecret = EncodeBase64URL inviteSecret\<rparr>
      in bindM (lift_result (DeriveInviteServerSecret (env_crypto E) inviteSecret))
           (\<lambda>inviteServerSecret.
         let inviteServerSecretHash = sha256 (env_crypto E) inviteServerSecret
         in bindM (lift_result (CreateNamespaceInviteActionFields namespaceIDRaw inviteIDRaw
              inviteServerSecretHash (word_of_int expiresAt) maxAccepted)) (\<lambda>actionFields.
            runAuthenticated E (requestInvite E token (io_MaxAccepted opts) namespaceIDRaw
              inviteIDRaw inviteServerSecretHash (sha256 (env_crypto E) actionFields)))))))))))))"

definition InviteURI :: "NamespaceInviteToken \<Rightarrow> err + string" where
  "InviteURI token = EncodeNamespaceInviteToken token"

definition ParseInviteURI :: "string \<Rightarrow> err + NamespaceInviteToken" where
  "ParseInviteURI value = ParseNamespaceInviteToken value"

section \<open>Submitting a join request\<close>

text \<open>The expiry of a join request, from the options, the invite and the clock.\<close>

definition join_request_expiry ::
  "NamespaceJoinRequestOptions \<Rightarrow> NamespaceInviteToken \<Rightarrow> gotime \<Rightarrow> err + int" where
  "join_request_expiry opts invite now =
     (let expiresAt = (if jo_ExpiresAt opts = 0
            then min (time_unix (now + jo_TTL opts)) (tok_ExpiresAt invite)
            else jo_ExpiresAt opts)
      in ensureR (expiresAt \<ge> 0) (Errorf ''join request expiry must be non-negative'')
         (ensureR (expiresAt \<le> time_unix (now + MaxJoinRequestTTL))
           (Errorf ''join request expiry exceeds maximum'')
         (ensureR (expiresAt \<le> tok_ExpiresAt invite) (Errorf ''join request expires after invite'')
         (ensureR (expiresAt > time_unix now) (Errorf ''invite has expired'')
         (Inr expiresAt)))))"

text \<open>The signed join request and the server secret of the invite.\<close>

definition signedJoinRequest ::
  "'w env \<Rightarrow> NamespaceInviteToken \<Rightarrow> NamespaceJoinRequestOptions \<Rightarrow>
   ('w st, NamespaceJoinRequest \<times> bytes) eff" where
  "signedJoinRequest E invite opts =
     seqM (guardM (tok_Version invite = NamespaceJoinRequestVersion) (Sentinel ErrUnsupportedVersion))
     (seqM (guardM (tok_ExpiresAt invite > 0) (Errorf ''invite expiry must be positive''))
     (let opts = (if jo_TTL opts \<le> 0 \<or> jo_TTL opts > MaxJoinRequestTTL
                  then opts\<lparr>jo_TTL := MaxJoinRequestTTL\<rparr> else opts)
      in bindM (lift_result (CanonicalServerOrigin (tok_ServerOrigin invite))) (\<lambda>serverOrigin.
     seqM (guardM (serverOrigin = tok_ServerOrigin invite)
       (Errorf ''invite server origin must be canonical''))
     (bindM (lift_result (DecodeLowerHexExact ''namespaceId'' (tok_NamespaceID invite)
       NamespaceIDLength)) (\<lambda>namespaceIDRaw.
     bindM (lift_result (DecodeLowerHexExact ''inviteId'' (tok_InviteID invite) InviteIDLength))
       (\<lambda>inviteIDRaw.
     bindM (lift_result (DecodeBase64URLExact ''inviteSecret'' (tok_InviteSecret invite)
       InviteSecretLength)) (\<lambda>inviteSecret.
     bindM (lift_result (DeriveInviteServerSecret (env_crypto E) inviteSecret))
       (\<lambda>inviteServerSecret.
     bindM (lift_result (ServerOriginHash (env_crypto E) serverOrigin)) (\<lambda>serverOriginHash.
     bindM (time_now E) (\<lambda>now.
     bindM (lift_result (join_request_expiry opts invite now)) (\<lambda>expiresAt.
     let authPublicKey = ident_AuthPublicKey (env_identity E);
         wrapPublicKey = ident_WrapPublicKey (env_identity E);
         kind = ident_Kind (env_identity E)
     in bindM (signNamespaceJoinRequestIntent E namespaceIDRaw inviteIDRaw serverOrigin expiresAt)
         (\<lambda>signature.
     bindM (lift_result (JoinRequestPayload kind namespaceIDRaw inviteIDRaw serverOriginHash
       (env_keyIDRaw E) authPublicKey wrapPublicKey (word_of_int expiresAt))) (\<lambda>payload.
     bindM (lift_result (InviteProof (env_crypto E) inviteSecret payload)) (\<lambda>inviteProof.
       ret (\<lparr>jr_Version = NamespaceJoinRequestVersion,
           jr_NamespaceID = tok_NamespaceID invite, jr_InviteID = tok_InviteID invite,
           jr_ServerOrigin = serverOrigin, jr_Kind = kind, jr_KeyID = env_keyID E,
           jr_AuthPublicKey = EncodeEd25519PublicKey authPublicKey,
           jr_WrapPublicKey = EncodeX25519PublicKey wrapPublicKey, jr_ExpiresAt = expiresAt,
           jr_Signature = hex_encode signature, jr_InviteProof = EncodeBase64URL inviteProof\<rparr>,
         inviteServerSecret)))))))))))))))"

definition SubmitJoinRequest ::
  "'w env \<Rightarrow> NamespaceInviteToken \<Rightarrow> NamespaceJoinRequestOptions \<Rightarrow>
   ('w st, SubmitNamespaceJoinRequestResponse) eff" where
  "SubmitJoinRequest E invite opts =
     bindM (signedJoinRequest E invite opts) (\<lambda>(joinRequest, inviteServerSecret).
     runAuthenticated E (bindM identityStateSnapshot (\<lambda>state.
       client_SubmitNamespaceJoinRequest E (id_AccessToken state) (tok_NamespaceID invite)
         (tok_InviteID invite) (EncodeBase64URL inviteServerSecret) joinRequest)))"

section \<open>Verifying a join request\<close>

record parsedNamespaceJoinRequest =
  pj_payload :: bytes
  pj_hash :: string
  pj_signature :: bytes
  pj_inviteProof :: bytes
  pj_authPublicKey :: bytes
  pj_wrapPublicKey :: bytes

definition parseNamespaceJoinRequest ::
  "crypto \<Rightarrow> NamespaceJoinRequest \<Rightarrow> err + parsedNamespaceJoinRequest" where
  "parseNamespaceJoinRequest C r =
     ensureR (jr_Version r = NamespaceJoinRequestVersion) (Sentinel ErrUnsupportedVersion)
     (ensureR (jr_Kind r = IdentityKindKeystore) (Sentinel ErrInvalidKind)
     (ensureR (jr_ExpiresAt r \<ge> 0) (Errorf ''join request expiry must be non-negative'')
     (bindR (DecodeLowerHexExact ''joinRequest.namespaceId'' (jr_NamespaceID r) NamespaceIDLength)
       (\<lambda>namespaceIDRaw.
     bindR (DecodeLowerHexExact ''joinRequest.inviteId'' (jr_InviteID r) InviteIDLength)
       (\<lambda>inviteIDRaw.
     bindR (ServerOriginHash C (jr_ServerOrigin r)) (\<lambda>serverOriginHash.
     bindR (DecodeLowerHexExact ''joinRequest.keyId'' (jr_KeyID r) KeyIDLength) (\<lambda>keyID.
     bindR (ParseEd25519PublicKeyHex ''joinRequest.authPublicKey'' (jr_AuthPublicKey r))
       (\<lambda>authPublicKey.
     bindR (ParseX25519PublicKeyHex ''joinRequest.wrapPublicKey'' (jr_WrapPublicKey r))
       (\<lambda>wrapPublicKey.
     bindR (DecodeLowerHexExact ''joinRequest.signature'' (jr_Signature r) 64) (\<lambda>signature.
     bindR (DecodeBase64URLExact ''joinRequest.inviteProof'' (jr_InviteProof r) InviteProofLength)
       (\<lambda>inviteProof.
     bindR (VerifyKeyIDMatchesAuthPublicKey C (jr_KeyID r) authPublicKey) (\<lambda>_.
     bindR (JoinRequestPayload (jr_Kind r) namespaceIDRaw inviteIDRaw serverOriginHash keyID
       authPublicKey wrapPublicKey (word_of_int (jr_ExpiresAt r))) (\<lambda>payload.
       Inr \<lparr>pj_payload = payload, pj_hash = hex_encode (JoinRequestHash C payload),
            pj_signature = signature, pj_inviteProof = inviteProof,
            pj_authPublicKey = authPublicKey, pj_wrapPublicKey = wrapPublicKey\<rparr>)))))))))))))"

text \<open>The wrap key to wrap for, the server secret of the invite and the hash of the request.\<close>

definition verifyJoinRequestForApproval ::
  "crypto \<Rightarrow> string \<Rightarrow> NamespaceInviteToken \<Rightarrow> NamespaceJoinRequestEntry \<Rightarrow> gotime \<Rightarrow>
   err + bytes \<times> bytes \<times> string" where
  "verifyJoinRequestForApproval C namespaceID invite entry now =
     (let r = je_JoinRequest entry
      in ensureR (tok_Version invite = NamespaceJoinRequestVersion) (Sentinel ErrUnsupportedVersion)
     (ensureR (tok_ExpiresAt invite > 0) (Errorf ''invite expiry must be positive'')
     (ensureR (tok_ExpiresAt invite > time_unix now) (Errorf ''invite has expired'')
     (ensureR (tok_NamespaceID invite = namespaceID \<and> jr_NamespaceID r = namespaceID)
       (Errorf ''join request namespace mismatch'')
     (ensureR (jr_InviteID r = tok_InviteID invite) (Errorf ''join request invite mismatch'')
     (bindR (CanonicalServerOrigin (tok_ServerOrigin invite)) (\<lambda>serverOrigin.
      ensureR (serverOrigin = tok_ServerOrigin invite)
        (Errorf ''invite server origin must be canonical'')
     (ensureR (jr_ServerOrigin r = serverOrigin) (Errorf ''join request server origin mismatch'')
     (ensureR (jr_Version r = NamespaceJoinRequestVersion) (Sentinel ErrUnsupportedVersion)
     (ensureR (jr_Kind r = IdentityKindKeystore) (Sentinel ErrInvalidKind)
     (ensureR (jr_ExpiresAt r > time_unix now) (Errorf ''join request has expired'')
     (ensureR (jr_ExpiresAt r \<le> tok_ExpiresAt invite) (Errorf ''join request expires after invite'')
     (bindR (parseNamespaceJoinRequest C r) (\<lambda>parsed.
      ensureR (je_JoinRequestHash entry = pj_hash parsed) (Errorf ''join request hash mismatch'')
     (ensureR (ed25519_verify C (pj_authPublicKey parsed) (pj_payload parsed) (pj_signature parsed))
       (Errorf ''invalid join request signature'')
     (bindR (DecodeBase64URLExact ''inviteSecret'' (tok_InviteSecret invite) InviteSecretLength)
       (\<lambda>inviteSecret.
      bindR (VerifyInviteProof C inviteSecret (pj_payload parsed) (pj_inviteProof parsed)) (\<lambda>_.
      bindR (DeriveInviteServerSecret C inviteSecret) (\<lambda>inviteServerSecret.
        Inr (pj_wrapPublicKey parsed, inviteServerSecret, pj_hash parsed))))))))))))))))))))"

section \<open>Managing requests and invites\<close>

definition JoinRequests :: "'w env \<Rightarrow> string \<Rightarrow> ('w st, NamespaceJoinRequestEntry list) eff" where
  "JoinRequests E namespaceID =
     runAuthenticated E (bindM identityStateSnapshot (\<lambda>state.
       client_ListNamespaceJoinRequests E (id_AccessToken state) namespaceID))"

definition ApproveJoinRequest ::
  "'w env \<Rightarrow> string \<Rightarrow> NamespaceInviteToken \<Rightarrow> NamespaceJoinRequestEntry \<Rightarrow> ('w st, unit) eff" where
  "ApproveJoinRequest E namespaceID invite entry =
     bindM (time_now E) (\<lambda>now.
     bindM (lift_result (verifyJoinRequestForApproval (env_crypto E) namespaceID invite entry now))
       (\<lambda>(recipientWrapPublicKey, inviteServerSecret, joinRequestHash).
     bindM (ensureNamespaceReady E namespaceID NamespaceKindShared) (\<lambda>namespaceState.
     bindM (wrapNamespaceDEKFor E namespaceID (ns_DEK namespaceState) recipientWrapPublicKey)
       (\<lambda>wrappedDEK.
     runAuthenticated E (bindM identityStateSnapshot (\<lambda>state.
       seqM (client_ApproveNamespaceJoinRequest E (id_AccessToken state) namespaceID
         (jr_KeyID (je_JoinRequest entry)) joinRequestHash (EncodeBase64URL inviteServerSecret)
         (EncodeBase64 wrappedDEK)) (ret ())))))))"

definition RejectJoinRequest ::
  "'w env \<Rightarrow> string \<Rightarrow> NamespaceJoinRequestEntry \<Rightarrow> ('w st, unit) eff" where
  "RejectJoinRequest E namespaceID entry =
     runAuthenticated E (bindM identityStateSnapshot (\<lambda>state.
       seqM (client_RejectNamespaceJoinRequest E (id_AccessToken state) namespaceID
         (jr_KeyID (je_JoinRequest entry)) (je_JoinRequestHash entry)) (ret ())))"

definition RevokeInvite :: "'w env \<Rightarrow> string \<Rightarrow> string \<Rightarrow> ('w st, unit) eff" where
  "RevokeInvite E namespaceID inviteID =
     runAuthenticated E (bindM identityStateSnapshot (\<lambda>state.
       seqM (client_RevokeNamespaceInvite E (id_AccessToken state) namespaceID inviteID) (ret ())))"

definition Invites :: "'w env \<Rightarrow> string \<Rightarrow> ('w st, NamespaceInviteSummary list) eff" where
  "Invites E namespaceID =
     runAuthenticated E (bindM identityStateSnapshot (\<lambda>state.
       client_ListNamespaceInvites E (id_AccessToken state) namespaceID))"

section \<open>Frame\<close>

lemma stays_given_or_random [calls]:
  "stays outputs_only m \<Longrightarrow> stays outputs_only (given_or_random g d m)"
  by (auto simp: given_or_random_def intro!: outputs.combinators calls)

lemma stays_requestInvite [calls]: "stays outputs_only (requestInvite E t m n i h a)"
  unfolding requestInvite_def identityStateSnapshot_def signCreateNamespaceInviteIntent_def
  by (auto intro!: outputs.combinators calls)

lemma stays_signedJoinRequest [calls]: "stays outputs_only (signedJoinRequest E tok jo)"
  unfolding signedJoinRequest_def signNamespaceJoinRequestIntent_def Let_def
  by (intro outputs.combinators calls)

lemmas invite_outputs [engine_calls] =
  stays_given_or_random [OF stays_random(2), THEN stays_engine_outputs]
  stays_given_or_random [OF stays_random(3), THEN stays_engine_outputs]
  stays_requestInvite [THEN stays_engine_outputs]
  stays_signedJoinRequest [THEN stays_engine_outputs]

lemma stays_invite_operations [engine_calls]:
  "stays (engine_step E) (CreateInvite E n io)"
  "stays (engine_step E) (SubmitJoinRequest E tok jo)"
  "stays (engine_step E) (JoinRequests E n)"
  "stays (engine_step E) (ApproveJoinRequest E n tok entry)"
  "stays (engine_step E) (RejectJoinRequest E n entry)"
  "stays (engine_step E) (RevokeInvite E n i)"
  "stays (engine_step E) (Invites E n)"
  unfolding CreateInvite_def SubmitJoinRequest_def JoinRequests_def ApproveJoinRequest_def
    RejectJoinRequest_def RevokeInvite_def Invites_def Let_def
  by (intro engine.combinators engine_calls)+

end
