(* ===== verification/Example_Crypto.thy ===== *)
theory Example_Crypto
  imports Crypto_Wire
begin

text \<open>
  Primitives with the lengths and the correctness the hypotheses of the properties ask for,
  so that these can be instantiated. They are not secure.
\<close>

section \<open>Primitives with digests of 32 bytes\<close>

definition ex_crypto :: crypto where
  "ex_crypto =
     \<lparr>sha256 = (\<lambda>x. take 32 (x @ replicate 32 (CHR 0x00))),
      aead_seal = (\<lambda>k n p a. p @ replicate 16 (CHR 0x00)),
      aead_open = (\<lambda>k n c a. Some (take (length c - 16) c)),
      hpke_seal = (\<lambda>pub info p r. Inr (replicate 32 (CHR 0x01), p @ replicate 16 (CHR 0x02))),
      hpke_open = (\<lambda>priv info enc c. Inr (take (length c - 16) c)),
      x25519_public = (\<lambda>k. k),
      ed25519_public = (\<lambda>k. replicate 32 (CHR 0x03)),
      ed25519_sign = (\<lambda>k m. replicate 64 (CHR 0x04)),
      ed25519_verify = (\<lambda>k m s. s = replicate 64 (CHR 0x04))\<rparr>"

lemma ex_sha256_length: "sha256_length ex_crypto"
  by (simp add: sha256_length_def ex_crypto_def min_def)

lemma ex_aead_correct: "aead_correct ex_crypto"
  by (simp add: aead_correct_def ex_crypto_def)

lemma ex_hpke_correct: "hpke_correct ex_crypto"
  by (simp add: hpke_correct_def ex_crypto_def)

lemma ex_x25519_length: "x25519_length ex_crypto"
  by (simp add: x25519_length_def ex_crypto_def)

lemma ex_signature_correct: "signature_correct ex_crypto"
  by (simp add: signature_correct_def ex_crypto_def)

end
