(* ===== verification/Examples.thy ===== *)
theory Examples
  imports Sync_Loop Namespace_Invites Example_Crypto
begin

text \<open>
  Concrete instances at which the hypotheses of the properties hold: primitives
  whose digests identify what was hashed, an engine over an empty database, and one over a database with items. The
  hashes are not secure; they satisfy exactly what the hypotheses ask.
\<close>

section \<open>Primitives whose digests identify what was hashed\<close>

definition inj_crypto :: crypto where
  "inj_crypto = ex_crypto\<lparr>sha256 := (\<lambda>x. CHR ''h'' # x)\<rparr>"

definition hmac_block_length :: "nat \<Rightarrow> nat" where
  "hmac_block_length n = (if n > 64 then Suc n else 64)"

lemma inj_hmac:
  "\<exists>p. hmac_sha256 inj_crypto key msg = p @ msg \<and> length p = 2 + 2 * hmac_block_length (length key)"
proof -
  let ?k = "if length key > 64 then CHR ''h'' # key else key"
  let ?b = "?k @ replicate (64 - length ?k) (CHR 0x00)"
  have "hmac_sha256 inj_crypto key msg =
      (CHR ''h'' # xor_pad 0x5C ?b @ CHR ''h'' # xor_pad 0x36 ?b) @ msg"
    by (simp add: hmac_sha256_def inj_crypto_def ex_crypto_def Let_def)
  moreover have "length (CHR ''h'' # xor_pad 0x5C ?b @ CHR ''h'' # xor_pad 0x36 ?b) =
      2 + 2 * hmac_block_length (length key)"
    by (simp add: xor_pad_def hmac_block_length_def)
  ultimately show ?thesis by blast
qed

lemma inj_hmac_length:
  "length (hmac_sha256 inj_crypto key msg) =
     2 + 2 * hmac_block_length (length key) + length msg"
  using inj_hmac [of key msg] by auto

lemma inj_hmac_message:
  assumes "length k = length k'" and "hmac_sha256 inj_crypto k m = hmac_sha256 inj_crypto k' m'"
  shows "m = m'"
  using inj_hmac [of k m] inj_hmac [of k' m'] assms by auto

lemma inj_map_key_length:
  assumes "NamespaceMapKey inj_crypto d = Inr k"
  shows "length k = 2 + 2 * hmac_block_length (2 + 2 * hmac_block_length 32 + 32) + 1
    + length namespaceItemKeyInfo"
  using assms
  by (auto simp: NamespaceMapKey_def ensureR_def hkdf_sha256_32_def Let_def inj_hmac_length
      NamespaceDEKLen_def split: if_splits)

lemma inj_ItemID:
  assumes "ItemID inj_crypto d m = Inr x" and "ItemID inj_crypto d' m' = Inr x"
  shows "m = m'"
proof -
  obtain k k' where k: "NamespaceMapKey inj_crypto d = Inr k" "NamespaceMapKey inj_crypto d' = Inr k'"
    and x: "hex_encode (hmac_sha256 inj_crypto k m) = hex_encode (hmac_sha256 inj_crypto k' m')"
    using assms by (auto simp: ItemID_def bindR_eq_Inr)
  from k have "length k = length k'" by (simp add: inj_map_key_length)
  with x show ?thesis by (auto intro: inj_hmac_message)
qed

lemma inj_item_ids: "item_ids_identify inj_crypto"
  unfolding item_ids_identify_def
proof (intro allI impI)
  fix i j
  assume i: "id_derived inj_crypto i" and j: "id_derived inj_crypto j"
    and "it_ItemID i = it_ItemID j"
  then obtain d d' where
    "ItemID inj_crypto d (composeLogicalKey (it_Collection i) (it_Key i)) = Inr (it_ItemID i)"
    "ItemID inj_crypto d' (composeLogicalKey (it_Collection j) (it_Key j)) = Inr (it_ItemID i)"
    by (auto simp: id_derived_def)
  then have "composeLogicalKey (it_Collection i) (it_Key i) =
      composeLogicalKey (it_Collection j) (it_Key j)"
    by (rule inj_ItemID)
  then have "[it_Collection i, it_Key i] = [it_Collection j, it_Key j]"
    unfolding composeLogicalKey_def
    by (rule joinKeyParts_injective [rotated 2]) (use i j in \<open>auto simp: id_derived_def\<close>)
  then show "it_Collection i = it_Collection j \<and> it_Key i = it_Key j" by simp
qed

lemma inj_crypto_ok: "crypto_ok inj_crypto"
  by (simp add: crypto_ok_def inj_item_ids) (simp add: inj_crypto_def)

section \<open>An engine\<close>

text \<open>The world is a counter that serves as clock.\<close>

definition ex_identity :: "'w Identity" where
  "ex_identity =
     \<lparr>ident_Kind = IdentityKindKeystore, ident_AuthPublicKey = replicate 32 (CHR 0x05),
      ident_WrapPublicKey = replicate 32 (CHR 0x06),
      ident_SignLoginIntent = (\<lambda>ch. ret ch), ident_SignRefreshIntent = (\<lambda>ch. ret ch),
      ident_SignRevokeAllTokensIntent = (\<lambda>ch. ret ch),
      ident_SignCreateNamespaceInviteIntent = (\<lambda>ch n i h e m. ret ch),
      ident_SignNamespaceJoinRequestIntent = (\<lambda>n i so e. ret n),
      ident_Attest = (\<lambda>ch. raise (Errorf ''no attestation'')),
      ident_UnwrapNamespaceDEK = (\<lambda>n w. ret (replicate 32 (CHR 0x07)))\<rparr>"

definition ex_config :: Config where
  "ex_config =
     \<lparr>cfg_Client = True, cfg_Identity = True, cfg_Store = True,
      cfg_PollInterval = 5 * time_Minute, cfg_IdlePolling = False,
      cfg_MaxPollInterval = 60 * time_Minute, cfg_DisableNamespaceWatch = False,
      cfg_RefreshSkew = 24 * time_Hour, cfg_EventBuffer = 64,
      cfg_InviteTTL = DefaultInviteTTL\<rparr>"

definition ex_env :: "int env" where
  "ex_env =
     \<lparr>env_cfg = ex_config, env_crypto = inj_crypto, env_keyIDRaw = replicate 32 (CHR 0x08),
      env_identity = ex_identity, env_now = (\<lambda>w. (w, w + 1)),
      env_rand = (\<lambda>n w. (replicate n (CHR 0x09), w)), env_db_fault = (\<lambda>w. (None, w)),
      env_http = (\<lambda>req. ret \<lparr>rs_status = 500, rs_message = [], rs_body = Inr NoContent\<rparr>)\<rparr>"

definition ex_identity_state :: IdentityState where
  "ex_identity_state =
     \<lparr>id_KeyID = env_keyID ex_env, id_Kind = IdentityKindKeystore, id_AccessToken = ''token'',
      id_TokenExpiry = 1000, id_DefaultNamespaceID = [], id_UpdatedAt = 1\<rparr>"

definition ex_db :: database where
  "ex_db = snd (SaveIdentity 1 ex_identity_state empty_database)"

definition ex_state :: "int st" where
  "ex_state =
     \<lparr>st_db = ex_db, st_identity = ex_identity_state, st_collections = [],
      st_events = [], st_requests = [], st_activitySeq = 0, st_idlePolling = False,
      st_wakeSync = False, st_loginSucceededRun = False, st_loginSucceededWatch = False,
      st_eventsClosed = False, st_closed = False, st_world = 10\<rparr>"

lemma ex_db: "db_wf ex_db" "item_of ex_db k = None" "session_saved ex_env ex_db ex_identity_state"
proof -
  show "db_wf ex_db" unfolding ex_db_def by (rule db_wf_SaveIdentity [OF db_wf_empty])
  show "item_of ex_db k = None"
    by (simp add: ex_db_def item_of_def SaveIdentity_def empty_database_def lookup_row_def)
  show "session_saved ex_env ex_db ex_identity_state"
    unfolding ex_db_def
    by (rule SaveIdentity_session [where now = 1 and d = empty_database and r = "Inr ()"])
      (simp_all add: ex_identity_state_def SaveIdentity_def)
qed

lemma ex_engine_ok: "engine_ok ex_env ex_state"
proof -
  have "env_crypto ex_env = inj_crypto" by (simp add: ex_env_def)
  then show ?thesis
    by (simp add: engine_ok_def ex_state_def ex_db items_ok_def inj_crypto_ok registry_ok_def)
      (simp add: ex_identity_state_def)
qed

section \<open>An engine with a stored item\<close>

definition ex_dek :: bytes where "ex_dek = replicate 32 (CHR 0x0C)"

definition ex_itemID :: string where
  "ex_itemID = projr (ItemID inj_crypto ex_dek (composeLogicalKey ''notes'' ''a''))"

definition ex_stored_item :: ItemState where
  "ex_stored_item =
     (new_item (env_keyID ex_env) ''ns'' ''notes'' ''a'' ex_itemID)
       \<lparr>it_Version := 3, it_BaseVersion := 3, it_BaseValue := ''old'', it_Dirty := True,
        it_UpdatedAt := 5\<rparr>"

definition ex_item_db :: database where
  "ex_item_db = snd (SaveItem 9 ex_stored_item ex_db)"

definition ex_item_state :: "int st" where
  "ex_item_state = ex_state\<lparr>st_db := ex_item_db\<rparr>"

lemma ex_itemID: "ItemID inj_crypto ex_dek (composeLogicalKey ''notes'' ''a'') = Inr ex_itemID"
  by (simp add: ex_itemID_def ItemID_def NamespaceMapKey_def ex_dek_def NamespaceDEKLen_def)

lemma ex_stored_item: "item_inv ex_stored_item" "id_derived inj_crypto ex_stored_item"
  using ex_itemID
  by (auto simp: ex_stored_item_def new_item_def item_inv_def id_derived_def go_string_def)

lemma ex_item_db: "SaveItem 9 ex_stored_item ex_db = (Inr (), ex_item_db)" "db_wf ex_item_db"
  "identity_states ex_item_db = identity_states ex_db"
  "item_of ex_item_db = [item_key ex_stored_item \<mapsto> ex_stored_item]"
proof -
  show save: "SaveItem 9 ex_stored_item ex_db = (Inr (), ex_item_db)"
    by (simp add: ex_item_db_def SaveItem_def ex_db_def SaveIdentity_def empty_database_def
        item_to_row_def ex_stored_item_def new_item_def sql_uint64_def)
  show "db_wf ex_item_db"
    unfolding ex_item_db_def by (rule db_wf_SaveItem [OF ex_db(1)])
  show "identity_states ex_item_db = identity_states ex_db"
    by (rule SaveItem_item_of(3) [OF save])
  have "item_of ex_db = Map.empty" by (simp add: fun_eq_iff ex_db(2))
  then show "item_of ex_item_db = [item_key ex_stored_item \<mapsto> ex_stored_item]"
    using SaveItem_item_of(1) [OF save]
    by (simp add: ex_stored_item_def new_item_def sql_now_def time_is_zero_def)
qed

lemma ex_item_engine_ok: "engine_ok ex_env ex_item_state"
proof -
  have "items_ok ex_env ex_item_db"
    using ex_stored_item by (simp add: items_ok_def ex_item_db(4) ex_env_def)
  moreover have "session_saved ex_env ex_item_db ex_identity_state"
    using ex_db(3) by (simp add: session_saved_def ex_item_db(3))
  ultimately show ?thesis
    using ex_engine_ok
    by (simp add: ex_item_state_def engine_ok_def ex_item_db(2) registry_ok_def ex_state_def)
qed

end
