(* ===== verification/Protocol_Properties.thy ===== *)
theory Protocol_Properties
  imports Examples
begin

text \<open>
  Properties of the wire format (\<open>src/protocol/crypto.go\<close>): the codecs accept exactly their
  canonical text, an item's ciphertext and a wrapped namespace key are bound to their
  coordinates, a signature covers one message only, and an invite proof can be made by the
  holders of the invite secret only.
\<close>

section \<open>Codecs\<close>

text \<open>\<open>DecodeLowerHexExact\<close> (identifiers and public keys) accepts exactly the lower-case
  hexadecimal text of a byte string of the given length.\<close>

theorem hex_identifiers_canonical:
  "DecodeLowerHexExact name s sz = Inr b \<longleftrightarrow> length b = sz \<and> s = hex_encode b"
  by (rule lower_hex.accepts_iff)

text \<open>Both base64 decoders accept exactly the canonical padded, respectively unpadded
  URL-safe, encoding: no other alphabet, padding, white space or trailing bits.\<close>

theorem base64_canonical:
  "(DecodeBase64 name s = Inr b \<longleftrightarrow> s = EncodeBase64 b) \<and>
   (DecodeBase64Exact name s sz = Inr b \<longleftrightarrow> length b = sz \<and> s = EncodeBase64 b) \<and>
   (DecodeBase64URLExact name s sz = Inr b \<longleftrightarrow> length b = sz \<and> s = EncodeBase64URL b)"
  by (simp add: base64.accepts_iff base64_exact.accepts_iff base64url.accepts_iff)

text \<open>\<open>ParseIfMatch\<close> accepts exactly what \<open>QuoteETag\<close> prints, for every 64-bit version,
  and takes a blank header for an absent precondition.\<close>

theorem etag_roundtrip:
  "(ParseIfMatch s = Inr (Some v) \<longleftrightarrow> s = QuoteETag v) \<and>
   (ParseIfMatch s = Inr None \<longleftrightarrow> blank s)"
  using ParseIfMatch_Some [of s v]
  by (auto simp: ParseIfMatch_def Let_def split: if_splits sum.splits)

text \<open>C40: Every text decoder of the protocol accepts exactly the canonical text of a value, so that
  a value has one spelling on the wire: lower-case hex for identifiers and keys, padded and
  URL-safe base64 without stray bits or white space, and quoted decimal versions in
  \<open>If-Match\<close>, where a blank header means no precondition.\<close>

theorem text_codecs_canonical:
  "(DecodeLowerHexExact name s sz = Inr b \<longleftrightarrow> length b = sz \<and> s = hex_encode b) \<and>
   (DecodeBase64 name s = Inr b \<longleftrightarrow> s = EncodeBase64 b) \<and>
   (DecodeBase64Exact name s sz = Inr b \<longleftrightarrow> length b = sz \<and> s = EncodeBase64 b) \<and>
   (DecodeBase64URLExact name s sz = Inr b \<longleftrightarrow> length b = sz \<and> s = EncodeBase64URL b) \<and>
   (ParseIfMatch s = Inr (Some v) \<longleftrightarrow> s = QuoteETag v) \<and>
   (ParseIfMatch s = Inr None \<longleftrightarrow> blank s)"
  using base64_canonical [of name s b sz] etag_roundtrip [of s v]
  by (simp only: hex_identifiers_canonical)

section \<open>Items\<close>

text \<open>C25: An item encrypted for a namespace, item and version decrypts, under the same key, to
  the plaintext; its additional data verify at exactly these coordinates.\<close>

theorem item_encryption_roundtrip:
  assumes "aead_correct C" and "length nonce = ItemNonceLength"
    and "EncryptItem C nonce ns item v dek plaintext = Inr (n, aad, ct)"
  shows "DecryptItem C dek n aad ct = Inr plaintext \<and>
    (VerifyAAD ns' item' v' aad = Inr () \<longleftrightarrow> ns' = ns \<and> item' = item \<and> v' = v)"
  using assms
  by (auto simp: EncryptItem_def DecryptItem_def new_item_aead_def aead_correct_def
      VerifyAAD_accepts dest: BuildItemAAD_inject)

definition ex_ns :: string where "ex_ns = hex_encode (replicate 16 (CHR 0x0A))"
definition ex_item :: string where "ex_item = hex_encode (replicate 32 (CHR 0x0B))"

lemma ex_encrypt:
  "\<exists>aad ct. EncryptItem ex_crypto (replicate 24 (CHR 0x0D)) ex_ns ex_item 7 ex_dek ''value'' =
     Inr (replicate 24 (CHR 0x0D), aad, ct)"
  using ex_sha256_length
  by (simp add: EncryptItem_def BuildItemAAD_def DecodeLowerHexExact_accepts ex_ns_def ex_item_def
      NamespaceBlobKey_def ex_dek_def length_constants new_item_aead_def length_hkdf)

theorem item_encryption_roundtrip_witness:
  "\<exists>n aad ct. EncryptItem ex_crypto (replicate 24 (CHR 0x0D)) ex_ns ex_item 7 ex_dek ''value'' =
       Inr (n, aad, ct) \<and>
     DecryptItem ex_crypto ex_dek n aad ct = Inr ''value'' \<and>
     VerifyAAD ex_ns ex_item 8 aad \<noteq> Inr ()"
  using ex_encrypt item_encryption_roundtrip [OF ex_aead_correct,
      of "replicate 24 (CHR 0x0D)" ex_ns ex_item 7 ex_dek "''value''" _ _ _ ex_ns ex_item 8]
  by (fastforce simp: ItemNonceLength_def)

text \<open>C23: A wrapped namespace key opens, with the recipient's private key, for the namespace it
  was wrapped for and for no other.\<close>

theorem wrapped_key_binding:
  assumes "hpke_correct C" and "length priv = 32" and "length nid' = NamespaceIDLength"
    and "WrapNamespaceDEK C rnd (x25519_public C priv) nid dek = Inr w"
  shows "UnwrapNamespaceDEK C priv nid' w =
    (if nid' = nid then Inr dek else Inl (Sentinel ErrNamespaceMismatch))"
  using assms by (intro unwrap_wrapped)

theorem wrapped_key_binding_witness:
  "\<exists>w. WrapNamespaceDEK ex_crypto [] (x25519_public ex_crypto (replicate 32 CHR ''p''))
       (replicate 16 CHR ''n'') ex_dek = Inr w \<and>
     UnwrapNamespaceDEK ex_crypto (replicate 32 CHR ''p'') (replicate 16 CHR ''n'') w = Inr ex_dek \<and>
     UnwrapNamespaceDEK ex_crypto (replicate 32 CHR ''p'') (replicate 16 CHR ''m'') w =
       Inl (Sentinel ErrNamespaceMismatch)"
proof -
  let ?w = "CHR 0x01 # replicate 32 (CHR 0x01) @ (replicate 16 CHR ''n'' @ ex_dek) @
      replicate 16 (CHR 0x02)"
  have w: "WrapNamespaceDEK ex_crypto [] (x25519_public ex_crypto (replicate 32 CHR ''p''))
       (replicate 16 CHR ''n'') ex_dek = Inr ?w"
    by (simp add: WrapNamespaceDEK_def ex_crypto_def length_constants ex_dek_def)
  show ?thesis
    using wrapped_key_binding [OF ex_hpke_correct _ _ w, of "replicate 16 CHR ''n''"]
      wrapped_key_binding [OF ex_hpke_correct _ _ w, of "replicate 16 CHR ''m''"] w
    by (intro exI [of _ ?w]) (simp add: length_constants)
qed

section \<open>Signatures and proofs\<close>

text \<open>C24: The payload a key signs determines the message: no signature for one login, refresh,
  sensitive action or join request is valid for another message of any kind.\<close>

theorem signed_payload_determines_message:
  assumes "signed_payload m = Inr p" and "signed_payload m' = Inr p"
  shows "m = m'"
  using assms by (rule signed_payload_inject)

theorem signed_payload_determines_message_witness:
  "\<exists>p. signed_payload (Refresh (replicate 32 CHR ''c'') ''keystore'' (replicate 32 CHR ''k'')) = Inr p \<and>
     (\<forall>m. signed_payload m = Inr p \<longrightarrow>
       m = Refresh (replicate 32 CHR ''c'') ''keystore'' (replicate 32 CHR ''k''))"
proof -
  have "\<exists>p. signed_payload (Refresh (replicate 32 CHR ''c'') ''keystore'' (replicate 32 CHR ''k'')) = Inr p"
    by (simp add: RefreshIntent_def kindCode_def IdentityKindKeystore_def length_constants)
  then show ?thesis using signed_payload_determines_message by blast
qed

text \<open>\<open>VerifyInviteProof\<close> accepts exactly the proof \<open>InviteProof\<close> computes from the invite
  secret for this join request.\<close>

theorem invite_proof_verification:
  assumes "sha256_length C"
  shows "VerifyInviteProof C secret payload proof = Inr () \<longleftrightarrow>
     InviteProof C secret payload = Inr proof"
  using assms by (rule VerifyInviteProof_accepts)

theorem invite_proof_verification_witness:
  "InviteProof ex_crypto (replicate 32 CHR ''s'') ''request'' =
     Inr (hmac_sha256 ex_crypto (hmac_sha256 ex_crypto (replicate 32 CHR ''s'') inviteProofKeyInfo)
       ''request'') \<and>
   VerifyInviteProof ex_crypto (replicate 32 CHR ''s'') ''request''
     (hmac_sha256 ex_crypto (hmac_sha256 ex_crypto (replicate 32 CHR ''s'') inviteProofKeyInfo)
       ''request'') = Inr ()"
  by (subst invite_proof_verification [OF ex_sha256_length])
    (simp add: InviteProof_def DeriveInviteProofKey_def length_constants)

end
