(* ===== verification/Store_Properties.thy ===== *)
theory Store_Properties
  imports Examples
begin

text \<open>
  Properties of the SQLite store (\<open>src/storage/sqlite/store.go\<close>): what is saved is what is
  read, the two indices of the item table agree, the queue of dirty items is exact and
  ordered, and the two maintenance operations touch what they should and nothing else.
\<close>

text \<open>C21: After \<open>SaveItem\<close>, \<open>GetItemByID\<close> returns the saved state (with the stamped update
  time) under its key and what it returned before under every other key.\<close>

theorem item_store_roundtrip:
  assumes "db_wf d" and "SaveItem now i d = (Inr (), d')"
  shows "GetItemByID k n j d' =
    (if (k, n, j) = item_key i then Inr (i\<lparr>it_UpdatedAt := sql_now now (it_UpdatedAt i)\<rparr>)
     else fst (GetItemByID k n j d), d')"
proof -
  have "db_wf d'" using db_wf_SaveItem [OF assms(1), of now i] assms(2) by simp
  then show ?thesis
    using SaveItem_item_of(1) [OF assms(2)] assms(1) by (simp add: GetItemByID_item_of)
qed

theorem item_store_roundtrip_witness:
  "GetItemByID (env_keyID ex_env) ''ns'' ex_itemID ex_item_db = (Inr ex_stored_item, ex_item_db)"
  using item_store_roundtrip [OF ex_db(1) ex_item_db(1), of "env_keyID ex_env" "''ns''" ex_itemID]
  by (simp add: ex_stored_item_def item_key_def new_item_def sql_now_def time_is_zero_def)

section \<open>Reachable databases\<close>

text \<open>The writes of the store, each with the clock reading it takes.\<close>

datatype store_write =
    WriteIdentity gotime IdentityState
  | WriteNamespace gotime NamespaceState
  | WriteItem gotime ItemState
  | ForgetSecrets gotime string
  | ResetSync gotime string

fun run_write :: "store_write \<Rightarrow> database \<Rightarrow> database" where
  "run_write (WriteIdentity now s) d = snd (SaveIdentity now s d)"
| "run_write (WriteNamespace now s) d = snd (SaveNamespace now s d)"
| "run_write (WriteItem now s) d = snd (SaveItem now s d)"
| "run_write (ForgetSecrets now k) d = snd (ForgetIdentitySecrets now k d)"
| "run_write (ResetSync now k) d = snd (ResetSyncState now k d)"

lemma db_wf_run_write: "db_wf d \<Longrightarrow> db_wf (run_write w d)"
  by (cases w) (simp_all add: db_wf_SaveIdentity db_wf_SaveNamespace db_wf_SaveItem
      db_wf_ForgetIdentitySecrets db_wf_ResetSyncState)

lemma db_wf_run_writes: "db_wf d \<Longrightarrow> db_wf (fold run_write ws d)"
  by (induction ws arbitrary: d) (simp_all add: db_wf_run_write)

lemma indices_agree:
  assumes "db_wf d"
  shows "case fst (GetItemByLogicalKey k n c y d) of
      Inr i \<Rightarrow> logical_key i = (k, n, c, y) \<and> fst (GetItemByID k n (it_ItemID i) d) = Inr i
    | Inl e \<Rightarrow> e = Sentinel ErrNotFound \<and>
        (\<forall>j i. fst (GetItemByID k n j d) = Inr i \<longrightarrow> logical_key i \<noteq> (k, n, c, y))"
proof (cases "fst (GetItemByLogicalKey k n c y d)")
  case (Inr i)
  note found = GetItemByLogicalKey_found [OF assms Inr]
  then have "item_key i = (k, n, it_ItemID i)" by (simp add: item_key_def logical_key_def)
  with found Inr show ?thesis by (simp add: GetItemByID_item_of [OF assms])
next
  case (Inl e)
  note missing = GetItemByLogicalKey_missing [OF assms Inl]
  have "logical_key i \<noteq> (k, n, c, y)" if "fst (GetItemByID k n j d) = Inr i" for j i
    using that missing(2) by (auto simp: GetItemByID_item_of [OF assms] split: option.splits)
  with missing(1) Inl show ?thesis by simp
qed

text \<open>C22: Whatever sequence of writes a database has seen, it is well formed (unique primary
  keys, one row per logical key, version columns in range, flags 0 or 1), and reading an item
  by its logical key and by its ID give the same item.\<close>

theorem reachable_database_consistent:
  "let d = fold run_write ws empty_database in
     db_wf d \<and>
     (case fst (GetItemByLogicalKey k n c y d) of
        Inr i \<Rightarrow> logical_key i = (k, n, c, y) \<and> fst (GetItemByID k n (it_ItemID i) d) = Inr i
      | Inl e \<Rightarrow> e = Sentinel ErrNotFound)"
proof -
  let ?d = "fold run_write ws empty_database"
  have wf: "db_wf ?d" by (rule db_wf_run_writes [OF db_wf_empty])
  show ?thesis
    using wf indices_agree [OF wf, of k n c y] by (auto simp: Let_def split: sum.splits)
qed

section \<open>The dirty queue\<close>

lemma scan_item_order:
  "scan_item r = Inr i \<Longrightarrow> (it_UpdatedAt i, it_ItemID i) = (itr_updated_at r, itr_item_id r)"
  by (auto simp: scan_item_def)

text \<open>C20: \<open>ListDirtyItems\<close> succeeds on a well-formed database and returns exactly the dirty items
  of the identity, oldest change first.\<close>

theorem dirty_queue_exact:
  assumes "db_wf d"
  shows "\<exists>xs. ListDirtyItems k d = (Inr xs, d) \<and>
    (\<forall>i. i \<in> set xs \<longleftrightarrow> fst (GetItemByID k (it_NamespaceID i) (it_ItemID i) d) = Inr i \<and> it_Dirty i) \<and>
    sorted (map (\<lambda>i. (it_UpdatedAt i, it_ItemID i)) xs)"
proof -
  obtain xs where xs: "ListDirtyItems k d = (Inr xs, d)"
    and mem: "\<And>i. i \<in> set xs \<longleftrightarrow> item_of d (k, it_NamespaceID i, it_ItemID i) = Some i \<and> it_Dirty i"
    using ListDirtyItems_exact [OF assms] by blast
  from xs have "map (\<lambda>i. (it_UpdatedAt i, it_ItemID i)) xs =
      map (\<lambda>r. (itr_updated_at r, itr_item_id r))
        (sort_key (\<lambda>r. (itr_updated_at r, itr_item_id r))
          (filter (\<lambda>r. itr_key_id r = k \<and> itr_dirty r = 1) (items d)))"
    by (intro mapR_map [where f = scan_item]) (simp add: ListDirtyItems_def, drule scan_item_order, simp)
  then have "sorted (map (\<lambda>i. (it_UpdatedAt i, it_ItemID i)) xs)" by simp
  with xs mem show ?thesis by (auto simp: GetItemByID_item_of [OF assms] split: option.splits)
qed

theorem dirty_queue_exact_witness:
  "\<exists>xs. ListDirtyItems (env_keyID ex_env) ex_item_db = (Inr xs, ex_item_db) \<and>
     ex_stored_item \<in> set xs"
proof -
  have "fst (GetItemByID (env_keyID ex_env) (it_NamespaceID ex_stored_item)
      (it_ItemID ex_stored_item) ex_item_db) = Inr ex_stored_item \<and> it_Dirty ex_stored_item"
    by (simp add: GetItemByID_item_of [OF ex_item_db(2)] ex_item_db(4) item_key_def
        ex_stored_item_def new_item_def)
  then show ?thesis using dirty_queue_exact [OF ex_item_db(2), of "env_keyID ex_env"] by blast
qed

section \<open>Maintenance\<close>

lemma lookup_row_map:
  "(\<And>r. key (f r) = key r) \<Longrightarrow> lookup_row key k (map f t) = map_option f (lookup_row key k t)"
  by (induction t) (simp_all add: lookup_row_def)

lemma lookup_row_filter:
  "(\<And>r. key r = k \<Longrightarrow> P r = b) \<Longrightarrow>
     lookup_row key k (filter P t) = (if b then lookup_row key k t else None)"
  by (induction t) (auto simp: lookup_row_def)

lemma lookup_row_key: "lookup_row key k t = Some r \<Longrightarrow> key r = k"
  by (auto simp: lookup_row_def find_Some_iff)

lemma map_sum_bindR: "map_sum id g (bindR r f) = bindR r (\<lambda>x. map_sum id g (f x))"
  by (cases r) simp_all

text \<open>\<open>ForgetIdentitySecrets\<close> clears the access token, its expiry and every namespace key of
  the identity, keeps everything else of its session and namespaces, all items, and every
  row of other identities.\<close>

theorem forget_clears_secrets_only:
  "let d' = snd (ForgetIdentitySecrets now k d) in
     fst (LoadIdentity j d') = map_sum id (\<lambda>i. if j = k
       then i\<lparr>id_AccessToken := [], id_TokenExpiry := 0, id_UpdatedAt := now\<rparr> else i)
       (fst (LoadIdentity j d)) \<and>
     fst (GetNamespace j n d') = map_sum id (\<lambda>ns. if j = k
       then ns\<lparr>ns_DEK := [], ns_UpdatedAt := now\<rparr> else ns) (fst (GetNamespace j n d)) \<and>
     item_of d' = item_of d"
proof -
  let ?f = "\<lambda>r. if idr_key_id r = k
      then r\<lparr>idr_access_token := [], idr_token_expiry := None, idr_updated_at := now\<rparr> else r"
  let ?g = "\<lambda>r. if nsr_key_id r = k then r\<lparr>nsr_dek := None, nsr_updated_at := now\<rparr> else r"
  have f: "lookup_row idr_key_id j (map ?f (identity_states d)) =
      map_option ?f (lookup_row idr_key_id j (identity_states d))"
    by (rule lookup_row_map) simp
  have g: "lookup_row namespace_pk (j, n) (map ?g (namespaces d)) =
      map_option ?g (lookup_row namespace_pk (j, n) (namespaces d))"
    by (rule lookup_row_map) (simp add: namespace_pk_def)
  show ?thesis
    by (auto simp: Let_def ForgetIdentitySecrets_def LoadIdentity_def GetNamespace_def f g
        item_of_def fun_eq_iff scan_identity_def scan_namespace_def scan_bytes_def namespace_pk_def
        map_sum_bindR split: option.split sum.split dest!: lookup_row_key)
qed

text \<open>\<open>ResetSyncState\<close> removes every namespace and item of the identity, keeps its session
  but for the default namespace, and leaves other identities alone.\<close>

theorem reset_clears_sync_state_only:
  "let d' = snd (ResetSyncState now k d) in
     fst (LoadIdentity j d') = map_sum id (\<lambda>i. if j = k
       then i\<lparr>id_DefaultNamespaceID := [], id_UpdatedAt := now\<rparr> else i)
       (fst (LoadIdentity j d)) \<and>
     fst (GetNamespace j n d') = (if j = k then Inl (Sentinel ErrNotFound)
       else fst (GetNamespace j n d)) \<and>
     item_of d' (j, n, i) = (if j = k then None else item_of d (j, n, i))"
proof -
  let ?f = "\<lambda>r. if idr_key_id r = k
      then r\<lparr>idr_default_namespace_id := None, idr_updated_at := now\<rparr> else r"
  have f: "lookup_row idr_key_id j (map ?f (identity_states d)) =
      map_option ?f (lookup_row idr_key_id j (identity_states d))"
    by (rule lookup_row_map) simp
  have g: "lookup_row namespace_pk (j, n) (filter (\<lambda>r. nsr_key_id r \<noteq> k) (namespaces d)) =
      (if j \<noteq> k then lookup_row namespace_pk (j, n) (namespaces d) else None)"
    by (rule lookup_row_filter) (auto simp: namespace_pk_def)
  have h: "lookup_row item_pk (j, n, i) (filter (\<lambda>r. itr_key_id r \<noteq> k) (items d)) =
      (if j \<noteq> k then lookup_row item_pk (j, n, i) (items d) else None)"
    by (rule lookup_row_filter) (auto simp: item_pk_def)
  show ?thesis
    by (auto simp: Let_def ResetSyncState_def LoadIdentity_def GetNamespace_def f g h
        item_of_def scan_identity_def split: option.split dest!: lookup_row_key)
qed

text \<open>C35: The two maintenance operations touch what they should and nothing else.
  \<open>ForgetIdentitySecrets\<close> clears the token, its expiry and every namespace key of the identity and
  keeps its other state and all items; \<open>ResetSyncState\<close> removes the namespaces and items of the
  identity and keeps its session but for the default namespace. Other identities keep everything.\<close>

theorem maintenance_exact:
  "let forgotten = snd (ForgetIdentitySecrets now k d); clean = snd (ResetSyncState now k d) in
     fst (LoadIdentity j forgotten) = map_sum id (\<lambda>i. if j = k
       then i\<lparr>id_AccessToken := [], id_TokenExpiry := 0, id_UpdatedAt := now\<rparr> else i)
       (fst (LoadIdentity j d)) \<and>
     fst (GetNamespace j n forgotten) = map_sum id (\<lambda>ns. if j = k
       then ns\<lparr>ns_DEK := [], ns_UpdatedAt := now\<rparr> else ns) (fst (GetNamespace j n d)) \<and>
     item_of forgotten = item_of d \<and>
     fst (LoadIdentity j clean) = map_sum id (\<lambda>i. if j = k
       then i\<lparr>id_DefaultNamespaceID := [], id_UpdatedAt := now\<rparr> else i)
       (fst (LoadIdentity j d)) \<and>
     fst (GetNamespace j n clean) = (if j = k then Inl (Sentinel ErrNotFound)
       else fst (GetNamespace j n d)) \<and>
     item_of clean (j, n, i) = (if j = k then None else item_of d (j, n, i))"
  using forget_clears_secrets_only [of now k d j n] reset_clears_sync_state_only [of now k d j n i]
  unfolding Let_def by blast

end
