(* ===== verification/Engine_Runs.thy ===== *)
theory Engine_Runs
  imports Examples
begin

text \<open>
  Histories of an engine: any interleaving of its public operations, of the rounds of its
  background loops and of changes of the world outside. \<open>runs_on\<close> is what every history
  guarantees; it is weaker than \<open>evolves\<close> only where an operation is meant to change the
  registry, the polling mode or the open channels.
\<close>

definition runs_on :: "'w env \<Rightarrow> 'w st \<Rightarrow> 'w st \<Rightarrow> bool" where
  "runs_on E s t \<longleftrightarrow>
     others_untouched E (st_db s) (st_db t) \<and> items_evolve (st_db s) (st_db t) \<and>
     (\<exists>es. st_events t = st_events s @ es) \<and> requests_grow (st_requests s) (st_requests t) \<and>
     set (st_collections s) \<subseteq> set (st_collections t) \<and>
     (st_closed s \<longrightarrow> st_closed t \<and> st_events t = st_events s)"

lemma runs_on_refl: "runs_on E s s"
  by (simp add: runs_on_def others_untouched_def items_evolve_refl)

lemma runs_on_trans:
  assumes "runs_on E s t" and "runs_on E t u"
  shows "runs_on E s u"
proof -
  have "others_untouched E (st_db s) (st_db u)"
    using assms by (simp add: runs_on_def others_untouched_def)
  moreover have "items_evolve (st_db s) (st_db u)"
    using assms by (auto simp: runs_on_def intro: items_evolve_trans)
  moreover have "\<exists>es. st_events u = st_events s @ es"
    using assms unfolding runs_on_def by (elim conjE exE) simp
  moreover have "requests_grow (st_requests s) (st_requests u)"
    using assms by (auto simp: runs_on_def intro: requests_grow_trans)
  ultimately show ?thesis
    using assms by (auto simp: runs_on_def)
qed

lemma evolves_runs_on:
  "engine_ok E s \<Longrightarrow> evolves E s t \<Longrightarrow> runs_on E s t"
  by (auto simp: evolves_def runs_on_def outputs_grow_def engine_ok_def)

text \<open>
  The operations. The rounds of the loops are those of \<open>Run\<close> (each wake-up) and of the watch
  (each long poll, with whatever the request to \<open>Run\<close> does in between). A collection is
  registered with names and keys that are Go strings; conflicts are resolved through a typed
  collection, its values encoded as bytes.
\<close>

inductive engine_call :: "'w env \<Rightarrow> 'w st \<Rightarrow> 'w st \<Rightarrow> bool" for E :: "'w env" where
  World: "engine_call E s (s\<lparr>st_world := w\<rparr>)"
| SyncNow: "engine_call E s (snd (SyncNow E s))"
| Login: "engine_call E s (snd (Login_op E s))"
| RevokeAllTokens: "engine_call E s (snd (RevokeAllTokens E s))"
| DefaultNamespace: "engine_call E s (snd (DefaultNamespace E s))"
| CreateSharedNamespace: "engine_call E s (snd (CreateSharedNamespace E s))"
| Namespace: "engine_call E s (snd (Namespace E nid s))"
| JoinNamespace: "engine_call E s (snd (JoinNamespace E nid s))"
| Members: "engine_call E s (snd (Members E nid s))"
| ListNamespaces: "engine_call E s (snd (Engine_ListNamespaces E s))"
| ResolveWithValue:
    "engine_call E s (snd (ResolveConflictWithValue E nid name backend key (val :: bytes) s))"
| ResolvePreferLocal:
    "engine_call E s (snd (ResolveConflictPreferLocal E nid name
       (backend :: ('w, bytes) ValueBackend) key s))"
| ResolvePreferRemote:
    "engine_call E s (snd (ResolveConflictPreferRemote E nid name codec
       (backend :: ('w, bytes) ValueBackend) key s))"
| CreateInvite: "engine_call E s (snd (CreateInvite E nid io s))"
| SubmitJoinRequest: "engine_call E s (snd (SubmitJoinRequest E tok jo s))"
| JoinRequests: "engine_call E s (snd (JoinRequests E nid s))"
| ApproveJoinRequest: "engine_call E s (snd (ApproveJoinRequest E nid tok entry s))"
| RejectJoinRequest: "engine_call E s (snd (RejectJoinRequest E nid entry s))"
| RevokeInvite: "engine_call E s (snd (RevokeInvite E nid inviteID s))"
| Invites: "engine_call E s (snd (Invites E nid s))"
| RunRound: "engine_call E s (snd (runRound E rs w s))"
| WatchRound: "engine_call E s (snd (watchRound E
    (requestRunSync (\<lambda>nss. bindM (runRound E rs (SyncRequest nss)) (\<lambda>(_, answer).
       ret (case answer of None \<Rightarrow> Inr () | Some r \<Rightarrow> r))) sending waiting)
    contextDone sleep failures s))"
| Register: "go_collection r \<Longrightarrow> engine_call E s (snd (registerCollection r s))"
| SetIdlePolling: "engine_call E s (snd (SetIdlePolling idle s))"
| Close: "engine_call E s (snd (Close s))"

inductive_cases engine_callE: "engine_call E s t"

lemma stays_call_runs_on:
  assumes "stays (engine_step E) m" and "engine_ok E s"
  shows "engine_ok E (snd (m s)) \<and> runs_on E s (snd (m s))"
  using staysD [OF assms(1), of s] assms(2) by (auto simp: engine_step_def intro: evolves_runs_on)

lemma stays_servedWatch:
  "stays (engine_step E) (watchRound E
    (requestRunSync (\<lambda>nss. bindM (runRound E rs (SyncRequest nss)) (\<lambda>(_, answer).
       ret (case answer of None \<Rightarrow> Inr () | Some r \<Rightarrow> r))) sending waiting)
    contextDone sleep failures)"
  by (intro stays_watchRound stays_requestRunSync engine.bindM stays_runRound)
    (auto intro: engine.ret split: prod.split)

lemma engine_ok_register:
  assumes "engine_ok E s" and "go_collection r"
  shows "engine_ok E (snd (registerCollection r s)) \<and> runs_on E s (snd (registerCollection r s))"
proof -
  have "registry_ok (snd (registerCollection r s))"
    using assms(1) by (intro registry_ok_register) (simp add: engine_ok_def)
  moreover have "\<forall>(k, c) \<in> set (st_collections (snd (registerCollection r s))). go_collection c"
    using assms by (auto simp: registerCollection_def Let_def engine_ok_def)
  moreover have "st_db (snd (registerCollection r s)) = st_db s"
    "st_identity (snd (registerCollection r s)) = st_identity s"
    "st_eventsClosed (snd (registerCollection r s)) = st_eventsClosed s"
    "st_closed (snd (registerCollection r s)) = st_closed s"
    "st_events (snd (registerCollection r s)) = st_events s"
    "st_requests (snd (registerCollection r s)) = st_requests s"
    "set (st_collections s) \<subseteq> set (st_collections (snd (registerCollection r s)))"
    by (auto simp: registerCollection_def Let_def)
  ultimately show ?thesis
    using assms(1) by (simp add: engine_ok_def runs_on_def others_untouched_def items_evolve_refl)
qed

lemma engine_ok_flags:
  assumes "engine_ok E s"
  shows "engine_ok E (s\<lparr>st_world := w\<rparr>) \<and> runs_on E s (s\<lparr>st_world := w\<rparr>)"
    and "engine_ok E (snd (SetIdlePolling b s)) \<and> runs_on E s (snd (SetIdlePolling b s))"
    and "engine_ok E (snd (Close s)) \<and> runs_on E s (snd (Close s))"
  using assms
  by (simp_all add: engine_ok_def runs_on_def others_untouched_def items_evolve_refl registry_ok_def
      SetIdlePolling_def scheduleSync_def Close_def seqM_def bindM_def writes_def)

lemma engine_call_ok:
  assumes "engine_call E s t" and "engine_ok E s"
  shows "engine_ok E t \<and> runs_on E s t"
  using assms
proof (cases rule: engine_call.cases)
  case World
  then show ?thesis using engine_ok_flags(1) [OF assms(2)] by simp
next
  case WatchRound
  then show ?thesis using stays_call_runs_on [OF stays_servedWatch assms(2)] by simp
next
  case Register
  then show ?thesis using engine_ok_register [OF assms(2)] by simp
next
  case SetIdlePolling
  then show ?thesis using engine_ok_flags(2) [OF assms(2)] by simp
next
  case Close
  then show ?thesis using engine_ok_flags(3) [OF assms(2)] by simp
qed (use assms(2) in \<open>simp_all add: stays_call_runs_on engine_calls\<close>)

inductive reaches :: "'w env \<Rightarrow> 'w st \<Rightarrow> 'w st \<Rightarrow> bool" for E :: "'w env" and s :: "'w st" where
  Start: "reaches E s s"
| Call: "reaches E s t \<Longrightarrow> engine_call E t u \<Longrightarrow> reaches E s u"

lemma reaches_ok:
  assumes "reaches E s t" and "engine_ok E s"
  shows "engine_ok E t \<and> runs_on E s t"
  using assms
proof (induction rule: reaches.induct)
  case Start
  then show ?case by (simp add: runs_on_refl)
next
  case (Call t u)
  then show ?case using engine_call_ok by (blast intro: runs_on_trans)
qed

section \<open>Opening\<close>

lemma Open_ok:
  assumes "fst (Open cfg E db w) = Inr (E', s)"
    and "db_wf db" and "crypto_ok (env_crypto E)" and "items_ok E' db"
  shows "engine_ok E' s \<and> config_ok (env_cfg E')"
proof -
  obtain cfg' where cfg: "withDefaults cfg = Inr cfg'"
    using assms(1) by (cases "withDefaults cfg") (simp_all add: Open_def)
  let ?E = "E\<lparr>env_cfg := cfg', env_keyIDRaw :=
      KeyIDFromAuthPublicKey (env_crypto E) (ident_AuthPublicKey (env_identity E))\<rparr>"
  let ?i = "\<lparr>id_KeyID = env_keyID ?E, id_Kind = ident_Kind (env_identity E),
      id_AccessToken = [], id_TokenExpiry = 0, id_DefaultNamespaceID = [], id_UpdatedAt = 0\<rparr>"
  let ?s = "\<lparr>st_db = db, st_identity = ?i, st_collections = [], st_events = [], st_requests = [],
      st_activitySeq = 0, st_idlePolling = cfg_IdlePolling cfg', st_wakeSync = False,
      st_loginSucceededRun = False, st_loginSucceededWatch = False,
      st_eventsClosed = False, st_closed = False, st_world = w\<rparr>"
  obtain r t where load: "stored ?E (LoadIdentity (env_keyID ?E)) ?s = (r, t)" by fastforce
  have outcome: "wp (stored ?E (LoadIdentity (env_keyID ?E)))
      (\<lambda>i t. outputs_only ?s t \<and> fst (LoadIdentity (env_keyID ?E) db) = Inr i)
      (\<lambda>e t. outputs_only ?s t \<and> (errors_is ErrNotFound e \<longrightarrow>
         lookup_row idr_key_id (env_keyID ?E) (identity_states db) = None)) ?s"
    by (rule wp_stored)
      (auto simp: LoadIdentity_def outputs_only_def split: option.split)
  show ?thesis
  proof (cases r)
    case (Inr i)
    with outcome load have t: "outputs_only ?s t"
      and i: "fst (LoadIdentity (env_keyID ?E) db) = Inr i" by (simp_all add: wp_def)
    from i obtain row where row: "lookup_row idr_key_id (env_keyID ?E) (identity_states db) = Some row"
      and i: "i = scan_identity row"
      by (auto simp: LoadIdentity_def split: option.splits)
    have "idr_key_id row = env_keyID ?E" using row by (auto simp: lookup_row_def find_Some_iff)
    then have "session_saved ?E db i" "id_KeyID i = env_keyID ?E"
      using row i by (simp_all add: session_saved_def scan_identity_def)
    moreover have "E' = ?E" "s = t\<lparr>st_identity := i\<rparr>"
      using assms(1) cfg load Inr by (simp_all add: Open_def Let_def)
    ultimately show ?thesis
      using t assms(2-4) withDefaults_ok [OF cfg]
      by (simp add: engine_ok_def outputs_only_def registry_ok_def)
  next
    case (Inl e)
    with outcome load have t: "outputs_only ?s t"
      and none: "errors_is ErrNotFound e \<longrightarrow>
         lookup_row idr_key_id (env_keyID ?E) (identity_states db) = None" by (simp_all add: wp_def)
    have "errors_is ErrNotFound e" "E' = ?E" "s = t"
      using assms(1) cfg load Inl by (simp_all add: Open_def Let_def split: if_splits)
    with t none assms(2-4) withDefaults_ok [OF cfg] show ?thesis
      by (simp add: engine_ok_def outputs_only_def registry_ok_def session_saved_def)
  qed
qed

end
