(* ===== verification/History_Properties.thy ===== *)
theory History_Properties
  imports Engine_Runs
begin

text \<open>
  Properties of an engine over its whole life: what holds in every state that its operations,
  its background loops and the world around it can reach, in any order, whether the
  operations succeed or fail.
\<close>

lemma ex_reaches: "reaches ex_env ex_item_state (snd (SyncNow ex_env ex_item_state))"
  by (rule reaches.Call [OF reaches.Start engine_call.SyncNow])

text \<open>C12: Opening an engine on a well-formed database gives a state from which every history
  keeps the engine's invariant: a well-formed database, consistent items with IDs derived from
  their keys, one registration per collection name, and valid intervals in the configuration.\<close>

theorem opened_engine_invariant:
  assumes "fst (Open cfg E db w) = Inr (E', s)" and "reaches E' s t"
    and "db_wf db" and "items_ok E' db" and "crypto_ok (env_crypto E)"
  shows "engine_ok E' t \<and> config_ok (env_cfg E')"
  using Open_ok [OF assms(1,3,5,4)] reaches_ok [OF assms(2)] by simp

theorem opened_engine_invariant_witness:
  "\<exists>E' s. fst (Open ex_config ex_env empty_database 10) = Inr (E', s) \<and>
     engine_ok E' (snd (SyncNow E' s))"
proof -
  have cfg: "withDefaults ex_config = Inr ex_config"
    by (rule withDefaults_keeps) (simp add: config_ok_def ex_config_def duration_constants)
  obtain E' s where opened: "fst (Open ex_config ex_env empty_database 10) = Inr (E', s)"
    by (simp add: Open_def cfg Let_def stored_def bindM_def world_value_def on_db_def ex_env_def
        LoadIdentity_def empty_database_def lookup_row_def)
  have items: "items_ok E' empty_database"
    by (simp add: items_ok_def item_of_def empty_database_def lookup_row_def)
  have C: "crypto_ok (env_crypto ex_env)" by (simp add: ex_env_def inj_crypto_ok)
  show ?thesis
    using opened opened_engine_invariant [OF opened
        reaches.Call [OF reaches.Start engine_call.SyncNow] db_wf_empty items C]
    by blast
qed

text \<open>C13: No history loses an item, moves it to another key, or takes its version or its merge
  base back to an older one.\<close>

theorem items_never_regress:
  assumes "engine_ok E s" and "reaches E s t" and "item_of (st_db s) k = Some i"
  shows "\<exists>j. item_of (st_db t) k = Some j \<and>
    it_Collection j = it_Collection i \<and> it_Key j = it_Key i \<and>
    it_Version i \<le> it_Version j \<and> it_BaseVersion i \<le> it_BaseVersion j"
proof -
  have "items_evolve (st_db s) (st_db t)"
    using reaches_ok [OF assms(2,1)] by (simp add: runs_on_def)
  with assms(3) obtain j where "item_of (st_db t) k = Some j" "item_evolves i j"
    by (auto simp only: items_evolve_def)
  then show ?thesis by (simp add: item_evolves_def)
qed

theorem items_never_regress_witness:
  "\<exists>j. item_of (st_db (snd (SyncNow ex_env ex_item_state))) (item_key ex_stored_item) = Some j \<and>
     it_Key j = ''a'' \<and> 3 \<le> it_Version j"
proof -
  have "item_of (st_db ex_item_state) (item_key ex_stored_item) = Some ex_stored_item"
    by (simp add: ex_item_state_def ex_item_db(4))
  from items_never_regress [OF ex_item_engine_ok ex_reaches this] show ?thesis
    by (auto simp: ex_stored_item_def new_item_def)
qed

text \<open>C18: In every reachable state a stored item is consistent: a conflict is dirty and remembers
  the remote version it was detected at, without a conflict the conflict fields are empty, a
  clean item is at its merge base, and the base is never ahead of the version.\<close>

theorem reachable_items_consistent:
  assumes "engine_ok E s" and "reaches E s t" and "item_of (st_db t) k = Some i"
  shows "(it_Conflict i \<longrightarrow> it_Dirty i \<and> it_ConflictRemoteVersion i = it_Version i) \<and>
    (\<not> it_Conflict i \<longrightarrow> it_ConflictRemoteVersion i = 0 \<and> it_ConflictRemoteValue i = []) \<and>
    (\<not> it_Dirty i \<longrightarrow> it_BaseVersion i = it_Version i) \<and> it_BaseVersion i \<le> it_Version i"
proof -
  have "items_ok E (st_db t)" using reaches_ok [OF assms(2,1)] by (simp add: engine_ok_def)
  with assms(3) have "item_inv i" unfolding items_ok_def by blast
  then show ?thesis unfolding item_inv_def .
qed

theorem reachable_items_consistent_witness:
  "\<exists>i. item_of (st_db ex_item_state) (item_key ex_stored_item) = Some i \<and>
     it_BaseVersion i \<le> it_Version i"
  using reachable_items_consistent [OF ex_item_engine_ok reaches.Start,
      of "item_key ex_stored_item" ex_stored_item]
  by (simp add: ex_item_state_def ex_item_db(4))

text \<open>C17: No operation of an engine changes the session, the namespaces or the items that the
  shared database holds for another identity.\<close>

theorem other_identities_untouched:
  assumes "engine_ok E s" and "reaches E s t" and "k \<noteq> env_keyID E"
  shows "fst (LoadIdentity k (st_db t)) = fst (LoadIdentity k (st_db s)) \<and>
    fst (GetNamespace k n (st_db t)) = fst (GetNamespace k n (st_db s)) \<and>
    fst (GetItemByID k n i (st_db t)) = fst (GetItemByID k n i (st_db s))"
proof -
  have "db_wf (st_db s)" "db_wf (st_db t)" "others_untouched E (st_db s) (st_db t)"
    using reaches_ok [OF assms(2,1)] assms(1) by (simp_all add: engine_ok_def runs_on_def)
  with assms(3) show ?thesis
    by (simp add: LoadIdentity_def GetNamespace_def GetItemByID_item_of others_untouched_def)
qed

theorem other_identities_untouched_witness:
  "env_keyID ex_env \<noteq> ''other'' \<and>
   fst (LoadIdentity ''other'' (st_db (snd (SyncNow ex_env ex_item_state)))) =
     fst (LoadIdentity ''other'' (st_db ex_item_state))"
proof -
  have "length (env_keyID ex_env) \<noteq> length ''other''"
    unfolding env_keyID_def length_hex_encode by (simp add: ex_env_def)
  then have "''other'' \<noteq> env_keyID ex_env" by metis
  with other_identities_untouched [OF ex_item_engine_ok ex_reaches] show ?thesis by metis
qed

lemma Open_env:
  assumes "fst (Open cfg E db w) = Inr (E', s)"
  shows "env_keyIDRaw E' =
      KeyIDFromAuthPublicKey (env_crypto E) (ident_AuthPublicKey (env_identity E))"
    and "env_crypto E' = env_crypto E" and "env_identity E' = env_identity E" and "st_db s = db"
  using assms
  by (auto simp: Open_def Let_def stored_def bindM_def world_value_def on_db_def
      LoadIdentity_def raise_def split: sum.splits prod.splits option.splits if_splits)

text \<open>C15: The session survives a restart at any point of any history: an engine opened on the
  database as it is then has the same token, expiry and default namespace, and no token when
  none was ever stored.\<close>

theorem session_survives_restart:
  assumes "fst (Open cfg E0 db w) = Inr (E, s)" and "reaches E s t"
    and "fst (Open cfg' E (st_db t) w') = Inr (E', u)"
    and "db_wf db" and "items_ok E db" and "crypto_ok (env_crypto E0)"
  shows "id_AccessToken (st_identity u) = id_AccessToken (st_identity t) \<and>
    (id_AccessToken (st_identity t) \<noteq> [] \<longrightarrow>
       id_TokenExpiry (st_identity u) = id_TokenExpiry (st_identity t) \<and>
       id_DefaultNamespaceID (st_identity u) = id_DefaultNamespaceID (st_identity t))"
proof -
  have t: "engine_ok E t"
    using Open_ok [OF assms(1,4,6,5)] reaches_ok [OF assms(2)] by simp
  have E': "env_keyID E' = env_keyID E" "env_crypto E' = env_crypto E" "st_db u = st_db t"
    using Open_env [OF assms(1)] Open_env [OF assms(3)] by (simp_all add: env_keyID_def)
  with t have "items_ok E' (st_db t)" by (simp add: engine_ok_def items_ok_def)
  with Open_ok [OF assms(3)] t have "engine_ok E' u" by (simp add: engine_ok_def)
  then have saved: "session_saved E (st_db t) (st_identity u)" "session_saved E (st_db t) (st_identity t)"
    using t E' by (simp_all add: engine_ok_def session_saved_def)
  show ?thesis
  proof (cases "lookup_row idr_key_id (env_keyID E) (identity_states (st_db t))")
    case None
    with saved show ?thesis by (simp add: session_saved_def)
  next
    case (Some r)
    with saved have "(st_identity u)\<lparr>id_UpdatedAt := 0\<rparr> = (st_identity t)\<lparr>id_UpdatedAt := 0\<rparr>"
      by (simp add: session_saved_def)
    then show ?thesis by (cases "st_identity u"; cases "st_identity t") simp
  qed
qed

lemma ex_open:
  assumes "db_wf db"
  obtains E' s where "fst (Open ex_config (ex_env\<lparr>env_cfg := c, env_keyIDRaw := k\<rparr>) db w) = Inr (E', s)"
proof -
  have cfg: "withDefaults ex_config = Inr ex_config"
    by (rule withDefaults_keeps) (simp add: config_ok_def ex_config_def duration_constants)
  have "\<exists>E' s. fst (Open ex_config (ex_env\<lparr>env_cfg := c, env_keyIDRaw := k\<rparr>) db w) = Inr (E', s)"
    by (auto simp: Open_def cfg Let_def stored_def bindM_def world_value_def on_db_def ex_env_def
        LoadIdentity_def split: option.split)
  then show ?thesis using that by blast
qed

theorem session_survives_restart_witness:
  "\<exists>E s E' u. fst (Open ex_config ex_env empty_database 10) = Inr (E, s) \<and>
     fst (Open ex_config E (st_db (snd (SyncNow E s))) 20) = Inr (E', u) \<and>
     id_AccessToken (st_identity u) = id_AccessToken (st_identity (snd (SyncNow E s)))"
proof -
  obtain E s where opened: "fst (Open ex_config ex_env empty_database 10) = Inr (E, s)"
    using ex_open [OF db_wf_empty, where c = "env_cfg ex_env" and k = "env_keyIDRaw ex_env" and w = 10]
    by auto
  have wf: "db_wf empty_database" "items_ok E empty_database" "crypto_ok (env_crypto ex_env)"
    by (rule db_wf_empty, simp_all add: items_ok_def item_of_def empty_database_def
        lookup_row_def ex_env_def inj_crypto_ok)
  let ?t = "snd (SyncNow E s)"
  have run: "reaches E s ?t" by (rule reaches.Call [OF reaches.Start engine_call.SyncNow])
  have "db_wf (st_db ?t)"
    using Open_ok [OF opened wf(1,3,2)] reaches_ok [OF run] by (simp add: engine_ok_def)
  moreover have "E = ex_env\<lparr>env_cfg := env_cfg E, env_keyIDRaw := env_keyIDRaw E\<rparr>"
    using opened by (auto simp: Open_def Let_def split: sum.splits prod.splits if_splits)
  ultimately obtain E' u where "fst (Open ex_config E (st_db ?t) 20) = Inr (E', u)"
    using ex_open by metis
  with session_survives_restart [OF opened run this wf] opened show ?thesis by blast
qed

text \<open>C19: Once closed, an engine stays closed, sends no event any more, and \<open>SyncNow\<close> answers
  \<open>ErrClosed\<close> without a request to the server or a change of the database.\<close>

theorem closed_engine_silent:
  assumes "engine_ok E s" and "st_closed s" and "reaches E s t"
  shows "st_closed t \<and> st_events t = st_events s \<and> SyncNow E t = (Inl (Sentinel ErrClosed), t)"
proof -
  have "st_closed t" "st_events t = st_events s"
    using reaches_ok [OF assms(3,1)] assms(2) by (auto simp: runs_on_def)
  then show ?thesis by (simp add: SyncNow_def isClosed_def bindM_reads raise_def)
qed

theorem closed_engine_silent_witness:
  "SyncNow ex_env (snd (Close ex_item_state)) =
     (Inl (Sentinel ErrClosed), snd (Close ex_item_state))"
proof -
  have "engine_ok ex_env (snd (Close ex_item_state))"
    using engine_ok_flags(3) [OF ex_item_engine_ok] by simp
  moreover have "st_closed (snd (Close ex_item_state))"
    by (simp add: Close_def writes_def)
  ultimately show ?thesis
    using closed_engine_silent [of ex_env "snd (Close ex_item_state)", OF _ _ reaches.Start] by simp
qed

end
