(* ===== verification/Discovery_Properties.thy ===== *)
theory Discovery_Properties
  imports Engine_Runs
begin

text \<open>
  Properties of collections and of their discovery: logical keys and scope hashes identify
  what they stand for, a collection is registered once, the memory backend writes
  conditionally, and the built-in merge policies do what their names say
  (\<open>src/bitboxsync/engine_discovery.go\<close>, \<open>collection.go\<close>, \<open>memory_backend.go\<close>, \<open>merge.go\<close>).
\<close>

section \<open>Keys\<close>

text \<open>Different collection and key pairs have different logical keys, whatever bytes they
  contain: the length prefixes leave no ambiguity between \<open>("a", "bc")\<close> and \<open>("ab", "c")\<close>.\<close>

theorem logical_keys_unambiguous:
  assumes "go_string c" and "go_string k" and "go_string c'" and "go_string k'"
  shows "composeLogicalKey c k = composeLogicalKey c' k' \<longleftrightarrow> c = c' \<and> k = k'"
  using joinKeyParts_injective [of "[c, k]" "[c', k']"] assms
  by (auto simp: composeLogicalKey_def)

theorem logical_keys_unambiguous_witness:
  "composeLogicalKey ''a'' ''bc'' \<noteq> composeLogicalKey ''ab'' ''c''"
  by (subst logical_keys_unambiguous) (simp_all add: go_string_def)


definition ex_scope :: namespaceActiveScope where
  "ex_scope = empty_scope\<lparr>as_scopedCollections := {''notes''}, as_activeItemIDs := {''0a''}\<rparr>"


section \<open>Registration\<close>

lemma registered_lookup:
  assumes "k \<notin> fst ` set cs"
  shows "map_of (cs @ [(k, r)]) k = Some r"
    and "k' \<noteq> k \<Longrightarrow> map_of (cs @ [(k, r)]) k' = map_of cs k'"
  using assms by (auto simp: map_of_append map_add_def map_of_eq_None_iff [THEN iffD2]
      split: option.split)

text \<open>C33: \<open>OpenCollection\<close> registers a name of a namespace once: a second registration fails with
  \<open>ErrCollectionRegistered\<close> and changes nothing; the first is found by its namespace and name
  and leaves every other registration in place.\<close>

theorem collection_registered_once:
  assumes "OpenCollection ns name codec json merge backend zero s = (r, t)"
    and "collectionRegistration ns name s = (Inr found, s)"
  shows "case r of
      Inl e \<Rightarrow> t = s \<and> (backend \<noteq> None \<longleftrightarrow> errors_is ErrCollectionRegistered e) \<and>
        (backend \<noteq> None \<longrightarrow> found \<noteq> None)
    | Inr _ \<Rightarrow> found = None \<and>
        (\<exists>c. rc_namespaceID c = ns \<and> rc_name c = name \<and>
           fst (collectionRegistration ns name t) = Inr (Some c)) \<and>
        (\<forall>ns' name'. collectionRegistryKey ns' name' \<noteq> collectionRegistryKey ns name \<longrightarrow>
           fst (collectionRegistration ns' name' t) = fst (collectionRegistration ns' name' s))"
proof (cases backend)
  case None
  with assms(1) show ?thesis by (auto simp: OpenCollection_def raise_def)
next
  case (Some b)
  let ?k = "collectionRegistryKey ns name"
  let ?c = "makeRegisteredCollection ns name (case codec of None \<Rightarrow> json | Some c \<Rightarrow> c)
      (case merge of None \<Rightarrow> NoMerge | Some m \<Rightarrow> m) b zero"
  have c: "rc_namespaceID ?c = ns" "rc_name ?c = name"
    by (simp_all add: makeRegisteredCollection_def)
  have found: "found = map_of (st_collections s) ?k"
    using assms(2) by (simp add: collectionRegistration_def reads_def)
  show ?thesis
  proof (cases "?k \<in> fst ` set (st_collections s)")
    case True
    then have "found \<noteq> None" by (simp add: found map_of_eq_None_iff)
    with True Some assms(1) show ?thesis
      by (auto simp: OpenCollection_def registerCollection_def Let_def c)
  next
    case False
    then have "t = s\<lparr>st_collections := st_collections s @ [(?k, ?c)]\<rparr>" "r = Inr ()"
      using Some assms(1) by (simp_all add: OpenCollection_def registerCollection_def Let_def c)
    moreover have "found = None" using False by (simp add: found map_of_eq_None_iff)
    ultimately show ?thesis
      using registered_lookup [OF False, where r = ?c] c
      by (auto simp: collectionRegistration_def reads_def)
  qed
qed

definition ex_open_notes :: "(string memory st, unit) eff" where
  "ex_open_notes = OpenCollection ''ns'' ''notes'' None StringCodec None (Some MemoryValueBackend) []"

definition ex_memory_state :: "'w \<Rightarrow> 'w st" where
  "ex_memory_state w =
     \<lparr>st_db = ex_item_db, st_identity = ex_identity_state, st_collections = [],
      st_events = [], st_requests = [], st_activitySeq = 0, st_idlePolling = False,
      st_wakeSync = False, st_loginSucceededRun = False, st_loginSucceededWatch = False,
      st_eventsClosed = False, st_closed = False, st_world = w\<rparr>"

theorem collection_registered_once_witness:
  "\<exists>t c. ex_open_notes (ex_memory_state []) = (Inr (), t) \<and>
     fst (collectionRegistration ''ns'' ''notes'' t) = Inr (Some c) \<and> rc_name c = ''notes''"
proof -
  obtain r t where run: "ex_open_notes (ex_memory_state []) = (r, t)" by fastforce
  then have "r = Inr ()"
    by (simp add: ex_open_notes_def OpenCollection_def registerCollection_def Let_def
        makeRegisteredCollection_def ex_memory_state_def)
  have "collectionRegistration ''ns'' ''notes'' (ex_memory_state []) =
      (Inr None, ex_memory_state [])"
    by (simp add: collectionRegistration_def reads_def ex_memory_state_def)
  from collection_registered_once [OF run [unfolded ex_open_notes_def] this] run \<open>r = Inr ()\<close>
  show ?thesis by (intro exI [of _ t]) auto
qed

section \<open>Backends and merge policies\<close>

text \<open>\<open>MemoryValueBackend\<close> keeps the contract of a conditional backend: \<open>Get\<close> returns the last
  value written, \<open>SetIfCurrent\<close> writes exactly when the stored value is still the one the
  caller read (or still absent), says so, and touches no other key.\<close>

theorem memory_backend_compare_and_swap:
  "fst (mem_Get key (snd (mem_Set key v m))) = Inr v \<and>
   (let (r, m') = mem_SetIfCurrent key current found v m;
        unchanged = (map_of m key = (if found then Some current else None))
    in r = Inr unchanged \<and>
       map_of m' = (if unchanged then (map_of m)(key \<mapsto> v) else map_of m))"
  using memory.setif_result [of key current found v m] memory.setif_view [of key current found v m]
    memory.get_after_set [of key v m]
  by (simp add: case_prod_unfold Let_def MemoryValueBackend_def)

text \<open>Over any codec that accepts only what it encodes, the built-in policies resolve to the
  local, respectively the remote, bytes unchanged, \<open>NoMerge\<close> leaves the conflict to the
  application, and a value that does not decode is an error, not a merge.\<close>

theorem merge_policies:
  assumes codec: "value_codec codec"
    and "base = None \<or> (\<exists>bv. cd_Decode codec (the base) = Inr bv)"
    and "cd_Decode codec remote = Inr rv"
  shows "case cd_Decode codec local of
      Inr lv \<Rightarrow>
        makeMergeBytes codec PreferLocal key base local remote = Inr (local, True) \<and>
        makeMergeBytes codec PreferRemote key base local remote = Inr (remote, True) \<and>
        makeMergeBytes codec NoMerge key base local remote = Inr ([], False)
    | Inl e \<Rightarrow> makeMergeBytes codec merge key base local remote =
        Inl (Wrapf ''decode merge local'' e)"
proof -
  have base: "\<And>b. base = Some b \<Longrightarrow> \<exists>bv. cd_Decode codec b = Inr bv" using assms(2) by auto
  have "\<exists>bv. (case base of None \<Rightarrow> Inr None | Some b \<Rightarrow>
      (case cd_Decode codec b of Inl e \<Rightarrow> Inl (Wrapf ''decode merge base'' e) | Inr v \<Rightarrow> Inr (Some v))) =
      Inr bv"
    using base by (cases base) fastforce+
  then show ?thesis
    using value_codec.merge_prefer_local [OF codec _ assms(3) base]
      value_codec.merge_prefer_remote [OF codec _ assms(3) base] assms(3)
    by (auto simp: makeMergeBytes_def NoMerge_def split: sum.split)
qed

theorem merge_policies_witness:
  "makeMergeBytes BytesCodec PreferRemote ''k'' (Some ''base'') ''mine'' ''theirs'' =
     Inr (''theirs'', True) \<and>
   makeMergeBytes BytesCodec NoMerge ''k'' None ''mine'' ''theirs'' = Inr ([], False)"
  using merge_policies [OF bytes_codec.value_codec_axioms, where base = "Some ''base''"
      and remote = "''theirs''" and local = "''mine''" and key = "''k''"]
    merge_policies [OF bytes_codec.value_codec_axioms, where base = None
      and remote = "''theirs''" and local = "''mine''" and key = "''k''"]
  by (simp add: BytesCodec_def codecFunc_def)

end
