(* ===== verification/Loop_Properties.thy ===== *)
theory Loop_Properties
  imports Engine_Runs
begin

text \<open>
  Properties of background syncing (\<open>src/bitboxsync/engine_run.go\<close>,
  \<open>src/bitboxsync/engine_watch.go\<close>): the polling intervals and their bounds in 64-bit
  nanoseconds, the interval along any run of the loop, and when a watch notification leads to
  a sync.
\<close>

section \<open>Intervals\<close>

text \<open>The interval after \<open>n\<close> failures is the configured interval doubled \<open>n\<close> times and capped,
  the idle interval doubles once for every three quiet polls; both stay between the configured
  bounds, and no intermediate product of the 64-bit loop overflows.\<close>

theorem poll_intervals:
  assumes "0 < base" and "base \<le> mx" and "int64_ok mx"
  shows "backoffPollInterval base mx n = (if n \<le> 0 then base else min mx (base * 2 ^ nat n)) \<and>
    idlePollInterval base mx k = min mx (base * 2 ^ nat (k div 3)) \<and>
    base \<le> backoffPollInterval base mx n \<and> backoffPollInterval base mx n \<le> mx \<and>
    base \<le> idlePollInterval base mx k \<and> idlePollInterval base mx k \<le> mx"
  using cappedDoubledInterval_bounds [OF assms] assms
  by (simp add: backoffPollInterval_def idlePollInterval_def cappedDoubledInterval_eq)

theorem poll_intervals_witness:
  "backoffPollInterval (5 * time_Minute) (60 * time_Minute) 3 = 40 * time_Minute \<and>
   backoffPollInterval (5 * time_Minute) (60 * time_Minute) 100 \<le> 60 * time_Minute \<and>
   idlePollInterval (5 * time_Minute) (60 * time_Minute) 8 = 20 * time_Minute"
  using poll_intervals [of "5 * time_Minute" "60 * time_Minute" 3 8]
    poll_intervals [of "5 * time_Minute" "60 * time_Minute" 100 0]
  by (simp add: duration_constants int64_ok_def)

text \<open>The jittered interval is within a tenth of the interval and, like the span of the random
  draw, fits 64 bits; \<open>randomDuration\<close> stays within its maximum. The offset is any number the
  random source may return.\<close>

theorem jitter_bounds:
  assumes "0 < interval" and "interval \<le> 2 ^ 62"
    and "\<forall>offset. rnd = Some offset \<longrightarrow> 0 \<le> offset \<and> offset < 2 * (interval div 10) + 1"
    and "\<forall>offset. rnd' = Some offset \<longrightarrow> 0 \<le> offset \<and> offset < mx + 1"
  shows "interval - interval div 10 \<le> jitterPollInterval interval rnd \<and>
    jitterPollInterval interval rnd \<le> interval + interval div 10 \<and>
    0 < jitterPollInterval interval rnd \<and> int64_ok (jitterPollInterval interval rnd) \<and>
    int64_ok (2 * (interval div 10) + 1) \<and>
    0 \<le> randomDuration mx rnd' \<and> randomDuration mx rnd' \<le> max 0 mx"
proof -
  have div: "0 \<le> interval div 10" "interval div 10 * 10 \<le> interval"
    using assms(1) by (auto simp: div_times_less_eq_dividend)
  then have jit: "interval - interval div 10 \<le> jitterPollInterval interval rnd"
    "jitterPollInterval interval rnd \<le> interval + interval div 10"
    using assms(1,3) by (auto simp: jitterPollInterval_def Let_def split: option.split)
  moreover have "0 < jitterPollInterval interval rnd" using jit(1) div assms(1) by linarith
  moreover have "int64_ok (jitterPollInterval interval rnd)"
    using calculation div assms(2) by (simp add: int64_ok_def)
  moreover have "int64_ok (2 * (interval div 10) + 1)"
    using div assms(2) by (simp add: int64_ok_def)
  moreover have "0 \<le> randomDuration mx rnd' \<and> randomDuration mx rnd' \<le> max 0 mx"
    using assms(4) by (auto simp: randomDuration_def split: option.split)
  ultimately show ?thesis by simp
qed

theorem jitter_bounds_witness:
  "jitterPollInterval (5 * time_Minute) (Some 0) \<ge> 270000000000 \<and>
   randomDuration 5000000000 (Some 5000000000) \<le> 5000000000"
  using jitter_bounds [of "5 * time_Minute" "Some 0" "Some 5000000000" 5000000000]
  by (simp add: duration_constants)

section \<open>The polling loop\<close>

text \<open>C36: Whatever wakes the loop of \<open>Run\<close> and however its syncs end, the interval it waits is
  the one its counters of failures and quiet polls stand for and lies between the configured
  minimum and maximum.\<close>

theorem run_loop_interval:
  assumes "run_config_ok (env_cfg E)" and "fst (Run E wakes s) = Inr rs"
  shows "run_inv (env_cfg E) rs \<and>
    cfg_PollInterval (env_cfg E) \<le> rn_interval rs \<and> rn_interval rs \<le> cfg_MaxPollInterval (env_cfg E)"
proof -
  have "returns (run_inv (env_cfg E)) (Run E wakes)"
    unfolding Run_def
    by (rule returns_bindM_with [OF returns_runSync [OF assms(1) run_inv_reset [OF assms(1)]]])
      (auto intro: returns_runLoop [OF assms(1)])
  then have "wp (Run E wakes) (\<lambda>rs _. run_inv (env_cfg E) rs) (\<lambda>_ _. True) s"
    by (simp add: returns_def)
  moreover obtain t where "Run E wakes s = (Inr rs, t)"
    using assms(2) by (cases "Run E wakes s") simp
  ultimately have "run_inv (env_cfg E) rs" by (rule wpD_Inr)
  with run_inv_bounds [OF assms(1)] show ?thesis by simp
qed

lemma ex_run_config_ok: "run_config_ok (env_cfg ex_env)"
  by (simp add: run_config_ok_def ex_env_def ex_config_def duration_constants int64_ok_def)

theorem run_loop_interval_witness:
  "\<exists>rs. fst (Run ex_env [LoginSucceeded] (snd (Close ex_item_state))) = Inr rs \<and>
     rn_interval rs \<le> 60 * time_Minute"
proof -
  obtain rs where "fst (Run ex_env [LoginSucceeded] (snd (Close ex_item_state))) = Inr rs"
    by (simp add: Run_def runSync_def syncNowWithActivity_def SyncNow_def isClosed_def Close_def
        writes_def bindM_def reads_def attempt_def raise_def ret_def runLoop_def runRound_def seqM_def)
  with run_loop_interval [OF ex_run_config_ok this] show ?thesis
    by (auto simp: ex_env_def ex_config_def)
qed

section \<open>Watching namespaces\<close>

text \<open>A watch response asks for a sync when, going through it in order, the first namespace
  whose head differs from the local one is new or ahead; it is reported as a rollback when that
  namespace is behind, and ignored when every head equals the local one.\<close>

theorem watch_needs_sync:
  "anyNamespaceAhead known nss =
     (case find (\<lambda>n. map_of known (sum_NamespaceID n) \<noteq> Some (sum_NamespaceHead n)) nss of
        None \<Rightarrow> Inr False
      | Some n \<Rightarrow>
          (case map_of known (sum_NamespaceID n) of
             None \<Rightarrow> Inr True
           | Some h \<Rightarrow>
               if h < sum_NamespaceHead n then Inr True else Inl (rollback ''namespace'')))"
  by (induction nss) (auto split: option.splits)

text \<open>The watch goes on after every outcome but three: its context is done, the engine is
  closed, or the server does not offer the endpoint (404, 405, 501). A success resets its
  failure count, a failure increments it and waits within the configured bounds.\<close>

theorem watch_decision:
  assumes "0 < cfg_PollInterval cfg" and "cfg_PollInterval cfg \<le> cfg_MaxPollInterval cfg"
    and "int64_ok (cfg_MaxPollInterval cfg)"
    and "watchDecision cfg contextDone failures r = (next_step, failures')"
  shows "(next_step = WatchStops \<longleftrightarrow> (\<exists>e. r = Inl e \<and>
      (contextDone \<or> errors_is ErrClosed e \<or> api_status e \<in> {Some 404, Some 405, Some 501}))) \<and>
    (\<forall>b. r = Inr b \<longrightarrow> failures' = 0) \<and>
    (\<forall>d. next_step = WatchBacksOff d \<longrightarrow> failures' = failures + 1 \<and>
       cfg_PollInterval cfg \<le> d \<and> d \<le> cfg_MaxPollInterval cfg)"
  using assms cappedDoubledInterval_bounds [OF assms(1-3)]
  by (auto simp: watchDecision_def isNamespaceWatchUnsupported_def backoffPollInterval_def
      split: sum.splits if_splits)

theorem watch_decision_witness:
  "watchDecision ex_config False 2 (Inl (APIError 503 ''busy'')) =
     (WatchBacksOff (40 * time_Minute), 3) \<and>
   fst (watchDecision ex_config False 2 (Inl (APIError 404 []))) = WatchStops"
proof -
  have cfg: "0 < cfg_PollInterval ex_config" "cfg_PollInterval ex_config \<le> cfg_MaxPollInterval ex_config"
    "int64_ok (cfg_MaxPollInterval ex_config)"
    using ex_run_config_ok by (simp_all add: run_config_ok_def ex_env_def)
  have "fst (watchDecision ex_config False 2 (Inl (APIError 404 []))) = WatchStops"
    using watch_decision [OF cfg, of False 2 "Inl (APIError 404 [])"]
    by (cases "watchDecision ex_config False 2 (Inl (APIError 404 []))") auto
  moreover have "watchDecision ex_config False 2 (Inl (APIError 503 ''busy'')) =
     (WatchBacksOff (40 * time_Minute), 3)"
    using cfg by (simp add: watchDecision_def isNamespaceWatchUnsupported_def backoffPollInterval_def
        cappedDoubledInterval_eq) (simp add: ex_config_def duration_constants)
  ultimately show ?thesis by simp
qed

section \<open>Rollback detection\<close>


definition default_ids :: "NamespaceSummary list \<Rightarrow> string set" where
  "default_ids rs = sum_NamespaceID ` {r \<in> set rs. sum_Kind r = NamespaceKindDefault}"

lemma default_ids_Cons:
  "default_ids (r # rs) = (if sum_Kind r = NamespaceKindDefault
     then insert (sum_NamespaceID r) (default_ids rs) else default_ids rs)"
  by (auto simp: default_ids_def)

lemma at_most_one:
  "(\<forall>x \<in> S. \<forall>y \<in> S. x = y) \<longleftrightarrow> (\<exists>d. S = {} \<and> d = [] \<or> S = {d})" for S :: "'a list set"
proof (cases "S = {}")
  case False
  then obtain x where "x \<in> S" by blast
  then have "(\<forall>x \<in> S. \<forall>y \<in> S. x = y) \<longleftrightarrow> S = {x}" by blast
  with \<open>x \<in> S\<close> show ?thesis by (metis empty_iff singletonD)
qed simp

lemma scanRemoteNamespaces_accepts:
  assumes "\<forall>r \<in> set rs. sum_NamespaceID r \<noteq> []"
  shows "scanRemoteNamespaces known rs found = Inr d \<longleftrightarrow>
    (\<forall>r \<in> set rs. sum_Kind r \<in> {NamespaceKindDefault, NamespaceKindShared}) \<and>
    (\<forall>r \<in> set rs. known \<noteq> [] \<longrightarrow> sum_NamespaceID r = known \<longrightarrow> sum_Kind r = NamespaceKindDefault) \<and>
    (default_ids rs = {} \<and> d = found \<or> default_ids rs = {d} \<and> (found = [] \<or> found = d))"
  using assms
proof (induction rs arbitrary: found)
  case Nil
  then show ?case by (auto simp: default_ids_def)
next
  case (Cons r rs)
  then have ids: "\<forall>r \<in> set rs. sum_NamespaceID r \<noteq> []" and r: "sum_NamespaceID r \<noteq> []" by simp_all
  have single: "insert (sum_NamespaceID r) S = {d} \<longleftrightarrow>
      sum_NamespaceID r = d \<and> (S = {} \<or> S = {d})" for S
    by blast
  show ?case
  proof (cases "sum_Kind r = NamespaceKindDefault")
    case True
    with r show ?thesis
      by (simp add: validateNamespaceKind_def Cons.IH [OF ids] default_ids_Cons single) blast
  next
    case False
    then show ?thesis
      by (simp add: validateNamespaceKind_def Cons.IH [OF ids] default_ids_Cons) blast
  qed
qed

lemma drop_implied:
  assumes "\<And>d. K \<Longrightarrow> I \<Longrightarrow> S d \<Longrightarrow> M d"
  shows "(\<exists>d. A \<and> K \<and> S d \<and> M d \<and> I \<and> L) \<longleftrightarrow> A \<and> (\<exists>d. S d) \<and> (K \<and> I) \<and> L"
  using assms by blast


definition ex_remotes :: "NamespaceSummary list" where
  "ex_remotes =
     [\<lparr>sum_NamespaceID = ''d'', sum_Kind = NamespaceKindDefault, sum_NamespaceHead = 4\<rparr>,
      \<lparr>sum_NamespaceID = ''s'', sum_Kind = NamespaceKindShared, sum_NamespaceHead = 9\<rparr>]"


end
