(* ===== verification/Apply_Spec.thy ===== *)
theory Apply_Spec
  imports Engine_Runs
begin

text \<open>
  An abstract specification of what a sync does to one item when a newer remote value arrives,
  as a function from the item's metadata and the application's value to the new ones, and
  the proof that \<open>applyRemoteValueLocked\<close> implements it on the database and the application's
  storage. The application's side is the locale \<open>synced_collection\<close>: a registered collection
  over a byte-level view of the world. It is derived, for any typed collection, from the
  contract of its backend (\<open>conditional_backend\<close>) and of its codec (\<open>value_codec\<close>).
\<close>

section \<open>The specification\<close>

definition item_at ::
  "ItemState \<Rightarrow> u64 \<Rightarrow> bytes \<Rightarrow> bool \<Rightarrow> ItemState" where
  "item_at item version base dirty =
     item\<lparr>it_Version := version, it_BaseVersion := version, it_BaseValue := base, it_Dirty := dirty,
       it_Conflict := False, it_ConflictRemoteVersion := 0, it_ConflictRemoteValue := []\<rparr>"

definition item_in_conflict :: "ItemState \<Rightarrow> u64 \<Rightarrow> bytes \<Rightarrow> ItemState" where
  "item_in_conflict item version remote =
     item\<lparr>it_Version := version, it_Dirty := True, it_Conflict := True,
       it_ConflictRemoteVersion := version, it_ConflictRemoteValue := remote\<rparr>"

text \<open>There is something to protect unless the value is the one of the last sync.\<close>

definition local_edit :: "ItemState \<Rightarrow> bytes \<Rightarrow> bool" where
  "local_edit item val \<longleftrightarrow>
     it_Dirty item \<or> \<not> hasMergeBase item \<or> val \<noteq> it_BaseValue item"

definition merge_spec ::
  "(bytes option \<Rightarrow> bytes \<Rightarrow> bytes \<Rightarrow> err + bytes \<times> bool) \<Rightarrow> ItemState \<Rightarrow> bytes \<Rightarrow> u64 \<Rightarrow>
   bytes \<Rightarrow> err + ItemState \<times> bytes option" where
  "merge_spec merge item val version remote =
     (if val = remote then Inr (item_at item version remote False, Some remote)
      else
        map_sum (\<lambda>e. e) (\<lambda>(merged, resolved).
          if resolved then (item_at item version remote (merged \<noteq> remote), Some merged)
          else (item_in_conflict item version remote, Some val))
        (merge (if hasMergeBase item then Some (it_BaseValue item) else None) val remote))"

definition apply_spec ::
  "(bytes option \<Rightarrow> bytes \<Rightarrow> bytes \<Rightarrow> err + bytes \<times> bool) \<Rightarrow> ItemState \<Rightarrow> bytes option \<Rightarrow> u64 \<Rightarrow>
   bytes \<Rightarrow> err + ItemState \<times> bytes option" where
  "apply_spec merge item current version remote =
     (if it_Conflict item then Inr (item_in_conflict item version remote, current)
      else case current of
        None \<Rightarrow>
          if it_Dirty item then Inl (Sentinel ErrNotFound)
          else Inr (item_at item version remote False, Some remote)
      | Some val \<Rightarrow>
          if \<not> local_edit item val then Inr (item_at item version remote False, Some remote)
          else merge_spec merge item val version remote)"

section \<open>The application's side\<close>

definition byte_view ::
  "'t Codec \<Rightarrow> ('w \<Rightarrow> string \<Rightarrow> 't option) \<Rightarrow> 'w \<Rightarrow> string \<Rightarrow> bytes option" where
  "byte_view codec view w k =
     (case view w k of
        None \<Rightarrow> None
      | Some v \<Rightarrow> (case cd_Encode codec v of Inl _ \<Rightarrow> None | Inr b \<Rightarrow> Some b))"

definition decodes :: "'t Codec \<Rightarrow> bytes \<Rightarrow> bool" where
  "decodes codec b \<longleftrightarrow> (\<exists>v. cd_Decode codec b = Inr v)"

text \<open>The clock and the disk do not write to the application's storage, and the disk works.\<close>

definition undisturbed :: "'w env \<Rightarrow> ('w \<Rightarrow> string \<Rightarrow> 't option) \<Rightarrow> bool" where
  "undisturbed E view \<longleftrightarrow>
     (\<forall>w. view (snd (env_now E w)) = view w) \<and>
     (\<forall>w. fst (env_db_fault E w) = None \<and> view (snd (env_db_fault E w)) = view w)"

text \<open>Between two steps on the data, only the outputs and the clock change.\<close>

definition idle :: "('w \<Rightarrow> string \<Rightarrow> bytes option) \<Rightarrow> 'w st \<Rightarrow> 'w st \<Rightarrow> bool" where
  "idle bview s t \<longleftrightarrow> st_db t = st_db s \<and> st_collections t = st_collections s \<and>
     bview (st_world t) = bview (st_world s)"

lemma idle_trans: "idle bview s t \<Longrightarrow> idle bview t u \<Longrightarrow> idle bview s u"
  by (simp add: idle_def)

text \<open>The data after a save: the saved item with some update time, and nothing else.\<close>

definition saved :: "('w \<Rightarrow> string \<Rightarrow> bytes option) \<Rightarrow> 'w st \<Rightarrow> ItemState \<Rightarrow> 'w st \<Rightarrow> bool" where
  "saved bview s i t \<longleftrightarrow> bview (st_world t) = bview (st_world s) \<and>
     st_collections t = st_collections s \<and> (db_wf (st_db s) \<longrightarrow> db_wf (st_db t)) \<and>
     (\<exists>now. item_of (st_db t) =
        (item_of (st_db s))(item_key i \<mapsto> i\<lparr>it_UpdatedAt := now\<rparr>))"

definition savable :: "database \<Rightarrow> ItemState \<Rightarrow> bool" where
  "savable d i \<longleftrightarrow> db_wf d \<and> item_storable i \<and>
     (\<forall>k j. item_of d k = Some j \<longrightarrow> logical_key j = logical_key i \<longrightarrow> k = item_key i)"

lemma item_of_row:
  assumes "db_wf d" and "item_of d k = Some s"
  obtains r where "r \<in> set (items d)" "item_pk r = k" "item_logical r = logical_key s"
proof -
  from assms(2) obtain r where r: "lookup_row item_pk k (items d) = Some r" "scan_item r = Inr s"
    by (auto simp: item_of_def split: option.splits sum.splits)
  then have row: "r \<in> set (items d)" "item_pk r = k"
    using assms(1) by (auto simp: db_wf_def lookup_row_iff)
  moreover have "item_row_ok r" using row(1) assms(1) by (simp add: db_wf_def)
  ultimately show thesis using that r(2) by (auto elim: item_row_ok_scan)
qed

text \<open>A stored item of a well-formed database can be saved again.\<close>

lemma stored_savable:
  assumes "db_wf d" and "item_of d (item_key item) = Some item"
  shows "savable d item"
  unfolding savable_def
proof (intro conjI allI impI)
  show "db_wf d" "item_storable item" using assms by (auto dest: item_of_key)
  fix k j assume j: "item_of d k = Some j" "logical_key j = logical_key item"
  obtain r where r: "r \<in> set (items d)" "item_pk r = k" "item_logical r = logical_key j"
    using item_of_row [OF assms(1) j(1)] .
  obtain x where x: "x \<in> set (items d)" "item_pk x = item_key item" "item_logical x = logical_key item"
    using item_of_row [OF assms] .
  have "inj_on item_logical (set (items d))"
    using assms(1) by (simp add: db_wf_def keys_distinct_def distinct_map)
  then have "r = x" by (rule inj_onD) (use r x j(2) in simp_all)
  with r x show "k = item_key item" by simp
qed

lemma SaveItem_savable:
  assumes "savable d i"
  shows "\<exists>d'. SaveItem now i d = (Inr (), d')"
proof -
  have st: "item_storable i" and wf: "db_wf d"
    and uniq: "\<And>k j. item_of d k = Some j \<Longrightarrow> logical_key j = logical_key i \<Longrightarrow> k = item_key i"
    using assms by (auto simp: savable_def)
  from st obtain r where r: "item_to_row now i = Inr r"
    by (auto simp: item_to_row_def item_storable_def sql_uint64_storable)
  have keys: "item_logical r = logical_key i" "item_pk r = item_key i"
    using r by (auto simp: item_to_row_def item_logical_def logical_key_def item_pk_def item_key_def)
  have "item_pk x = item_pk r" if x: "x \<in> set (items d)" "item_logical x = item_logical r" for x
  proof -
    have "item_row_ok x" using wf x(1) by (simp add: db_wf_def)
    then obtain j where j: "scan_item x = Inr j" "logical_key j = item_logical x"
      by (rule item_row_ok_scan)
    from scan_item_item_of [OF wf x(1) j(1)] have "item_of d (item_pk x) = Some j" .
    with uniq j(2) x(2) keys show ?thesis by metis
  qed
  then have "\<not> (\<exists>x \<in> set (items d). item_logical x = item_logical r \<and> item_pk x \<noteq> item_pk r)"
    by blast
  then show ?thesis by (simp add: SaveItem_def r)
qed

text \<open>The new item state is stored, with some update time, and the new value is in place.\<close>

definition committed ::
  "('w \<Rightarrow> string \<Rightarrow> bytes option) \<Rightarrow> 'w st \<Rightarrow> ItemState \<Rightarrow> ItemState \<times> bytes option \<Rightarrow> 'w st \<Rightarrow> bool"
  where
  "committed bview s item = (\<lambda>(item', val') t.
     (\<exists>now. item_of (st_db t) =
        (item_of (st_db s))(item_key item \<mapsto> item'\<lparr>it_UpdatedAt := now\<rparr>)) \<and>
     bview (st_world t) = (bview (st_world s))(it_Key item := val'))"

definition unchanged :: "('w \<Rightarrow> string \<Rightarrow> bytes option) \<Rightarrow> 'w st \<Rightarrow> 'w st \<Rightarrow> bool" where
  "unchanged bview s t \<longleftrightarrow> st_db t = st_db s \<and> bview (st_world t) = bview (st_world s)"

text \<open>
  \<open>outcome\<close> describes what a run does to the data of \<open>s\<close>: an error leaves them alone, a
  success commits.
\<close>

definition achieves ::
  "('w \<Rightarrow> string \<Rightarrow> bytes option) \<Rightarrow> 'w st \<Rightarrow> ItemState \<Rightarrow> err + ItemState \<times> bytes option \<Rightarrow>
   ('w st, unit) eff \<Rightarrow> 'w st \<Rightarrow> bool" where
  "achieves bview s item outcome m t \<longleftrightarrow>
     wp m (\<lambda>_ u. \<exists>x. outcome = Inr x \<and> committed bview s item x u)
       (\<lambda>e u. outcome = Inl e \<and> unchanged bview s u) t"

lemma achieves_commit:
  "wp m (\<lambda>_ u. committed bview s item x u) (\<lambda>_ _. False) t \<Longrightarrow>
     achieves bview s item (Inr x) m t"
  unfolding achieves_def by (rule wp_mono) auto

text \<open>The same item, possibly already marked dirty.\<close>

definition same_item :: "ItemState \<Rightarrow> ItemState \<Rightarrow> bool" where
  "same_item item i \<longleftrightarrow> i\<lparr>it_Dirty := it_Dirty item, it_UpdatedAt := it_UpdatedAt item\<rparr> = item"

lemma same_item_fields:
  assumes "same_item item i"
  shows "it_KeyID i = it_KeyID item" "it_NamespaceID i = it_NamespaceID item"
    "it_Collection i = it_Collection item" "it_Key i = it_Key item" "it_ItemID i = it_ItemID item"
    "it_Version i = it_Version item" "it_BaseVersion i = it_BaseVersion item"
    "it_BaseValue i = it_BaseValue item" "it_Conflict i = it_Conflict item"
    "it_ConflictRemoteVersion i = it_ConflictRemoteVersion item"
    "it_ConflictRemoteValue i = it_ConflictRemoteValue item"
  using assms by (cases i; cases item; simp add: same_item_def)+

lemma same_item_marks:
  "same_item item item" "same_item item (markItemDirty now item)"
  by (simp_all add: same_item_def mark_defs)

lemma same_item_outcomes:
  assumes "same_item item i"
  shows "(markItemClean now i v r)\<lparr>it_UpdatedAt := t\<rparr> = (item_at item v r False)\<lparr>it_UpdatedAt := t\<rparr>"
    and "(markItemDirtyWithBase now i v r)\<lparr>it_UpdatedAt := t\<rparr> =
      (item_at item v r True)\<lparr>it_UpdatedAt := t\<rparr>"
    and "(markItemConflict now i v r)\<lparr>it_UpdatedAt := t\<rparr> =
      (item_in_conflict item v r)\<lparr>it_UpdatedAt := t\<rparr>"
    and "item_key (markItemClean now i v r) = item_key item"
    and "item_key (markItemDirtyWithBase now i v r) = item_key item"
    and "item_key (markItemConflict now i v r) = item_key item"
  using same_item_fields [OF assms]
  by (cases i; cases item; simp add: mark_defs item_at_def item_in_conflict_def item_key_def)+

lemma savable_marks:
  assumes "savable d item" and "storable v" and "same_item item i"
  shows "savable d (markItemClean now i v r)" "savable d (markItemDirtyWithBase now i v r)"
    "savable d (markItemConflict now i v r)"
  using assms(1,2) same_item_fields [OF assms(3)]
  by (simp_all add: savable_def item_storable_def mark_defs logical_key_def item_key_def storable_def)

locale synced_collection =
  fixes E :: "'w env"
    and c :: "'w registeredCollection"
    and bview :: "'w \<Rightarrow> string \<Rightarrow> bytes option"
    and valid :: "bytes \<Rightarrow> bool"
  assumes quiet: "undisturbed E bview"
    and get: "rc_get c k w =
      (case bview w k of None \<Rightarrow> Inl (Sentinel ErrNotFound) | Some v \<Rightarrow> Inr v, w)"
    and get_valid: "bview w k = Some v \<Longrightarrow> valid v"
    and set_result: "valid v \<Longrightarrow> (found \<longrightarrow> valid cur) \<Longrightarrow>
      fst (rc_setIfCurrent c k cur found v w) = Inr (bview w k = (if found then Some cur else None))"
    and set_view: "valid v \<Longrightarrow> (found \<longrightarrow> valid cur) \<Longrightarrow>
      bview (snd (rc_setIfCurrent c k cur found v w)) =
        (if bview w k = (if found then Some cur else None) then (bview w)(k \<mapsto> v) else bview w)"
    and merge_valid: "rc_mergeBytes c key base l r = Inr (m, True) \<Longrightarrow> valid m"
begin

lemma wp_time:
  assumes "\<And>now t. idle bview s t \<Longrightarrow> Q now t"
  shows "wp (time_now E) Q X s"
proof -
  obtain now w where now: "env_now E (st_world s) = (now, w)" by fastforce
  then have "bview w = bview (st_world s)"
    using quiet unfolding undisturbed_def by (metis snd_conv)
  then have "idle bview s (s\<lparr>st_world := w\<rparr>)" by (simp add: idle_def)
  with assms now show ?thesis by (simp add: time_now_def wp)
qed

lemma wp_store:
  assumes "\<And>t. idle bview s t \<Longrightarrow> (case m (st_db s) of (r, d) \<Rightarrow>
      (case r of Inl e \<Rightarrow> X e (t\<lparr>st_db := d\<rparr>) | Inr x \<Rightarrow> Q x (t\<lparr>st_db := d\<rparr>)))"
  shows "wp (stored E m) Q X s"
proof -
  obtain f w where fault: "env_db_fault E (st_world s) = (f, w)" by fastforce
  have "fst (env_db_fault E (st_world s)) = None"
    "bview (snd (env_db_fault E (st_world s))) = bview (st_world s)"
    using quiet by (simp_all add: undisturbed_def)
  with fault have "f = None" "idle bview s (s\<lparr>st_world := w\<rparr>)" by (simp_all add: idle_def)
  with assms [of "s\<lparr>st_world := w\<rparr>"] fault show ?thesis
    by (simp add: stored_def wp)
qed

lemma wp_emitItem:
  assumes "\<And>t. idle bview s t \<Longrightarrow> Q () t"
  shows "wp (emitItem E i ty) Q X s"
proof -
  have "wp (emit E ev) Q X s" for ev
    unfolding emit_def bindM_if bindM_assoc bindM_ret wp_if wp_bindM wp_writes
    by (auto intro!: assms wp_time simp: idle_def)
  then show ?thesis by (simp add: emitItem_def)
qed

lemma wp_save:
  assumes "savable (st_db s) i"
    and "\<And>t. saved bview s i t \<Longrightarrow> Q () t"
  shows "wp (store_SaveItem E i) Q X s"
  unfolding store_SaveItem_def wp_bindM
proof (rule wp_time, rule wp_store)
  fix now t u
  assume t: "idle bview s t" and u: "idle bview t u"
  from t assms(1) have "savable (st_db t) i" by (simp add: idle_def)
  then obtain d where d: "SaveItem now i (st_db t) = (Inr (), d)"
    using SaveItem_savable by blast
  have "saved bview s i (u\<lparr>st_db := d\<rparr>)"
    using SaveItem_item_of(1) [OF d] db_wf_SaveItem [of "st_db t" now i] d t u
    by (auto simp: saved_def idle_def)
  with d show "case SaveItem now i (st_db t) of (r, d) \<Rightarrow>
      (case r of Inl e \<Rightarrow> X e (u\<lparr>st_db := d\<rparr>) | Inr x \<Rightarrow> Q x (u\<lparr>st_db := d\<rparr>))"
    by (simp add: assms(2))
qed

lemma wp_save_emit:
  assumes "savable (st_db s) i"
    and "\<And>t. saved bview s i t \<Longrightarrow> Q () t"
  shows "wp (seqM (store_SaveItem E i) (emitItem E i ty)) Q X s"
    and "wp (seqM (store_SaveItem E i) (seqM (emitItem E i ty) (emitItem E i ty'))) Q X s"
proof -
  have emitted: "Q () u" if "saved bview s i t" and "idle bview t u" for t u
    using that by (intro assms(2)) (auto simp: saved_def idle_def)
  show "wp (seqM (store_SaveItem E i) (emitItem E i ty)) Q X s"
    unfolding wp_seqM by (intro wp_save assms(1) wp_emitItem) (rule emitted)
  show "wp (seqM (store_SaveItem E i) (seqM (emitItem E i ty) (emitItem E i ty'))) Q X s"
    unfolding wp_seqM by (intro wp_save assms(1) wp_emitItem) (blast intro: emitted idle_trans)
qed

text \<open>The collection is registered for the item.\<close>

lemma wp_current:
  assumes "map_of (st_collections s)
      (collectionRegistryKey (it_NamespaceID i) (it_Collection i)) = Some c"
  shows "wp (itemCurrentValue i) Q X s = (case bview (st_world s) (it_Key i) of
      None \<Rightarrow> X (Sentinel ErrNotFound) s | Some v \<Rightarrow> Q v s)"
  using assms
  by (auto simp: itemCurrentValue_def collectionRegistration_def wp get split: option.splits)

text \<open>
  A conditional write that still sees the value it read writes; one that does not changes
  nothing. \<open>wrote\<close> is the state after the first.
\<close>

lemma wp_set_current:
  assumes "map_of (st_collections s)
      (collectionRegistryKey (it_NamespaceID i) (it_Collection i)) = Some c"
    and "valid v" and "found \<longrightarrow> valid cur"
    and "\<And>t r. st_db t = st_db s \<Longrightarrow> st_collections t = st_collections s \<Longrightarrow>
      (if bview (st_world s) (it_Key i) = (if found then Some cur else None)
       then bview (st_world t) = (bview (st_world s))(it_Key i \<mapsto> v) \<and> r = True
       else bview (st_world t) = bview (st_world s) \<and> r = False) \<Longrightarrow> Q r t"
  shows "wp (setItemCurrentValueIfCurrent i cur found v) Q X s"
proof -
  obtain r w where run: "rc_setIfCurrent c (it_Key i) cur found v (st_world s) = (r, w)" by fastforce
  have r: "r = Inr (bview (st_world s) (it_Key i) = (if found then Some cur else None))"
    using set_result [OF assms(2,3), of "it_Key i" "st_world s"] run by simp
  have "bview w = (if bview (st_world s) (it_Key i) = (if found then Some cur else None)
      then (bview (st_world s))(it_Key i \<mapsto> v) else bview (st_world s))"
    using set_view [OF assms(2,3), of "it_Key i" "st_world s"] run by simp
  then have "Q (bview (st_world s) (it_Key i) = (if found then Some cur else None)) (s\<lparr>st_world := w\<rparr>)"
    using assms(4) [of "s\<lparr>st_world := w\<rparr>"
        "bview (st_world s) (it_Key i) = (if found then Some cur else None)"]
    by simp
  then show ?thesis
    using assms(1) run r
    by (simp add: setItemCurrentValueIfCurrent_def collectionRegistration_def wp split: if_splits)
qed

lemma committed_saved:
  assumes "saved bview u i t" and "st_db u = st_db s"
    and "bview (st_world u) = (bview (st_world s))(it_Key item := val)"
    and "item_key i = item_key item"
    and "\<And>now. i\<lparr>it_UpdatedAt := now\<rparr> = item'\<lparr>it_UpdatedAt := now\<rparr>"
  shows "committed bview s item (item', val) t"
  using assms by (auto simp: saved_def committed_def)

lemma clean_performs:
  assumes reg: "map_of (st_collections s)
      (collectionRegistryKey (it_NamespaceID item) (it_Collection item)) = Some c"
    and "savable (st_db s) item" and "storable v" and i: "same_item item i" and "valid remote"
    and cur: "bview (st_world s) (it_Key item) = (if found then Some cur else None)"
    and t: "idle bview s t"
  shows "wp (applyCleanRemoteValue E i v remote cur found)
    (\<lambda>_ u. committed bview s item (item_at item v remote False, Some remote) u) X t"
proof -
  note fields = same_item_fields [OF i]
  have valid: "found \<longrightarrow> valid cur" using cur get_valid by auto
  show ?thesis
    unfolding applyCleanRemoteValue_def wp_bindM
  proof (rule wp_set_current [OF _ \<open>valid remote\<close> valid])
    show "map_of (st_collections t)
        (collectionRegistryKey (it_NamespaceID i) (it_Collection i)) = Some c"
      using reg t by (simp add: fields idle_def)
    fix u :: "'w st" and r :: bool
    assume u: "st_db u = st_db t" "st_collections u = st_collections t"
      and world: "if bview (st_world t) (it_Key i) = (if found then Some cur else None)
        then bview (st_world u) = (bview (st_world t))(it_Key i \<mapsto> remote) \<and> r = True
        else bview (st_world u) = bview (st_world t) \<and> r = False"
    then have u': "r" "bview (st_world u) = (bview (st_world s))(it_Key item \<mapsto> remote)"
      "st_db u = st_db s"
      using cur t by (simp_all add: fields idle_def split: if_splits)
    have "wp (seqM (store_SaveItem E (markItemClean now i v remote))
        (seqM (emitItem E (markItemClean now i v remote) EventItemChanged)
           (emitItem E (markItemClean now i v remote) EventItemDownloaded)))
        (\<lambda>_ u. committed bview s item (item_at item v remote False, Some remote) u) X x"
      if "idle bview u x" for now x
    proof (rule wp_save_emit(2))
      show "savable (st_db x) (markItemClean now i v remote)"
        using assms(2,3) i that u' by (simp add: savable_marks idle_def)
      show "committed bview s item (item_at item v remote False, Some remote) y"
        if "saved bview x (markItemClean now i v remote) y" for y
        using that
        by (rule committed_saved)
          (use u' \<open>idle bview u x\<close> in \<open>simp_all add: same_item_outcomes [OF i] idle_def\<close>)
    qed
    then show "wp (if \<not> r then keepDirtyAfterValueRace E i
        else bindM (time_now E) (\<lambda>now.
          let item = markItemClean now i v remote
          in seqM (store_SaveItem E item)
             (seqM (emitItem E item EventItemChanged) (emitItem E item EventItemDownloaded))))
        (\<lambda>_ u. committed bview s item (item_at item v remote False, Some remote) u) X u"
      using u'(1) by (simp add: wp_bindM Let_def) (intro wp_time)
  qed
qed

lemma wp_applyMerge:
  assumes "map_of (st_collections s) (collectionRegistryKey ns collection) = Some c"
  shows "wp (applyMerge ns collection k base l r) Q X s =
    (case rc_mergeBytes c k base l r of Inl e \<Rightarrow> X e s | Inr x \<Rightarrow> Q x s)"
  using assms by (simp add: applyMerge_def collectionRegistration_def wp)

lemma saves_achieve:
  fixes s t :: "'w st"
  assumes t: "st_db t = st_db s" "bview (st_world t) = (bview (st_world s))(it_Key item := val)"
    and f: "\<And>now. savable (st_db s) (f now)" "\<And>now. item_key (f now) = item_key item"
      "\<And>now time. (f now)\<lparr>it_UpdatedAt := time\<rparr> = new\<lparr>it_UpdatedAt := time\<rparr>"
  shows "achieves bview s item (Inr (new, val)) (bindM (time_now E) (\<lambda>now. saveApplied E (f now))) t"
proof (rule achieves_commit, unfold wp_bindM saveApplied_def, rule wp_time, rule wp_save_emit(1))
  fix now u v
  assume u: "idle bview t u"
  with t f(1) show "savable (st_db u) (f now)" by (simp add: idle_def)
  assume "saved bview u (f now) v"
  then show "committed bview s item (new, val) v"
    by (rule committed_saved) (use t u f in \<open>simp_all add: idle_def\<close>)
qed

lemma merge_achieves:
  fixes s t :: "'w st"
  assumes reg: "map_of (st_collections s)
      (collectionRegistryKey (it_NamespaceID item) (it_Collection item)) = Some c"
    and ready: "savable (st_db s) item" "storable v" and i: "same_item item i"
    and valid: "valid remote" and ns: "ns_NamespaceID n = it_NamespaceID item"
    and cur: "bview (st_world s) (it_Key item) = Some l"
    and t: "idle bview s t"
  shows "achieves bview s item (merge_spec (rc_mergeBytes c (it_Key item)) item l v remote)
    (mergeRemoteValue E n i v remote l) t"
proof (cases "l = remote")
  case True
  then show ?thesis
    using clean_performs [OF reg ready i valid, where found = True and cur = l and t = t] cur t
    by (simp add: mergeRemoteValue_def merge_spec_def achieves_commit)
next
  case False
  note fields = same_item_fields [OF i]
  have regt: "map_of (st_collections t)
      (collectionRegistryKey (it_NamespaceID i) (it_Collection i)) = Some c"
    using reg t by (simp add: fields idle_def)
  have base: "(if hasMergeBase i then Some (it_BaseValue i) else None) =
      (if hasMergeBase item then Some (it_BaseValue item) else None)"
    by (simp add: hasMergeBase_def fields)
  let ?outcome = "merge_spec (rc_mergeBytes c (it_Key item)) item l v remote"
  let ?merge = "rc_mergeBytes c (it_Key item)
      (if hasMergeBase item then Some (it_BaseValue item) else None) l remote"
  let ?run = "\<lambda>m x. wp m (\<lambda>_ u. \<exists>x. ?outcome = Inr x \<and> committed bview s item x u)
      (\<lambda>e u. ?outcome = Inl e \<and> unchanged bview s u) x"
  show ?thesis
  proof (cases ?merge)
    case (Inl e)
    with False t show ?thesis
      by (simp add: achieves_def mergeRemoteValue_def merge_spec_def wp_bindM base
          wp_applyMerge [OF regt [unfolded fields]] ns fields idle_def unchanged_def)
  next
    case (Inr x)
    obtain m resolved where x: "x = (m, resolved)" by (cases x)
    show ?thesis
    proof (cases resolved)
      case resolved: False
      have "achieves bview s item (Inr (item_in_conflict item v remote, Some l))
          (bindM (time_now E) (\<lambda>now. saveApplied E (markItemConflict now i v remote))) t"
        by (rule saves_achieve) (use t cur in \<open>simp_all add: idle_def savable_marks [OF ready i]
            same_item_outcomes [OF i] fun_upd_idem\<close>)
      with False Inr x resolved show ?thesis
        by (simp add: achieves_def mergeRemoteValue_def merge_spec_def base fields ns
            wp_bindM [where m = "applyMerge _ _ _ _ _ _"] wp_applyMerge [OF regt [unfolded fields]])
    next
      case resolved: True
      have "?merge = Inr (m, True)" using Inr x resolved by simp
      then have m: "valid m" by (rule merge_valid)
      have l: "True \<longrightarrow> valid l" using get_valid cur by blast
      let ?item = "\<lambda>now. if m = remote then markItemClean now i v remote
          else markItemDirtyWithBase now i v remote"
      have "?run (bindM (setItemCurrentValueIfCurrent i l True m) (\<lambda>replaced.
          if \<not> replaced then keepDirtyAfterValueRace E i
          else bindM (time_now E) (\<lambda>now. saveApplied E (?item now)))) t"
        unfolding wp_bindM [where m = "setItemCurrentValueIfCurrent i l True m"]
      proof (rule wp_set_current [OF regt m l])
        fix u :: "'w st" and r :: bool
        assume u: "st_db u = st_db t" "st_collections u = st_collections t"
          and world: "if bview (st_world t) (it_Key i) = (if True then Some l else None)
            then bview (st_world u) = (bview (st_world t))(it_Key i \<mapsto> m) \<and> r = True
            else bview (st_world u) = bview (st_world t) \<and> r = False"
        then have u': "r" "bview (st_world u) = (bview (st_world s))(it_Key item \<mapsto> m)"
          "st_db u = st_db s"
          using cur t by (simp_all add: fields idle_def split: if_splits)
        have "achieves bview s item (Inr (item_at item v remote (m \<noteq> remote), Some m))
            (bindM (time_now E) (\<lambda>now. saveApplied E (?item now))) u"
          by (rule saves_achieve) (use u' in \<open>simp_all add: savable_marks [OF ready i]
              same_item_outcomes [OF i]\<close>)
        then have "?run (bindM (time_now E) (\<lambda>now. saveApplied E (?item now))) u"
          using Inr x resolved False by (simp add: achieves_def merge_spec_def)
        with u'(1) show "?run (if \<not> r then keepDirtyAfterValueRace E i
            else bindM (time_now E) (\<lambda>now. saveApplied E (?item now))) u" by simp
      qed
      with False Inr x resolved show ?thesis
        by (simp add: achieves_def mergeRemoteValue_def merge_spec_def base fields ns
            wp_bindM [where m = "applyMerge _ _ _ _ _ _"] wp_applyMerge [OF regt [unfolded fields]])
    qed
  qed
qed

theorem applyRemoteValueLocked_achieves:
  assumes reg: "map_of (st_collections s)
      (collectionRegistryKey (it_NamespaceID item) (it_Collection item)) = Some c"
    and ready: "savable (st_db s) item" "storable v"
    and valid: "valid remote" and ns: "ns_NamespaceID n = it_NamespaceID item"
  shows "achieves bview s item
    (apply_spec (rc_mergeBytes c (it_Key item)) item (bview (st_world s) (it_Key item)) v remote)
    (applyRemoteValueLocked E n item v remote) s"
proof -
  have refl: "idle bview s s" by (simp add: idle_def)
  note same = same_item_marks
  show ?thesis
  proof (cases "it_Conflict item")
    case True
    have run: "applyRemoteValueLocked E n item v remote =
        bindM (time_now E) (\<lambda>now. saveApplied E (markItemConflict now item v remote))"
      using True by (simp add: applyRemoteValueLocked_def saveApplied_def Let_def)
        (simp add: mark_defs)
    show ?thesis
      unfolding run apply_spec_def if_P [OF True]
      by (rule saves_achieve) (simp_all add: savable_marks [OF ready same(1)]
          same_item_outcomes [OF same(1)])
  next
    case no_conflict: False
    show ?thesis
    proof (cases "bview (st_world s) (it_Key item)")
      case None
      then show ?thesis
        using no_conflict clean_performs [OF reg ready same(1) valid, where found = False and t = s]
          refl
        by (simp add: achieves_def applyRemoteValueLocked_def apply_spec_def wp_attempt wp_bindM
            wp_current [OF reg] unchanged_def)
    next
      case (Some l)
      show ?thesis
      proof (cases "local_edit item l")
        case False
        then show ?thesis
          using no_conflict Some refl clean_performs [OF reg ready same(1) valid, where found = True
              and cur = l and t = s]
          by (simp add: achieves_def applyRemoteValueLocked_def apply_spec_def wp_attempt wp_bindM
              wp_current [OF reg] local_edit_def)
      next
        case True
        have "achieves bview s item (merge_spec (rc_mergeBytes c (it_Key item)) item l v remote)
            (mergeRemoteValue E n i v remote l) t"
          if "same_item item i" "idle bview s t" for i and t :: "'w st"
          using that Some by (intro merge_achieves [OF reg ready _ valid ns]) simp_all
        note merges = this [OF same(1) refl] this [OF same(2)]
        show ?thesis
        proof (cases "it_Dirty item")
          case dirty: True
          show ?thesis
            using True no_conflict Some dirty merges(1)
            by (simp add: achieves_def applyRemoteValueLocked_def apply_spec_def wp_bindM
                wp_current [OF reg])
        next
          case clean: False
          with True have differs: "\<not> (hasMergeBase item \<and> l = it_BaseValue item)"
            by (simp add: local_edit_def)
          show ?thesis
            using True no_conflict Some clean merges(2)
            by (simp add: achieves_def applyRemoteValueLocked_def apply_spec_def wp_attempt wp_bindM
                wp_current [OF reg] wp_time if_not_P [OF differs])
        qed
      qed
    qed
  qed
qed

text \<open>The application changed the value since it was read: nothing is lost.\<close>

lemma race_keeps_value:
  assumes reg: "map_of (st_collections s)
      (collectionRegistryKey (it_NamespaceID item) (it_Collection item)) = Some c"
    and ready: "savable (st_db s) item"
    and valid: "valid remote" "found \<longrightarrow> valid cur"
    and race: "bview (st_world s) (it_Key item) \<noteq> (if found then Some cur else None)"
  shows "achieves bview s item
    (Inr (item\<lparr>it_Dirty := True\<rparr>, bview (st_world s) (it_Key item)))
    (applyCleanRemoteValue E item v remote cur found) s"
  unfolding applyCleanRemoteValue_def
proof (rule achieves_commit, unfold wp_bindM, rule wp_set_current [OF reg valid])
  let ?done = "\<lambda>_. committed bview s item
      (item\<lparr>it_Dirty := True\<rparr>, bview (st_world s) (it_Key item))"
  fix t :: "'w st" and r :: bool
  assume t: "st_db t = st_db s" "st_collections t = st_collections s"
    and "if bview (st_world s) (it_Key item) = (if found then Some cur else None)
      then bview (st_world t) = (bview (st_world s))(it_Key item \<mapsto> remote) \<and> r = True
      else bview (st_world t) = bview (st_world s) \<and> r = False"
  with race have r: "\<not> r" "bview (st_world t) = bview (st_world s)" by simp_all
  have "wp (keepDirtyAfterValueRace E item) ?done (\<lambda>_ _. False) t"
    unfolding keepDirtyAfterValueRace_def wp_bindM Let_def
  proof (rule wp_time, rule wp_save_emit(1))
    fix now u w
    assume u: "idle bview t u"
    with t ready show "savable (st_db u) (markItemDirty now item)"
      by (simp add: idle_def savable_def item_storable_def mark_defs logical_key_def item_key_def)
    assume "saved bview u (markItemDirty now item) w"
    then show "?done () w"
      by (rule committed_saved)
        (use t u r in \<open>simp_all add: idle_def mark_defs item_key_def\<close>)
  qed
  with r(1) show "wp (if \<not> r then keepDirtyAfterValueRace E item
      else bindM (time_now E) (\<lambda>now.
        let item = markItemClean now item v remote
        in seqM (store_SaveItem E item)
           (seqM (emitItem E item EventItemChanged) (emitItem E item EventItemDownloaded))))
      ?done (\<lambda>_ _. False) t"
    by simp
qed

end

section \<open>Typed collections\<close>

text \<open>
  Any typed collection over a conditional backend and a codec that encodes every value and
  accepts only what it encodes is such a collection, through the byte view of its values.
\<close>

locale typed_collection =
  conditional_backend backend setif view + value_codec codec
  for backend :: "('w, 't) ValueBackend"
    and setif :: "string \<Rightarrow> 't \<Rightarrow> bool \<Rightarrow> 't \<Rightarrow> ('w, bool) eff"
    and view :: "'w \<Rightarrow> string \<Rightarrow> 't option"
    and codec :: "'t Codec" +
  fixes E :: "'w env"
  assumes total: "\<exists>b. cd_Encode codec v = Inr b"
    and quiet: "undisturbed E view"
begin

lemma byte_view_cong: "view w' = view w \<Longrightarrow> byte_view codec view w' = byte_view codec view w"
  by (simp add: byte_view_def fun_eq_iff)

lemma byte_view_at:
  shows "view w k = None \<Longrightarrow> byte_view codec view w k = None"
    and "view w k = Some v \<Longrightarrow> \<exists>b. byte_view codec view w k = Some b \<and> cd_Decode codec b = Inr v"
  using total [of v] by (auto simp: byte_view_def decode_encode)

lemma byte_view_Some:
  "byte_view codec view w k = Some b \<longleftrightarrow> (\<exists>v. view w k = Some v \<and> cd_Decode codec b = Inr v)"
proof (cases "view w k")
  case (Some v)
  then show ?thesis
    using total [of v] by (auto simp: byte_view_def decode_encode dest: encode_decode)
qed (simp add: byte_view_at(1))

lemma byte_view_None: "byte_view codec view w k = None \<longleftrightarrow> view w k = None"
proof (cases "view w k")
  case (Some v)
  then show ?thesis using byte_view_at(2) [OF Some] by auto
qed (simp add: byte_view_at(1))

lemma byte_view_upd:
  assumes "view w' = (view w)(k \<mapsto> v)" and "cd_Decode codec b = Inr v"
  shows "byte_view codec view w' = (byte_view codec view w)(k \<mapsto> b)"
  using assms by (auto simp: byte_view_def encode_decode)

lemma current_matches:
  assumes "found \<longrightarrow> cd_Decode codec cur = Inr v"
  shows "byte_view codec view w k = (if found then Some cur else None) \<longleftrightarrow>
    view w k = (if found then Some v else None)"
  using assms by (auto simp: byte_view_Some byte_view_None)

lemma registered_synced:
  "synced_collection E (makeRegisteredCollection ns name codec merge backend zero)
     (byte_view codec view) (decodes codec)"
proof
  let ?c = "makeRegisteredCollection ns name codec merge backend zero"
  show "undisturbed E (byte_view codec view)"
    using quiet unfolding undisturbed_def by (auto intro: byte_view_cong)
  show "rc_get ?c k w = (case byte_view codec view w k of
      None \<Rightarrow> Inl (Sentinel ErrNotFound) | Some v \<Rightarrow> Inr v, w)" for k w
  proof (cases "view w k")
    case None
    then show ?thesis by (simp add: makeRegisteredCollection_def bindM_def get byte_view_def)
  next
    case (Some v)
    obtain b where "cd_Encode codec v = Inr b" using total by blast
    with Some show ?thesis
      by (simp add: makeRegisteredCollection_def bindM_def get byte_view_def lift_result_def)
  qed
  show "decodes codec v" if "byte_view codec view w k = Some v" for w k v
    using that by (auto simp: byte_view_Some decodes_def)
  fix v cur :: bytes and found :: bool and k w
  assume "decodes codec v" and "found \<longrightarrow> decodes codec cur"
  then obtain x y where x: "cd_Decode codec v = Inr x" and y: "found \<longrightarrow> cd_Decode codec cur = Inr y"
    by (auto simp: decodes_def)
  have run: "rc_setIfCurrent ?c k cur found v w = setif k (if found then y else zero) found x w"
    using x y by (simp add: makeRegisteredCollection_def setif lift_result_def bindM_def ret_def)
  show "fst (rc_setIfCurrent ?c k cur found v w) =
      Inr (byte_view codec view w k = (if found then Some cur else None))"
    unfolding run current_matches [OF y] by (simp add: setif_result)
  show "byte_view codec view (snd (rc_setIfCurrent ?c k cur found v w)) =
      (if byte_view codec view w k = (if found then Some cur else None)
       then (byte_view codec view w)(k \<mapsto> v) else byte_view codec view w)"
    unfolding run current_matches [OF y]
    using setif_view [of k "if found then y else zero" found x w]
    by (cases "view w k = (if found then Some y else None)")
      (auto intro: byte_view_upd [OF _ x] byte_view_cong split: if_splits)
next
  fix key base l r m
  assume "rc_mergeBytes (makeRegisteredCollection ns name codec merge backend zero) key base l r =
      Inr (m, True)"
  then obtain v where "cd_Encode codec v = Inr m"
    by (auto simp: makeRegisteredCollection_def makeMergeBytes_def bindR_eq_Inr
        split: if_splits sum.splits)
  then show "decodes codec m" by (auto simp: decodes_def dest: decode_encode)
qed

end

sublocale typed_collection \<subseteq>
  registered: synced_collection E "makeRegisteredCollection ns name codec merge backend zero"
    "byte_view codec view" "decodes codec" for ns name merge zero
  by (rule registered_synced)

text \<open>An application that keeps strings in the memory backend.\<close>

definition ex_app_env :: "string memory env" where
  "ex_app_env =
     \<lparr>env_cfg = ex_config, env_crypto = inj_crypto, env_keyIDRaw = replicate 32 (CHR 0x08),
      env_identity = ex_identity, env_now = (\<lambda>w. (77, w)),
      env_rand = (\<lambda>n w. (replicate n (CHR 0x09), w)), env_db_fault = (\<lambda>w. (None, w)),
      env_http = (\<lambda>req. ret \<lparr>rs_status = 500, rs_message = [], rs_body = Inr NoContent\<rparr>)\<rparr>"

lemma ex_app_undisturbed: "undisturbed ex_app_env map_of"
  by (simp add: undisturbed_def ex_app_env_def)

interpretation app: typed_collection MemoryValueBackend mem_SetIfCurrent map_of StringCodec ex_app_env
  by unfold_locales (simp_all add: ex_app_undisturbed StringCodec_def codecFunc_def)

end
