(* ===== verification/Apply_Properties.thy ===== *)
theory Apply_Properties
  imports Apply_Spec
begin

text \<open>
  Properties of the application of a remote value (\<open>applyRemoteValueLocked\<close> and below in
  \<open>src/bitboxsync/engine_items.go\<close>): the code refines the specification of \<open>Apply_Spec\<close> for
  every typed collection, local edits are not lost, and a change of the application that
  races with the write is kept and queued.
\<close>

text \<open>A stored item whose collection is registered over a conditional backend.\<close>

definition managed_item ::
  "'w env \<Rightarrow> 't Codec \<Rightarrow> 't MergeFunc \<Rightarrow> ('w, 't) ValueBackend \<Rightarrow> ('w \<Rightarrow> string \<Rightarrow> 't option) \<Rightarrow>
   'w st \<Rightarrow> ItemState \<Rightarrow> bool" where
  "managed_item E codec merge backend view s item \<longleftrightarrow>
     (\<exists>setif. conditional_backend backend setif view) \<and> value_codec codec \<and>
     (\<forall>v. \<exists>b. cd_Encode codec v = Inr b) \<and> undisturbed E view \<and>
     db_wf (st_db s) \<and> item_of (st_db s) (item_key item) = Some item \<and>
     (\<exists>ns name zero. map_of (st_collections s)
        (collectionRegistryKey (it_NamespaceID item) (it_Collection item)) =
        Some (makeRegisteredCollection ns name codec merge backend zero))"

lemma managed_item_synced:
  assumes "managed_item E codec merge backend view s item"
  obtains c where "synced_collection E c (byte_view codec view) (decodes codec)"
    and "map_of (st_collections s)
      (collectionRegistryKey (it_NamespaceID item) (it_Collection item)) = Some c"
    and "rc_mergeBytes c = makeMergeBytes codec merge" and "savable (st_db s) item"
proof -
  from assms obtain setif ns name zero where tc: "typed_collection backend setif view codec E"
    and c: "map_of (st_collections s)
        (collectionRegistryKey (it_NamespaceID item) (it_Collection item)) =
        Some (makeRegisteredCollection ns name codec merge backend zero)"
    by (auto simp: managed_item_def typed_collection_def typed_collection_axioms_def)
  have "savable (st_db s) item" using assms stored_savable by (simp add: managed_item_def)
  then show thesis
    using that [OF typed_collection.registered_synced [OF tc] c]
    by (simp add: makeRegisteredCollection_def)
qed

lemma achieves_run:
  assumes "achieves bview s item outcome m s"
  shows "case m s of
      (Inl e, t) \<Rightarrow> outcome = Inl e \<and> unchanged bview s t
    | (Inr _, t) \<Rightarrow> \<exists>x. outcome = Inr x \<and> committed bview s item x t"
  using assms by (auto simp: achieves_def wp_def split: prod.splits sum.splits)

lemma remote_applied:
  assumes "managed_item E codec merge backend view s item"
    and "storable version" and "decodes codec remote" and "ns_NamespaceID n = it_NamespaceID item"
  shows "case applyRemoteValueLocked E n item version remote s of
      (Inl e, t) \<Rightarrow>
        apply_spec (makeMergeBytes codec merge (it_Key item)) item
          (byte_view codec view (st_world s) (it_Key item)) version remote = Inl e \<and>
        unchanged (byte_view codec view) s t
    | (Inr _, t) \<Rightarrow>
        \<exists>x. apply_spec (makeMergeBytes codec merge (it_Key item)) item
            (byte_view codec view (st_world s) (it_Key item)) version remote = Inr x \<and>
          committed (byte_view codec view) s item x t"
proof -
  obtain c where c: "synced_collection E c (byte_view codec view) (decodes codec)"
    and reg: "map_of (st_collections s)
      (collectionRegistryKey (it_NamespaceID item) (it_Collection item)) = Some c"
    and merge: "rc_mergeBytes c = makeMergeBytes codec merge" and "savable (st_db s) item"
    using managed_item_synced [OF assms(1)] .
  from synced_collection.applyRemoteValueLocked_achieves [OF c reg this(4) assms(2-4)]
  show ?thesis unfolding merge by (rule achieves_run)
qed


definition ex_app_state :: "string memory \<Rightarrow> string memory st" where
  "ex_app_state w =
     \<lparr>st_db = ex_item_db, st_identity = ex_identity_state,
      st_collections = [(collectionRegistryKey ''ns'' ''notes'',
        makeRegisteredCollection ''ns'' ''notes'' StringCodec NoMerge MemoryValueBackend [])],
      st_events = [], st_requests = [], st_activitySeq = 0, st_idlePolling = False,
      st_wakeSync = False, st_loginSucceededRun = False, st_loginSucceededWatch = False,
      st_eventsClosed = False, st_closed = False, st_world = w\<rparr>"

definition ex_namespace :: NamespaceState where
  "ex_namespace = new_namespace (env_keyID ex_env) ''ns'' ex_dek"

lemma ex_managed:
  "managed_item ex_app_env StringCodec NoMerge MemoryValueBackend map_of (ex_app_state w) ex_stored_item"
proof -
  have "conditional_backend MemoryValueBackend mem_SetIfCurrent map_of" ..
  moreover have "value_codec StringCodec" ..
  moreover have "it_NamespaceID ex_stored_item = ''ns''" "it_Collection ex_stored_item = ''notes''"
    by (simp_all add: ex_stored_item_def new_item_def)
  ultimately show ?thesis
    using ex_app_undisturbed ex_item_db(2,4)
    by (auto simp: managed_item_def ex_app_state_def StringCodec_def codecFunc_def)
qed

lemma ex_apply_hyps:
  "storable 4" "decodes StringCodec b" "ns_NamespaceID ex_namespace = it_NamespaceID ex_stored_item"
  by (simp_all add: storable_def decodes_def StringCodec_def codecFunc_def ex_namespace_def
      new_namespace_def ex_stored_item_def new_item_def)

lemma ex_conflict_spec:
  "apply_spec (makeMergeBytes StringCodec NoMerge (it_Key ex_stored_item)) ex_stored_item
      (byte_view StringCodec map_of (st_world (ex_app_state [(''a'', ''mine'')]))
        (it_Key ex_stored_item)) 4 ''theirs'' =
    Inr (item_in_conflict ex_stored_item 4 ''theirs'', Some ''mine'')"
  by (simp add: apply_spec_def merge_spec_def local_edit_def hasMergeBase_def ex_stored_item_def
      new_item_def byte_view_def StringCodec_def codecFunc_def makeMergeBytes_def NoMerge_def
      ex_app_state_def)

lemma ex_conflict_run:
  "\<exists>t. applyRemoteValueLocked ex_app_env ex_namespace ex_stored_item 4 ''theirs''
      (ex_app_state [(''a'', ''mine'')]) = (Inr (), t)"
  using remote_applied [OF ex_managed [of "[(''a'', ''mine'')]"] ex_apply_hyps(1,2,3), of "''theirs''"]
    ex_conflict_spec
  by (simp split: prod.splits sum.splits)


text \<open>C2: A local edit survives a newer remote value: after a successful application the value
  is still there and the item is in conflict with the remote value, or it was replaced by what
  the application's merge function made of both, and is queued for upload unless that is the
  remote value itself.\<close>

theorem local_edit_protected:
  assumes "managed_item E codec merge backend view s item"
    and "storable version" and "decodes codec remote" and "ns_NamespaceID n = it_NamespaceID item"
    and "byte_view codec view (st_world s) (it_Key item) = Some val"
    and "local_edit item val" and "val \<noteq> remote"
    and "applyRemoteValueLocked E n item version remote s = (Inr (), t)"
  shows "\<exists>i. item_of (st_db t) (item_key item) = Some i \<and>
    (byte_view codec view (st_world t) (it_Key item) = Some val \<and>
       it_Dirty i \<and> it_Conflict i \<and> it_ConflictRemoteValue i = remote \<or>
     (\<exists>m. makeMergeBytes codec merge (it_Key item)
         (if hasMergeBase item then Some (it_BaseValue item) else None) val remote = Inr (m, True) \<and>
       byte_view codec view (st_world t) (it_Key item) = Some m \<and>
       it_BaseValue i = remote \<and> (it_Dirty i \<longleftrightarrow> m \<noteq> remote)))"
proof -
  let ?merge = "makeMergeBytes codec merge (it_Key item)"
  obtain i' val' where spec: "apply_spec ?merge item (Some val) version remote = Inr (i', val')"
    and commit: "committed (byte_view codec view) s item (i', val') t"
    using remote_applied [OF assms(1-4)] assms(5,8) by auto
  from commit obtain now where
    "item_of (st_db t) (item_key item) = Some (i'\<lparr>it_UpdatedAt := now\<rparr>)"
    "byte_view codec view (st_world t) (it_Key item) = val'"
    by (auto simp: committed_def)
  moreover have "val' = Some val \<and> i' = item_in_conflict item version remote \<or>
      (\<exists>m. ?merge (if hasMergeBase item then Some (it_BaseValue item) else None) val remote =
          Inr (m, True) \<and> val' = Some m \<and> i' = item_at item version remote (m \<noteq> remote))"
    using spec assms(6,7)
    by (cases "?merge (if hasMergeBase item then Some (it_BaseValue item) else None) val remote")
      (auto simp: apply_spec_def merge_spec_def split: if_splits prod.splits)
  ultimately show ?thesis
    by (auto simp: item_in_conflict_def item_at_def)
qed

theorem local_edit_protected_witness:
  "\<exists>t i. applyRemoteValueLocked ex_app_env ex_namespace ex_stored_item 4 ''theirs''
       (ex_app_state [(''a'', ''mine'')]) = (Inr (), t) \<and>
     item_of (st_db t) (item_key ex_stored_item) = Some i \<and> it_Dirty i \<and> it_Conflict i \<and>
     byte_view StringCodec map_of (st_world t) (it_Key ex_stored_item) = Some ''mine''"
proof -
  let ?s = "ex_app_state [(''a'', ''mine'')]"
  have cur: "byte_view StringCodec map_of (st_world ?s) (it_Key ex_stored_item) = Some ''mine''"
    and edit: "local_edit ex_stored_item ''mine''"
    by (simp_all add: ex_app_state_def byte_view_def StringCodec_def codecFunc_def
        ex_stored_item_def new_item_def local_edit_def)
  have unresolved: "makeMergeBytes StringCodec NoMerge k (Some b) l r \<noteq> Inr (m, True)" for k b l r m
    by (simp add: makeMergeBytes_def NoMerge_def StringCodec_def codecFunc_def)
  have base: "hasMergeBase ex_stored_item"
    by (simp add: hasMergeBase_def ex_stored_item_def new_item_def)
  obtain t where run: "applyRemoteValueLocked ex_app_env ex_namespace ex_stored_item 4 ''theirs'' ?s =
      (Inr (), t)"
    using ex_conflict_run by blast
  from local_edit_protected [OF ex_managed ex_apply_hyps(1,2,3) cur edit _ run] run unresolved base
  show ?thesis by auto
qed

text \<open>C3: When the application changed the value between the engine's read and its conditional
  write, the write does not happen: the new value stays, nothing but the item changes, and the
  item is queued for upload, still at its old version and base.\<close>

theorem concurrent_change_kept:
  assumes "managed_item E codec merge backend view s item"
    and "decodes codec remote" and "found \<longrightarrow> decodes codec cur"
    and "byte_view codec view (st_world s) (it_Key item) \<noteq> (if found then Some cur else None)"
  shows "\<exists>t. applyCleanRemoteValue E item version remote cur found s = (Inr (), t) \<and>
    committed (byte_view codec view) s item
      (item\<lparr>it_Dirty := True\<rparr>, byte_view codec view (st_world s) (it_Key item)) t"
proof -
  obtain c where c: "synced_collection E c (byte_view codec view) (decodes codec)"
    and reg: "map_of (st_collections s)
      (collectionRegistryKey (it_NamespaceID item) (it_Collection item)) = Some c"
    and ready: "savable (st_db s) item"
    using managed_item_synced [OF assms(1)] .
  obtain r t where "applyCleanRemoteValue E item version remote cur found s = (r, t)" by fastforce
  with achieves_run [OF synced_collection.race_keeps_value [OF c reg ready assms(2-4)],
      where v1 = version]
  show ?thesis by (cases r) simp_all
qed

theorem concurrent_change_kept_witness:
  "\<exists>t. applyCleanRemoteValue ex_app_env ex_stored_item 4 ''theirs'' ''old'' True
       (ex_app_state [(''a'', ''newer'')]) = (Inr (), t) \<and>
     byte_view StringCodec map_of (st_world t) (it_Key ex_stored_item) = Some ''newer''"
proof -
  let ?s = "ex_app_state [(''a'', ''newer'')]"
  have cur: "byte_view StringCodec map_of (st_world ?s) (it_Key ex_stored_item) = Some ''newer''"
    by (simp add: ex_app_state_def byte_view_def StringCodec_def codecFunc_def
        ex_stored_item_def new_item_def)
  then have race: "byte_view StringCodec map_of (st_world ?s) (it_Key ex_stored_item) \<noteq>
      (if True then Some ''old'' else None)" by simp
  have "True \<longrightarrow> decodes StringCodec ''old''" by (simp add: ex_apply_hyps(2))
  from concurrent_change_kept [OF ex_managed ex_apply_hyps(2) this race, of 4 "''theirs''"] cur
  show ?thesis by (auto simp: committed_def)
qed

end
