(* ===== verification/Identity_Keystore.thy ===== *)
theory Identity_Keystore
  imports Engine_World Invite_Tokens Example_Crypto
begin

text \<open>
  The key device behind the interface \<open>Identity\<close> (\<open>src/raw/identity.go\<close>). \<open>key_device\<close> states
  what the engine and its peers rely on: every signature is over the canonical payload of the
  message that was asked for and verifies under the public key, and wrapped keys open for their
  namespace only. \<open>DummyKeystore\<close>, the software identity of the repository, provides it.
\<close>

section \<open>The software keystore\<close>

definition dummyAuthSeedInfo :: string where
  "dummyAuthSeedInfo = ''bitboxsync-auth-ed25519-seed-v1''"
definition dummyWrapSeedInfo :: string where
  "dummyWrapSeedInfo = ''bitboxsync-wrap-x25519-seed-v1''"

text \<open>A private key is its seed.\<close>

record DummyKeystore =
  ks_authPriv :: bytes
  ks_authPub :: bytes
  ks_wrapPriv :: bytes
  ks_wrapPub :: bytes

definition NewDummyKeystore :: "crypto \<Rightarrow> string \<Rightarrow> err + DummyKeystore" where
  "NewDummyKeystore C label =
     (let rootSecret = sha256 C label;
          authSeed = hkdf_sha256_32 C rootSecret dummyAuthSeedInfo;
          wrapSeed = hkdf_sha256_32 C rootSecret dummyWrapSeedInfo
      in ensureR (length wrapSeed = 32)
           (Wrapf ''derive wrap private key'' (Errorf ''invalid private key size''))
           (Inr \<lparr>ks_authPriv = authSeed, ks_authPub = ed25519_public C authSeed,
                 ks_wrapPriv = wrapSeed, ks_wrapPub = x25519_public C wrapSeed\<rparr>))"

definition ks_Kind :: string where "ks_Kind = IdentityKindKeystore"

definition ks_AuthPublicKey :: "DummyKeystore \<Rightarrow> bytes" where
  "ks_AuthPublicKey d = ks_authPub d"

definition ks_WrapPublicKey :: "DummyKeystore \<Rightarrow> bytes" where
  "ks_WrapPublicKey d = ks_wrapPub d"

definition ks_keyID :: "crypto \<Rightarrow> DummyKeystore \<Rightarrow> bytes" where
  "ks_keyID C d = KeyIDFromAuthPublicKey C (ks_authPub d)"

definition ks_signPayload :: "crypto \<Rightarrow> DummyKeystore \<Rightarrow> bytes \<Rightarrow> bytes" where
  "ks_signPayload C d payload = ed25519_sign C (ks_authPriv d) payload"

definition ks_SignLoginIntent :: "crypto \<Rightarrow> DummyKeystore \<Rightarrow> bytes \<Rightarrow> err + bytes" where
  "ks_SignLoginIntent C d challenge =
     bindR (LoginIntent challenge ks_Kind (ks_keyID C d) (ks_authPub d) (ks_wrapPub d)) (\<lambda>payload.
       Inr (ks_signPayload C d payload))"

definition ks_SignRefreshIntent :: "crypto \<Rightarrow> DummyKeystore \<Rightarrow> bytes \<Rightarrow> err + bytes" where
  "ks_SignRefreshIntent C d challenge =
     bindR (RefreshIntent challenge ks_Kind (ks_keyID C d)) (\<lambda>payload.
       Inr (ks_signPayload C d payload))"

definition ks_SignRevokeAllTokensIntent :: "crypto \<Rightarrow> DummyKeystore \<Rightarrow> bytes \<Rightarrow> err + bytes" where
  "ks_SignRevokeAllTokensIntent C d challenge =
     bindR (SensitiveActionIntent challenge SensitiveActionRevokeAllTokens ks_Kind (ks_keyID C d) [])
       (\<lambda>payload. Inr (ks_signPayload C d payload))"

definition ks_SignCreateNamespaceInviteIntent ::
  "crypto \<Rightarrow> DummyKeystore \<Rightarrow> bytes \<Rightarrow> bytes \<Rightarrow> bytes \<Rightarrow> bytes \<Rightarrow> int \<Rightarrow> int \<Rightarrow> err + bytes" where
  "ks_SignCreateNamespaceInviteIntent C d challenge namespaceID inviteID inviteServerSecretHash
     expiresAt maxAccepted =
     ensureR (\<not> expiresAt < 0) (Errorf ''namespace invite expiry before unix epoch'')
     (ensureR (\<not> (maxAccepted < 0 \<or> maxAccepted > MaxAcceptedJoinRequestsPerInvite))
       (Errorf ''namespace invite limits are out of range'')
     (bindR (CreateNamespaceInviteActionFields namespaceID inviteID inviteServerSecretHash
       (word_of_int expiresAt) (word_of_int maxAccepted)) (\<lambda>actionFields.
      bindR (SensitiveActionIntent challenge SensitiveActionCreateNamespaceInvite ks_Kind
        (ks_keyID C d) actionFields) (\<lambda>payload.
        Inr (ks_signPayload C d payload)))))"

definition ks_SignNamespaceJoinRequestIntent ::
  "crypto \<Rightarrow> DummyKeystore \<Rightarrow> bytes \<Rightarrow> bytes \<Rightarrow> string \<Rightarrow> int \<Rightarrow> err + bytes" where
  "ks_SignNamespaceJoinRequestIntent C d namespaceID inviteID serverOrigin expiresAt =
     ensureR (\<not> expiresAt < 0) (Errorf ''join request expiry before unix epoch'')
     (bindR (ServerOriginHash C serverOrigin) (\<lambda>serverOriginHash.
      bindR (JoinRequestPayload ks_Kind namespaceID inviteID serverOriginHash (ks_keyID C d)
        (ks_authPub d) (ks_wrapPub d) (word_of_int expiresAt)) (\<lambda>payload.
        Inr (ks_signPayload C d payload))))"

text \<open>The loop of \<open>Attest\<close>: repeated hashing fills the buffer; a digest has 32 bytes.\<close>

function attest_fill :: "crypto \<Rightarrow> nat \<Rightarrow> bytes \<Rightarrow> bytes" where
  "attest_fill C room current =
     (if room = 0 then []
      else let sum = sha256 C current in take room sum @ attest_fill C (room - 32) sum)"
  by pat_completeness auto
termination
  by (relation "measure (\<lambda>(C, room, current). room)") auto

declare attest_fill.simps [simp del]

definition ks_Attest :: "crypto \<Rightarrow> DummyKeystore \<Rightarrow> bytes \<Rightarrow> err + bytes" where
  "ks_Attest C d challenge =
     Inr (CHR 0x00 # attest_fill C 256 (sha256 C (challenge @ ks_authPub d)))"

definition ks_UnwrapNamespaceDEK :: "crypto \<Rightarrow> DummyKeystore \<Rightarrow> bytes \<Rightarrow> bytes \<Rightarrow> err + bytes" where
  "ks_UnwrapNamespaceDEK C d namespaceID wrappedDEK =
     UnwrapNamespaceDEK C (ks_wrapPriv d) namespaceID wrappedDEK"

text \<open>The keystore as an \<open>Identity\<close>: it does not act on the world.\<close>

definition keystore_identity :: "crypto \<Rightarrow> DummyKeystore \<Rightarrow> 'w Identity" where
  "keystore_identity C d =
     \<lparr>ident_Kind = ks_Kind, ident_AuthPublicKey = ks_AuthPublicKey d,
      ident_WrapPublicKey = ks_WrapPublicKey d,
      ident_SignLoginIntent = (\<lambda>ch. lift_result (ks_SignLoginIntent C d ch)),
      ident_SignRefreshIntent = (\<lambda>ch. lift_result (ks_SignRefreshIntent C d ch)),
      ident_SignRevokeAllTokensIntent = (\<lambda>ch. lift_result (ks_SignRevokeAllTokensIntent C d ch)),
      ident_SignCreateNamespaceInviteIntent = (\<lambda>ch n i h e m.
        lift_result (ks_SignCreateNamespaceInviteIntent C d ch n i h e m)),
      ident_SignNamespaceJoinRequestIntent = (\<lambda>n i origin e.
        lift_result (ks_SignNamespaceJoinRequestIntent C d n i origin e)),
      ident_Attest = (\<lambda>ch. lift_result (ks_Attest C d ch)),
      ident_UnwrapNamespaceDEK = (\<lambda>n w. lift_result (ks_UnwrapNamespaceDEK C d n w))\<rparr>"

section \<open>What a key device promises\<close>

text \<open>A signature of a message by the holder of a public key.\<close>

definition signs :: "crypto \<Rightarrow> bytes \<Rightarrow> signed_message \<Rightarrow> bytes \<Rightarrow> bool" where
  "signs C auth m sig \<longleftrightarrow> length sig = 64 \<and>
     (\<exists>p. signed_payload m = Inr p \<and> ed25519_verify C auth p sig)"

locale key_device =
  fixes C :: crypto
    and ident :: "'w Identity"
  assumes kind: "ident_Kind ident = IdentityKindKeystore"
    and auth_length: "length (ident_AuthPublicKey ident) = 32"
    and wrap_length: "length (ident_WrapPublicKey ident) = 32"
    and login: "ident_SignLoginIntent ident ch w = (Inr sig, w') \<Longrightarrow>
      signs C (ident_AuthPublicKey ident) (Login ch IdentityKindKeystore
        (KeyIDFromAuthPublicKey C (ident_AuthPublicKey ident)) (ident_AuthPublicKey ident)
        (ident_WrapPublicKey ident)) sig"
    and refresh: "ident_SignRefreshIntent ident ch w = (Inr sig, w') \<Longrightarrow>
      signs C (ident_AuthPublicKey ident) (Refresh ch IdentityKindKeystore
        (KeyIDFromAuthPublicKey C (ident_AuthPublicKey ident))) sig"
    and revoke: "ident_SignRevokeAllTokensIntent ident ch w = (Inr sig, w') \<Longrightarrow>
      signs C (ident_AuthPublicKey ident) (Sensitive ch SensitiveActionRevokeAllTokens
        IdentityKindKeystore (KeyIDFromAuthPublicKey C (ident_AuthPublicKey ident)) []) sig"
    and join: "ident_SignNamespaceJoinRequestIntent ident n i origin e w = (Inr sig, w') \<Longrightarrow>
      \<exists>h. ServerOriginHash C origin = Inr h \<and>
        signs C (ident_AuthPublicKey ident) (JoinRequest IdentityKindKeystore n i h
          (KeyIDFromAuthPublicKey C (ident_AuthPublicKey ident)) (ident_AuthPublicKey ident)
          (ident_WrapPublicKey ident) (word_of_int e)) sig"
    and unwrap: "WrapNamespaceDEK C rnd (ident_WrapPublicKey ident) n dek = Inr wrapped \<Longrightarrow>
      length m = NamespaceIDLength \<Longrightarrow>
      fst (ident_UnwrapNamespaceDEK ident m wrapped w) =
        (if m = n then Inr dek else Inl (Sentinel ErrNamespaceMismatch))"
begin

text \<open>No signature for one purpose is one for another.\<close>

lemma login_payload:
  assumes "ident_SignLoginIntent ident ch w = (Inr sig, w')"
  obtains p where "signed_payload (Login ch IdentityKindKeystore
      (KeyIDFromAuthPublicKey C (ident_AuthPublicKey ident)) (ident_AuthPublicKey ident)
      (ident_WrapPublicKey ident)) = Inr p" and "ed25519_verify C (ident_AuthPublicKey ident) p sig"
    and "\<And>m. signed_payload m = Inr p \<Longrightarrow> \<exists>a b c d. m = Login ch a b c d"
  using login [OF assms] signed_payload_inject unfolding signs_def by blast

end

lemma keystore_key_device:
  assumes "sha256_length C" and "signature_correct C" and "hpke_correct C" and "x25519_length C"
    and "NewDummyKeystore C label = Inr d"
  shows "key_device C (keystore_identity C d)"
proof -
  have d: "ks_authPub d = ed25519_public C (ks_authPriv d)" "ks_wrapPub d = x25519_public C (ks_wrapPriv d)"
    "length (ks_wrapPriv d) = 32"
    using assms(5) by (auto simp: NewDummyKeystore_def ensureR_def Let_def split: if_splits)
  then have len: "length (ks_authPub d) = 32" "length (ks_wrapPub d) = 32"
    using assms(2,4) by (simp_all add: signature_correct_def x25519_length_def)
  have signs: "signs C (ks_authPub d) m (ks_signPayload C d p)" if "signed_payload m = Inr p" for m p
    using assms(2) that d(1) by (simp add: signs_def ks_signPayload_def signature_correct_def)
  show ?thesis
  proof (unfold_locales, goal_cases)
    case (4 ch w sig w')
    then show ?case
      by (auto simp: keystore_identity_def ks_AuthPublicKey_def ks_WrapPublicKey_def lift_result_def
          ks_SignLoginIntent_def ks_keyID_def ks_Kind_def bindR_eq_Inr intro!: signs)
  next
    case (5 ch w sig w')
    then show ?case
      by (auto simp: keystore_identity_def ks_AuthPublicKey_def ks_WrapPublicKey_def lift_result_def
          ks_SignRefreshIntent_def ks_keyID_def ks_Kind_def bindR_eq_Inr intro!: signs)
  next
    case (6 ch w sig w')
    then show ?case
      by (auto simp: keystore_identity_def ks_AuthPublicKey_def ks_WrapPublicKey_def lift_result_def
          ks_SignRevokeAllTokensIntent_def ks_keyID_def ks_Kind_def bindR_eq_Inr intro!: signs)
  next
    case (7 n i origin e w sig w')
    then show ?case
      by (auto simp: keystore_identity_def ks_AuthPublicKey_def ks_WrapPublicKey_def lift_result_def
          ks_SignNamespaceJoinRequestIntent_def ks_keyID_def ks_Kind_def bindR_eq_Inr ensureR_def
          split: if_splits intro!: signs)
  next
    case (8 rnd n dek wrapped m w)
    then show ?case
      using unwrap_wrapped [OF assms(3) d(3)] d(2)
      by (simp add: keystore_identity_def ks_WrapPublicKey_def lift_result_def
          ks_UnwrapNamespaceDEK_def)
  qed (simp_all add: keystore_identity_def ks_Kind_def ks_AuthPublicKey_def ks_WrapPublicKey_def len)
qed

lemma NewDummyKeystore_total:
  assumes "sha256_length C"
  shows "\<exists>d. NewDummyKeystore C label = Inr d"
  using assms by (simp add: NewDummyKeystore_def Let_def length_hkdf)

definition ex_keystore :: DummyKeystore where
  "ex_keystore = projr (NewDummyKeystore ex_crypto ''alice'')"

lemma ex_keystore: "NewDummyKeystore ex_crypto ''alice'' = Inr ex_keystore"
  using NewDummyKeystore_total [OF ex_sha256_length, of "''alice''"] by (auto simp: ex_keystore_def)

interpretation keystore: key_device ex_crypto "keystore_identity ex_crypto ex_keystore"
  by (rule keystore_key_device [OF ex_sha256_length ex_signature_correct ex_hpke_correct
      ex_x25519_length ex_keystore])

end
