(* ===== verification/Invite_Exchange.thy ===== *)
theory Invite_Exchange
  imports Namespace_Invites Identity_Keystore
begin

text \<open>
  The two sides of an invite: what a member knows after \<open>verifyJoinRequestForApproval\<close>
  accepted a request, and that it accepts the requests an engine with a working key device
  makes. The lemmas are about the interface \<open>key_device\<close>.
\<close>

section \<open>The approving side\<close>

text \<open>A request of the holder of a key, who knows the secret of the invite.\<close>

definition genuine_request ::
  "crypto \<Rightarrow> NamespaceInviteToken \<Rightarrow> NamespaceJoinRequest \<Rightarrow> bytes \<Rightarrow> string \<Rightarrow> bool" where
  "genuine_request C invite r wrap hash \<longleftrightarrow>
     (\<exists>n i h auth sig secret proof p.
        jr_NamespaceID r = hex_encode n \<and> jr_InviteID r = hex_encode i \<and>
        jr_KeyID r = hex_encode (KeyIDFromAuthPublicKey C auth) \<and>
        jr_AuthPublicKey r = hex_encode auth \<and> jr_WrapPublicKey r = hex_encode wrap \<and>
        jr_Signature r = hex_encode sig \<and> jr_InviteProof r = EncodeBase64URL proof \<and>
        ServerOriginHash C (jr_ServerOrigin r) = Inr h \<and>
        signed_payload (JoinRequest (jr_Kind r) n i h (KeyIDFromAuthPublicKey C auth) auth wrap
          (word_of_int (jr_ExpiresAt r))) = Inr p \<and>
        ed25519_verify C auth p sig \<and> hash = hex_encode (JoinRequestHash C p) \<and>
        tok_InviteSecret invite = EncodeBase64URL secret \<and> length secret = InviteSecretLength \<and>
        InviteProof C secret p = Inr proof)"

lemma ensureR_Inr: "ensureR ok e r = Inr x \<longleftrightarrow> ok \<and> r = Inr x"
  by (simp add: ensureR_def)

lemma parse_join_request:
  assumes "parseNamespaceJoinRequest C r = Inr p"
  shows "\<exists>n i h. jr_NamespaceID r = hex_encode n \<and> jr_InviteID r = hex_encode i \<and>
    jr_KeyID r = hex_encode (KeyIDFromAuthPublicKey C (pj_authPublicKey p)) \<and>
    jr_AuthPublicKey r = hex_encode (pj_authPublicKey p) \<and>
    jr_WrapPublicKey r = hex_encode (pj_wrapPublicKey p) \<and>
    jr_Signature r = hex_encode (pj_signature p) \<and>
    jr_InviteProof r = EncodeBase64URL (pj_inviteProof p) \<and>
    ServerOriginHash C (jr_ServerOrigin r) = Inr h \<and>
    signed_payload (JoinRequest (jr_Kind r) n i h (KeyIDFromAuthPublicKey C (pj_authPublicKey p))
      (pj_authPublicKey p) (pj_wrapPublicKey p) (word_of_int (jr_ExpiresAt r))) = Inr (pj_payload p) \<and>
    pj_hash p = hex_encode (JoinRequestHash C (pj_payload p))"
  using assms
  by (auto simp: parseNamespaceJoinRequest_def ensureR_Inr bindR_eq_Inr DecodeLowerHexExact_accepts
      DecodeBase64URLExact_accepts ParseEd25519PublicKeyHex_def ParseX25519PublicKeyHex_def
      VerifyKeyIDMatchesAuthPublicKey_def)

lemma verified_request:
  assumes "sha256_length C"
    and "verifyJoinRequestForApproval C ns invite entry now = Inr (wrap, serverSecret, hash)"
  shows "genuine_request C invite (je_JoinRequest entry) wrap hash"
    and "je_JoinRequestHash entry = hash"
    and "jr_NamespaceID (je_JoinRequest entry) = ns" "tok_NamespaceID invite = ns"
    and "jr_InviteID (je_JoinRequest entry) = tok_InviteID invite"
    and "jr_ServerOrigin (je_JoinRequest entry) = tok_ServerOrigin invite"
    and "time_unix now < jr_ExpiresAt (je_JoinRequest entry)"
    and "jr_ExpiresAt (je_JoinRequest entry) \<le> tok_ExpiresAt invite"
proof -
  let ?r = "je_JoinRequest entry"
  obtain p secret where p: "parseNamespaceJoinRequest C ?r = Inr p"
    and v: "ed25519_verify C (pj_authPublicKey p) (pj_payload p) (pj_signature p)"
    and secret: "DecodeBase64URLExact ''inviteSecret'' (tok_InviteSecret invite) InviteSecretLength =
      Inr secret"
    and proof_ok: "VerifyInviteProof C secret (pj_payload p) (pj_inviteProof p) = Inr ()"
    and out: "wrap = pj_wrapPublicKey p" "hash = pj_hash p" "je_JoinRequestHash entry = pj_hash p"
    and rest: "jr_NamespaceID ?r = ns" "tok_NamespaceID invite = ns"
      "jr_InviteID ?r = tok_InviteID invite" "jr_ServerOrigin ?r = tok_ServerOrigin invite"
      "time_unix now < jr_ExpiresAt ?r" "jr_ExpiresAt ?r \<le> tok_ExpiresAt invite"
    using assms(2)
    by (auto simp: verifyJoinRequestForApproval_def Let_def ensureR_Inr bindR_eq_Inr)
  have "InviteProof C secret (pj_payload p) = Inr (pj_inviteProof p)"
    using proof_ok VerifyInviteProof_accepts [OF assms(1)] by simp
  then show "genuine_request C invite ?r wrap hash"
    using parse_join_request [OF p] v secret unfolding genuine_request_def out(1,2)
    by (auto simp: DecodeBase64URLExact_accepts) blast
  show "je_JoinRequestHash entry = hash" "jr_NamespaceID ?r = ns" "tok_NamespaceID invite = ns"
    "jr_InviteID ?r = tok_InviteID invite" "jr_ServerOrigin ?r = tok_ServerOrigin invite"
    "time_unix now < jr_ExpiresAt ?r" "jr_ExpiresAt ?r \<le> tok_ExpiresAt invite"
    using rest out(2,3) by simp_all
qed

section \<open>The joining side\<close>

text \<open>An engine whose key ID is the one of its device, as \<open>Open\<close> sets it up.\<close>

definition own_key :: "'w env \<Rightarrow> bool" where
  "own_key E \<longleftrightarrow> env_keyIDRaw E =
     KeyIDFromAuthPublicKey (env_crypto E) (ident_AuthPublicKey (env_identity E))"

declare succeeds_outside [succeeds]

lemma decode_encoded:
  "length b = n \<Longrightarrow> DecodeLowerHexExact name (hex_encode b) n = Inr b"
  "length b = n \<Longrightarrow> DecodeBase64URLExact name (EncodeBase64URL b) n = Inr b"
  by (simp_all add: DecodeLowerHexExact_accepts DecodeBase64URLExact_accepts)

lemma join_request_expiry_bounds:
  "join_request_expiry opts invite now = Inr e \<Longrightarrow>
     0 \<le> e \<and> e \<le> tok_ExpiresAt invite \<and> time_unix now < e \<and> e \<le> time_unix (now + MaxJoinRequestTTL)"
  by (auto simp: join_request_expiry_def ensureR_Inr Let_def)

lemma made_request:
  fixes s :: "'w st"
  assumes "signedJoinRequest E invite opts s = (Inr (r, serverSecret), t)"
  shows "\<exists>n i h secret p pf sig w w'.
    tok_Version invite = NamespaceJoinRequestVersion \<and> tok_ExpiresAt invite > 0 \<and>
    ServerOriginHash (env_crypto E) (tok_ServerOrigin invite) = Inr h \<and>
    DecodeLowerHexExact ''namespaceId'' (tok_NamespaceID invite) NamespaceIDLength = Inr n \<and>
    DecodeLowerHexExact ''inviteId'' (tok_InviteID invite) InviteIDLength = Inr i \<and>
    DecodeBase64URLExact ''inviteSecret'' (tok_InviteSecret invite) InviteSecretLength = Inr secret \<and>
    DeriveInviteServerSecret (env_crypto E) secret = Inr serverSecret \<and>
    ident_SignNamespaceJoinRequestIntent (env_identity E) n i (tok_ServerOrigin invite)
      (jr_ExpiresAt r) w = (Inr sig, w') \<and>
    JoinRequestPayload (ident_Kind (env_identity E)) n i h (env_keyIDRaw E)
      (ident_AuthPublicKey (env_identity E)) (ident_WrapPublicKey (env_identity E))
      (word_of_int (jr_ExpiresAt r)) = Inr p \<and>
    InviteProof (env_crypto E) secret p = Inr pf \<and> jr_ExpiresAt r \<ge> 0 \<and>
    jr_ExpiresAt r \<le> tok_ExpiresAt invite \<and>
    r = \<lparr>jr_Version = NamespaceJoinRequestVersion, jr_NamespaceID = tok_NamespaceID invite,
      jr_InviteID = tok_InviteID invite, jr_ServerOrigin = tok_ServerOrigin invite,
      jr_Kind = ident_Kind (env_identity E), jr_KeyID = env_keyID E,
      jr_AuthPublicKey = hex_encode (ident_AuthPublicKey (env_identity E)),
      jr_WrapPublicKey = hex_encode (ident_WrapPublicKey (env_identity E)),
      jr_ExpiresAt = jr_ExpiresAt r, jr_Signature = hex_encode sig,
      jr_InviteProof = EncodeBase64URL pf\<rparr>"
  using assms
  unfolding signedJoinRequest_def signNamespaceJoinRequestIntent_def Let_def
  by (simp only: succeeds prod.inject)
    (auto simp: EncodeEd25519PublicKey_def EncodeX25519PublicKey_def
      dest!: join_request_expiry_bounds, blast+)

context key_device
begin

text \<open>The member accepts the request of an engine on this device, and gets its wrap key.\<close>

lemma made_request_accepted:
  fixes E :: "'w env" and s :: "'w st"
  assumes E: "env_crypto E = C" "env_identity E = ident" "own_key E" and C: "sha256_length C"
    and run: "signedJoinRequest E invite opts s = (Inr (r, serverSecret), t)"
  shows "\<exists>hash. \<forall>entry now. je_JoinRequest entry = r \<longrightarrow> je_JoinRequestHash entry = hash \<longrightarrow>
    time_unix now < jr_ExpiresAt r \<longrightarrow>
    verifyJoinRequestForApproval C (tok_NamespaceID invite) invite entry now =
      Inr (ident_WrapPublicKey ident, serverSecret, hash)"
proof -
  obtain n i h secret p pf sig w w' where inv: "tok_Version invite = NamespaceJoinRequestVersion"
      "tok_ExpiresAt invite > 0"
    and h: "ServerOriginHash C (tok_ServerOrigin invite) = Inr h"
    and n: "DecodeLowerHexExact ''namespaceId'' (tok_NamespaceID invite) NamespaceIDLength = Inr n"
    and i: "DecodeLowerHexExact ''inviteId'' (tok_InviteID invite) InviteIDLength = Inr i"
    and secret: "DecodeBase64URLExact ''inviteSecret'' (tok_InviteSecret invite) InviteSecretLength =
      Inr secret" "DeriveInviteServerSecret C secret = Inr serverSecret"
    and sig: "ident_SignNamespaceJoinRequestIntent ident n i (tok_ServerOrigin invite)
      (jr_ExpiresAt r) w = (Inr sig, w')"
    and p: "JoinRequestPayload IdentityKindKeystore n i h (env_keyIDRaw E) (ident_AuthPublicKey ident)
      (ident_WrapPublicKey ident) (word_of_int (jr_ExpiresAt r)) = Inr p"
    and proof_is: "InviteProof C secret p = Inr pf"
    and expiry: "jr_ExpiresAt r \<ge> 0" "jr_ExpiresAt r \<le> tok_ExpiresAt invite"
    and r: "r = \<lparr>jr_Version = NamespaceJoinRequestVersion, jr_NamespaceID = tok_NamespaceID invite,
      jr_InviteID = tok_InviteID invite, jr_ServerOrigin = tok_ServerOrigin invite,
      jr_Kind = IdentityKindKeystore, jr_KeyID = env_keyID E,
      jr_AuthPublicKey = hex_encode (ident_AuthPublicKey ident),
      jr_WrapPublicKey = hex_encode (ident_WrapPublicKey ident),
      jr_ExpiresAt = jr_ExpiresAt r, jr_Signature = hex_encode sig,
      jr_InviteProof = EncodeBase64URL pf\<rparr>"
    using made_request [OF run] unfolding E kind by blast
  have signed: "length sig = 64" "ed25519_verify C (ident_AuthPublicKey ident) p sig"
    using join [OF sig] h p E unfolding signs_def own_key_def by auto
  have key: "env_keyIDRaw E = KeyIDFromAuthPublicKey C (ident_AuthPublicKey ident)"
    using E by (simp add: own_key_def)
  then have keylen: "length (env_keyIDRaw E) = 32"
    using C by (simp add: KeyIDFromAuthPublicKey_def sha256_length_def)
  have prooflen: "length pf = 32"
    using proof_is C by (auto simp: InviteProof_def bindR_eq_Inr length_hmac)
  let ?p = "\<lparr>pj_payload = p, pj_hash = hex_encode (JoinRequestHash C p), pj_signature = sig,
      pj_inviteProof = pf, pj_authPublicKey = ident_AuthPublicKey ident,
      pj_wrapPublicKey = ident_WrapPublicKey ident\<rparr>"
  have fields: "jr_Version r = NamespaceJoinRequestVersion" "jr_NamespaceID r = tok_NamespaceID invite"
    "jr_InviteID r = tok_InviteID invite" "jr_ServerOrigin r = tok_ServerOrigin invite"
    "jr_Kind r = IdentityKindKeystore" "jr_KeyID r = hex_encode (env_keyIDRaw E)"
    "jr_AuthPublicKey r = hex_encode (ident_AuthPublicKey ident)"
    "jr_WrapPublicKey r = hex_encode (ident_WrapPublicKey ident)"
    "jr_Signature r = hex_encode sig" "jr_InviteProof r = EncodeBase64URL pf"
    by (subst r, simp add: env_keyID_def)+
  have ids: "DecodeLowerHexExact name (tok_NamespaceID invite) NamespaceIDLength = Inr n"
    "DecodeLowerHexExact name (tok_InviteID invite) InviteIDLength = Inr i" for name
    using n i by (simp_all add: DecodeLowerHexExact_accepts)
  have parsed: "parseNamespaceJoinRequest C r = Inr ?p"
    using expiry(1) h keylen prooflen signed(1) p key auth_length wrap_length
    by (simp add: parseNamespaceJoinRequest_def fields ids [unfolded length_constants] decode_encoded length_constants
        ParseEd25519PublicKeyHex_def ParseX25519PublicKeyHex_def VerifyKeyIDMatchesAuthPublicKey_def)
  have origin: "CanonicalServerOrigin (tok_ServerOrigin invite) = Inr (tok_ServerOrigin invite)"
    using h by (auto simp: ServerOriginHash_def bindR_eq_Inr ensureR_Inr)
  have "VerifyInviteProof C secret p pf = Inr ()"
    using proof_is VerifyInviteProof_accepts [OF C] by simp
  then have "verifyJoinRequestForApproval C (tok_NamespaceID invite) invite entry now =
      Inr (ident_WrapPublicKey ident, serverSecret, hex_encode (JoinRequestHash C p))"
    if "je_JoinRequest entry = r" "je_JoinRequestHash entry = hex_encode (JoinRequestHash C p)"
      "time_unix now < jr_ExpiresAt r" for entry now
    using that inv expiry origin parsed signed(2) secret
    by (simp add: verifyJoinRequestForApproval_def Let_def fields)
  then show ?thesis by blast
qed

end

end
