(* ===== verification/Invite_Properties.thy ===== *)
theory Invite_Properties
  imports Invite_Exchange Examples
begin

text \<open>
  Properties of invites: canonical server origins, the invite URI (\<open>src/protocol/crypto.go\<close>),
  what an approved join request guarantees, and the whole exchange between a member and a
  prospective member (\<open>src/bitboxsync/namespace_invites.go\<close>, \<open>src/raw/identity.go\<close>).
\<close>

section \<open>Server origins and invite URIs\<close>


definition ex_origin :: string where "ex_origin = ''https://sync.example''"

lemma ex_host: "host_ok ''sync.example''" "length (origin_text ''sync.example'' []) \<le> MaxServerOriginLength"
  by (code_simp, simp add: origin_text_def MaxServerOriginLength_def)

lemma ex_origin_with_port: "CanonicalServerOrigin ''https://sync.example:443'' = Inr ex_origin"
  using CanonicalServerOrigin_default_port [OF ex_host] by (simp add: origin_text_def ex_origin_def)


text \<open>C28: An invite URI made by \<open>EncodeNamespaceInviteToken\<close> is parsed back to the token it was
  made from, with the server origin in canonical form.\<close>

theorem invite_uri_roundtrip:
  assumes "EncodeNamespaceInviteToken t = Inr uri" and "tok_ExpiresAt t < 2 ^ 63"
  shows "\<exists>c. CanonicalServerOrigin (tok_ServerOrigin t) = Inr c \<and>
    ParseNamespaceInviteToken uri = Inr (t\<lparr>tok_ServerOrigin := c\<rparr>)"
proof -
  obtain c where c: "CanonicalServerOrigin (tok_ServerOrigin t) = Inr c"
    and valid: "valid_token (t\<lparr>tok_ServerOrigin := c\<rparr>)"
    and uri: "EncodeNamespaceInviteToken (t\<lparr>tok_ServerOrigin := c\<rparr>) = Inr uri"
    using Encode_accepts [OF assms] by blast
  with parse_valid_token [OF valid] show ?thesis by (simp add: Encode_valid_token [OF valid])
qed

definition ex_invite :: NamespaceInviteToken where
  "ex_invite =
     \<lparr>tok_Version = NamespaceJoinRequestVersion, tok_ServerOrigin = ex_origin,
      tok_NamespaceID = hex_encode (replicate 16 (CHR 0x0A)),
      tok_InviteID = hex_encode (replicate 16 (CHR 0x0B)), tok_ExpiresAt = 2000,
      tok_InviteSecret = EncodeBase64URL (replicate 32 (CHR 0x0C))\<rparr>"

lemma ex_origin_canonical: "CanonicalServerOrigin ex_origin = Inr ex_origin"
  using CanonicalServerOrigin_idempotent [OF ex_origin_with_port] .

lemma ex_invite_valid: "valid_token ex_invite"
  by (simp add: valid_token_def ex_invite_def ex_origin_canonical ValidateNamespaceID_def
      ValidateInviteID_def validate_hex_def decode_encoded length_constants)

theorem invite_uri_roundtrip_witness:
  "\<exists>uri. EncodeNamespaceInviteToken (ex_invite\<lparr>tok_ServerOrigin := ''https://sync.example:443''\<rparr>) =
       Inr uri \<and> ParseNamespaceInviteToken uri = Inr ex_invite"
proof -
  let ?t = "ex_invite\<lparr>tok_ServerOrigin := ''https://sync.example:443''\<rparr>"
  have "EncodeNamespaceInviteToken ?t = EncodeNamespaceInviteToken ex_invite"
    by (simp add: EncodeNamespaceInviteToken_def ex_invite_def ex_origin_with_port ex_origin_canonical)
  then obtain uri where uri: "EncodeNamespaceInviteToken ?t = Inr uri"
    by (simp add: Encode_valid_token [OF ex_invite_valid])
  have "tok_ExpiresAt ?t < 2 ^ 63" by (simp add: ex_invite_def)
  from invite_uri_roundtrip [OF uri this] uri show ?thesis
    by (simp add: ex_origin_with_port) (simp add: ex_invite_def)
qed

lemma parse_int64_bound: "parse_int64 s = Inr i \<Longrightarrow> i < 2 ^ 63"
  by (auto simp: parse_int64_def Let_def bindR_eq_Inr split: if_splits)

lemma map_sum_error: "map_sum f (\<lambda>x. x) r = Inr y \<longleftrightarrow> r = Inr y"
  by (cases r) simp_all

text \<open>C29: \<open>ParseNamespaceInviteToken\<close> accepts only URIs of tokens that are valid: supported
  version, canonical origin, well-formed identifiers and secret, positive 64-bit expiry. Their
  encoding is parsed to the same token.\<close>

theorem parsed_invite_valid:
  assumes "ParseNamespaceInviteToken uri = Inr t"
  shows "valid_token t \<and> bindR (EncodeNamespaceInviteToken t) ParseNamespaceInviteToken = Inr t"
proof -
  have "valid_token t"
    using assms
    by (auto simp: ParseNamespaceInviteToken_def ensureR_Inr bindR_eq_Inr valid_token_def
        map_sum_error dest: CanonicalServerOrigin_idempotent parse_int64_bound)
  with parse_valid_token Encode_valid_token show ?thesis by simp
qed

theorem parsed_invite_valid_witness:
  "\<exists>uri. ParseNamespaceInviteToken uri = Inr ex_invite \<and> tok_ExpiresAt ex_invite > 0"
proof -
  have "\<exists>uri. ParseNamespaceInviteToken uri = Inr ex_invite"
    using parse_valid_token [OF ex_invite_valid] by blast
  then show ?thesis using parsed_invite_valid by (fastforce simp: valid_token_def)
qed

section \<open>Join requests\<close>

text \<open>A prospective member with a software keystore, well within the validity of the invite.\<close>

definition ex_join_env :: "gotime env" where
  "ex_join_env =
     \<lparr>env_cfg = ex_config, env_crypto = ex_crypto,
      env_keyIDRaw = KeyIDFromAuthPublicKey ex_crypto (ks_AuthPublicKey ex_keystore),
      env_identity = keystore_identity ex_crypto ex_keystore,
      env_now = (\<lambda>w. (w, w)), env_rand = (\<lambda>n w. (replicate n (CHR 0x09), w)),
      env_db_fault = (\<lambda>w. (None, w)),
      env_http = (\<lambda>req. ret \<lparr>rs_status = 500, rs_message = [], rs_body = Inr NoContent\<rparr>)\<rparr>"

definition ex_join_options :: NamespaceJoinRequestOptions where
  "ex_join_options = \<lparr>jo_TTL = 0, jo_ExpiresAt = 0\<rparr>"

definition ex_join_state :: "gotime st" where
  "ex_join_state = ex_state\<lparr>st_world := (unix_epoch_seconds + 1500) * nanos_per_second\<rparr>"

lemma ex_join_device: "key_device (env_crypto ex_join_env) (env_identity ex_join_env)"
  "own_key ex_join_env" "sha256_length (env_crypto ex_join_env)"
  using keystore.key_device_axioms ex_sha256_length
  by (simp_all add: ex_join_env_def own_key_def keystore_identity_def)

lemma ex_join_run:
  "\<exists>r secret t. signedJoinRequest ex_join_env ex_invite ex_join_options ex_join_state =
     (Inr (r, secret), t) \<and> jr_ExpiresAt r = 2000"
proof -
  have keys: "length (ks_authPub ex_keystore) = 32" "length (ks_wrapPub ex_keystore) = 32"
    "length (ks_keyID ex_crypto ex_keystore) = 32"
    using keystore.auth_length keystore.wrap_length ex_sha256_length
    by (simp_all add: keystore_identity_def ks_AuthPublicKey_def ks_WrapPublicKey_def ks_keyID_def
        KeyIDFromAuthPublicKey_def sha256_length_def)
  have hash: "ServerOriginHash ex_crypto ex_origin = Inr (sha256 ex_crypto ex_origin)"
    by (simp add: ServerOriginHash_def ex_origin_canonical)
  have digest: "length (sha256 ex_crypto x) = 32" for x
    using ex_sha256_length by (simp add: sha256_length_def)
  show ?thesis
    using keys digest
    by (simp add: signedJoinRequest_def ex_invite_def ex_join_options_def ex_origin_canonical
        ex_join_env_def ex_join_state_def ex_state_def seqM_def bindM_def guardM_def ret_def
        lift_result_def decode_encoded length_constants DeriveInviteServerSecret_def hash
        time_now_def world_value_def join_request_expiry_def Let_def duration_constants
        time_unix_def unix_epoch_seconds_def signNamespaceJoinRequestIntent_def outside_def
        keystore_identity_def ks_SignNamespaceJoinRequestIntent_def ks_Kind_def
        JoinRequestPayload_def kindCode_def InviteProof_def DeriveInviteProofKey_def
        ks_AuthPublicKey_def ks_WrapPublicKey_def ks_keyID_def)
qed

definition ex_entry :: "NamespaceJoinRequest \<Rightarrow> string \<Rightarrow> NamespaceJoinRequestEntry" where
  "ex_entry r hash =
     \<lparr>je_InviteID = jr_InviteID r, je_JoinRequestHash = hash, je_CreatedAt = 0,
      je_Status = NamespaceJoinRequestStatusPending, je_JoinRequest = r\<rparr>"

definition ex_approval_time :: gotime where
  "ex_approval_time = (unix_epoch_seconds + 1600) * nanos_per_second"

lemma ex_approval_time: "jr_ExpiresAt r = 2000 \<Longrightarrow> time_unix ex_approval_time < jr_ExpiresAt r"
  by (simp add: ex_approval_time_def time_unix_def nanos_per_second_def)

lemma ex_verified:
  "\<exists>r wrap secret hash. verifyJoinRequestForApproval ex_crypto (tok_NamespaceID ex_invite) ex_invite
     (ex_entry r hash) ex_approval_time = Inr (wrap, secret, hash)"
proof -
  obtain r secret t where run: "signedJoinRequest ex_join_env ex_invite ex_join_options ex_join_state =
      (Inr (r, secret), t)" and expiry: "jr_ExpiresAt r = 2000"
    using ex_join_run by blast
  have E: "env_crypto ex_join_env = ex_crypto"
    "env_identity ex_join_env = keystore_identity ex_crypto ex_keystore"
    by (simp_all add: ex_join_env_def)
  obtain hash where "\<forall>entry now. je_JoinRequest entry = r \<longrightarrow> je_JoinRequestHash entry = hash \<longrightarrow>
      time_unix now < jr_ExpiresAt r \<longrightarrow>
      verifyJoinRequestForApproval ex_crypto (tok_NamespaceID ex_invite) ex_invite entry now =
        Inr (ident_WrapPublicKey (keystore_identity ex_crypto ex_keystore :: gotime Identity), secret, hash)"
    by (rule exE [OF keystore.made_request_accepted [OF E ex_join_device(2) ex_sha256_length run]])
  moreover have "je_JoinRequest (ex_entry r hash) = r" "je_JoinRequestHash (ex_entry r hash) = hash"
    by (simp_all add: ex_entry_def)
  ultimately have "verifyJoinRequestForApproval ex_crypto (tok_NamespaceID ex_invite) ex_invite
      (ex_entry r hash) ex_approval_time =
      Inr (ident_WrapPublicKey (keystore_identity ex_crypto ex_keystore :: gotime Identity), secret, hash)"
    using ex_approval_time [OF expiry] by blast
  then show ?thesis by blast
qed

text \<open>C27: A member's approval of a join request rests on a signature of the requester over the
  wrap key that the namespace key is then wrapped for: an accepted request names the member's
  namespace and invite, is in its validity period, has a key ID that is the hash of its
  authentication key, a valid signature of that key over the payload of exactly these fields,
  and a proof of knowing the invite secret.\<close>

theorem approved_request_genuine:
  assumes "sha256_length C"
    and "verifyJoinRequestForApproval C ns invite entry now = Inr (wrap, serverSecret, hash)"
  shows "genuine_request C invite (je_JoinRequest entry) wrap hash \<and>
    je_JoinRequestHash entry = hash \<and>
    jr_NamespaceID (je_JoinRequest entry) = ns \<and> tok_NamespaceID invite = ns \<and>
    jr_InviteID (je_JoinRequest entry) = tok_InviteID invite \<and>
    jr_ServerOrigin (je_JoinRequest entry) = tok_ServerOrigin invite \<and>
    time_unix now < jr_ExpiresAt (je_JoinRequest entry) \<and>
    jr_ExpiresAt (je_JoinRequest entry) \<le> tok_ExpiresAt invite"
  using verified_request [OF assms] by simp

theorem approved_request_genuine_witness:
  "\<exists>r wrap secret hash. verifyJoinRequestForApproval ex_crypto (tok_NamespaceID ex_invite) ex_invite
     (ex_entry r hash) ex_approval_time = Inr (wrap, secret, hash) \<and>
     genuine_request ex_crypto ex_invite r wrap hash"
proof -
  obtain r wrap secret hash where v: "verifyJoinRequestForApproval ex_crypto
      (tok_NamespaceID ex_invite) ex_invite (ex_entry r hash) ex_approval_time = Inr (wrap, secret, hash)"
    using ex_verified by blast
  have "genuine_request ex_crypto ex_invite (je_JoinRequest (ex_entry r hash)) wrap hash"
    using approved_request_genuine [OF ex_sha256_length v] by blast
  with v show ?thesis by (auto simp: ex_entry_def)
qed

text \<open>C26: A request that \<open>SubmitJoinRequest\<close> makes with a working key device is accepted by the
  member who holds the same invite, until it expires; the key wrapped for it by the member
  opens on the requester's device, for the namespace of the invite and no other.\<close>

theorem join_exchange:
  assumes "key_device (env_crypto E) (env_identity E)" and "own_key E"
    and "sha256_length (env_crypto E)"
    and "signedJoinRequest E invite opts s = (Inr (r, serverSecret), t)"
  shows "\<exists>hash. \<forall>entry now. je_JoinRequest entry = r \<longrightarrow> je_JoinRequestHash entry = hash \<longrightarrow>
    time_unix now < jr_ExpiresAt r \<longrightarrow>
    (\<exists>wrap. verifyJoinRequestForApproval (env_crypto E) (tok_NamespaceID invite) invite entry now =
        Inr (wrap, serverSecret, hash) \<and>
      (\<forall>rnd nid dek wrapped nid' w. WrapNamespaceDEK (env_crypto E) rnd wrap nid dek = Inr wrapped \<longrightarrow>
        length nid' = NamespaceIDLength \<longrightarrow>
        fst (ident_UnwrapNamespaceDEK (env_identity E) nid' wrapped w) =
          (if nid' = nid then Inr dek else Inl (Sentinel ErrNamespaceMismatch))))"
proof -
  note opens = key_device.unwrap [OF assms(1)]
  obtain hash where accepted: "\<And>entry now. je_JoinRequest entry = r \<Longrightarrow>
      je_JoinRequestHash entry = hash \<Longrightarrow> time_unix now < jr_ExpiresAt r \<Longrightarrow>
      verifyJoinRequestForApproval (env_crypto E) (tok_NamespaceID invite) invite entry now =
        Inr (ident_WrapPublicKey (env_identity E), serverSecret, hash)"
    using key_device.made_request_accepted [OF assms(1) refl refl assms(2-4)] by blast
  show ?thesis
    by (intro exI [of _ hash] allI impI exI [of _ "ident_WrapPublicKey (env_identity E)"] conjI)
      (rule accepted, assumption+, rule opens, assumption+)
qed

theorem join_exchange_witness:
  "\<exists>r secret t hash wrap. signedJoinRequest ex_join_env ex_invite ex_join_options ex_join_state =
       (Inr (r, secret), t) \<and>
     verifyJoinRequestForApproval ex_crypto (tok_NamespaceID ex_invite) ex_invite (ex_entry r hash)
       ex_approval_time = Inr (wrap, secret, hash)"
proof -
  obtain r secret t where run: "signedJoinRequest ex_join_env ex_invite ex_join_options ex_join_state =
      (Inr (r, secret), t)" and expiry: "jr_ExpiresAt r = 2000"
    using ex_join_run by blast
  have E: "env_crypto ex_join_env = ex_crypto" by (simp add: ex_join_env_def)
  obtain hash where accepted: "\<And>entry now. je_JoinRequest entry = r \<Longrightarrow>
      je_JoinRequestHash entry = hash \<Longrightarrow> time_unix now < jr_ExpiresAt r \<Longrightarrow>
      \<exists>wrap. verifyJoinRequestForApproval ex_crypto (tok_NamespaceID ex_invite) ex_invite entry now =
        Inr (wrap, secret, hash)"
    using join_exchange [OF ex_join_device run] unfolding E by blast
  have "je_JoinRequest (ex_entry r hash) = r" "je_JoinRequestHash (ex_entry r hash) = hash"
    by (simp_all add: ex_entry_def)
  with accepted ex_approval_time [OF expiry] run show ?thesis by blast
qed

end
