(* ===== verification/Upload_Trace.thy ===== *)
theory Upload_Trace
  imports Upload
begin

text \<open>
  What one flush of an item puts on the wire. \<open>sends P m s\<close>: the requests \<open>m\<close> adds to the log
  when it starts in \<open>s\<close> satisfy \<open>P\<close>. \<open>upload_trace\<close> is the abstract exchange of one upload
  attempt: nothing, or one conditional write, possibly followed by a fetch of the remote item
  and what comes after it.
\<close>

section \<open>Steps that send nothing\<close>

definition unsent :: "'w st \<Rightarrow> 'w st \<Rightarrow> bool" where
  "unsent s t \<longleftrightarrow> st_requests t = st_requests s"

interpretation wire: step_relation unsent
  by unfold_locales (simp_all add: unsent_def)

named_theorems local_steps

lemma unsent_basic [local_steps]:
  "stays unsent (outside m)" "stays unsent (world_value f)" "stays unsent (on_db q)"
  by (simp_all add: stays_def unsent_def outside_def world_value_def on_db_def split: prod.split)

lemma unsent_stored [local_steps]: "stays unsent (stored E q)"
  unfolding stored_def by (intro wire.combinators local_steps)

lemma unsent_calls [local_steps]:
  "stays unsent (time_now E)" "stays unsent (rand_bytes E k)" "stays unsent identityStateSnapshot"
  "stays unsent (collectionRegistration ns c)"
  unfolding time_now_def rand_bytes_def identityStateSnapshot_def collectionRegistration_def
  by (intro wire.combinators local_steps)+

lemma unsent_emit [local_steps]: "stays unsent (emit E ev)"
proof -
  have "stays unsent (writes (\<lambda>s. if st_eventsClosed s then s
      else s\<lparr>st_activitySeq := f s, st_events := g s\<rparr>))" for f g
    by (simp add: stays_def unsent_def writes_def)
  then show ?thesis
    unfolding emit_def by (intro wire.combinators wire.ifM local_steps)
qed

lemma unsent_saves [local_steps]:
  "stays unsent (emitItem E item ty)" "stays unsent (store_SaveItem E item)"
  "stays unsent (store_SaveNamespace E n)" "stays unsent (saveApplied E item)"
  "stays unsent (keepDirtyAfterValueRace E item)"
  unfolding emitItem_def store_SaveItem_def store_SaveNamespace_def saveApplied_def
    keepDirtyAfterValueRace_def Let_def
  by (intro wire.combinators local_steps)+

lemma unsent_values [local_steps]:
  "stays unsent (itemCurrentValue item)" "stays unsent (setItemCurrentValueIfCurrent item c f v)"
  "stays unsent (applyMerge ns coll key base l r)"
  unfolding itemCurrentValue_def setItemCurrentValueIfCurrent_def applyMerge_def
  by (intro wire.combinators local_steps)+

lemma unsent_apply [local_steps]:
  "stays unsent (applyCleanRemoteValue E item v r c f)"
  "stays unsent (mergeRemoteValue E n item v r l)"
  "stays unsent (applyRemoteValueLocked E n item v r)"
  unfolding applyCleanRemoteValue_def mergeRemoteValue_def applyRemoteValueLocked_def Let_def
  by (intro wire.combinators wire.ifM local_steps)+

lemma unsent_saveUpload [local_steps]: "stays unsent (saveUpload E n item resp val)"
  unfolding saveUpload_def Let_def by (intro wire.combinators local_steps)

section \<open>Requests of a run\<close>

definition sends :: "(http_request list \<Rightarrow> bool) \<Rightarrow> ('w st, 'a) eff \<Rightarrow> 'w st \<Rightarrow> bool" where
  "sends P m s \<longleftrightarrow> (\<exists>rs. st_requests (snd (m s)) = st_requests s @ rs \<and> P rs)"

lemma sends_mono: "sends P m s \<Longrightarrow> (\<And>rs. P rs \<Longrightarrow> Q rs) \<Longrightarrow> sends Q m s"
  by (auto simp: sends_def)

lemma sends_unsent: "stays unsent m \<Longrightarrow> P [] \<Longrightarrow> sends P m s"
  by (auto simp: sends_def unsent_def dest: staysD [where s = s])

lemma sends_done: "P [] \<Longrightarrow> sends P (ret x) s" "P [] \<Longrightarrow> sends P (raise e) s"
  by (simp_all add: sends_unsent wire.ret wire.raise)

lemma sends_bind:
  assumes "sends P m s" and "\<And>x t. m s = (Inr x, t) \<Longrightarrow> sends Q (f x) t"
    and "\<And>a. P a \<Longrightarrow> R a" and "\<And>a b. P a \<Longrightarrow> Q b \<Longrightarrow> R (a @ b)"
  shows "sends R (bindM m f) s"
proof -
  obtain r t where run: "m s = (r, t)" by fastforce
  with assms(1) obtain a where a: "st_requests t = st_requests s @ a" "P a"
    by (auto simp: sends_def)
  show ?thesis
  proof (cases r)
    case (Inl e)
    with run a assms(3) show ?thesis by (simp add: sends_def bindM_def)
  next
    case (Inr x)
    with assms(2) run have "sends Q (f x) t" by simp
    with run Inr a assms(4) show ?thesis by (auto simp: sends_def bindM_def)
  qed
qed

lemma sends_local:
  assumes "stays unsent m" and "\<And>x t. m s = (Inr x, t) \<Longrightarrow> sends P (f x) t" and "P []"
  shows "sends P (bindM m f) s"
  using assms by (intro sends_bind [where P = "\<lambda>rs. rs = []", OF sends_unsent]) simp_all

lemma sends_result:
  assumes "\<And>x. r = Inr x \<Longrightarrow> sends P (f x) s" and "P []"
  shows "sends P (bindM (lift_result r) f) s"
  using assms
  by (intro sends_local wire.lift_result) (auto simp: lift_result_def)

lemma doJSON_requests: "st_requests (snd (doJSON E req s)) = st_requests s @ [req]"
proof -
  let ?sent = "s\<lparr>st_requests := st_requests s @ [req]\<rparr>"
  let ?m = "bindM (outside (env_http E req)) (\<lambda>resp.
      if rs_status resp \<ge> 400 then raise (APIError (rs_status resp) (rs_message resp))
      else lift_result (rs_body resp))"
  have "stays unsent ?m"
    by (intro wire.combinators wire.ifM local_steps)
  then have "st_requests (snd (?m ?sent)) = st_requests s @ [req]"
    by (auto simp: unsent_def dest: staysD [where s = ?sent])
  moreover have "doJSON E req s = ?m ?sent"
    by (simp add: doJSON_def seqM_def bindM_def writes_def)
  ultimately show ?thesis by simp
qed

lemma sends_request:
  assumes "P []" and "P [req]" and "\<And>body. stays unsent (f body)"
  shows "sends P (bindM (doJSON E req) f) s"
proof -
  have "sends (\<lambda>rs. rs = [req]) (doJSON E req) s"
    by (simp add: sends_def doJSON_requests)
  then show ?thesis
    by (rule sends_bind [OF _ sends_unsent [OF assms(3)]]) (use assms in auto)
qed

lemma sends_validated: "sends P k s \<Longrightarrow> P [] \<Longrightarrow> sends P (validated check k) s"
  unfolding validated_def seqM_def by (intro sends_result)

lemma sends_attempt: "sends P (attempt m) s \<longleftrightarrow> sends P m s"
  by (simp add: sends_def attempt_def split: prod.split)

lemma sends_unexpected [local_steps]: "stays unsent unexpected_body"
  unfolding unexpected_body_def by (rule wire.raise)

lemma sends_PutItem:
  "sends (\<lambda>rs. rs = [] \<or> rs = [put_item_request tok ns item body im])
     (client_PutItem E tok ns item body im) s"
  unfolding client_PutItem_def Let_def
  by (intro sends_validated sends_request)
    (auto intro!: wire.combinators local_steps split: api_response.split)

lemma GetItem_requests:
  assumes "client_GetItem E tok ns item s = (Inr resp, t)"
  shows "st_requests t = st_requests s @ [json_request GET (item_path ns item) tok NoBody]"
proof -
  obtain body u where run: "doJSON E (json_request GET (item_path ns item) tok NoBody) s = (Inr body, u)"
    and rest: "(case body of
        GetItemResp resp \<Rightarrow>
          seqM (guardM (gir_NamespaceID resp = ns) (mismatch ''item response namespace''))
          (seqM (guardM (gir_ItemID resp = item) (mismatch ''item response item''))
          (ret resp))
      | _ \<Rightarrow> unexpected_body) u = (Inr resp, t)"
    using assms by (auto simp: client_GetItem_def validated_def succeeds)
  from rest have "t = u" by (cases body) (simp_all add: unexpected_body_def succeeds)
  with run have "doJSON E (json_request GET (item_path ns item) tok NoBody) s = (Inr body, t)" by simp
  with doJSON_requests [of E "json_request GET (item_path ns item) tok NoBody" s] show ?thesis
    by simp
qed

lemma sends_GetItem:
  "sends (\<lambda>rs. rs = [] \<or> rs = [json_request GET (item_path ns item) tok NoBody])
     (client_GetItem E tok ns item) s"
  unfolding client_GetItem_def
  by (intro sends_validated sends_request)
    (auto intro!: wire.combinators local_steps split: api_response.split)

section \<open>Fetching\<close>

lemma sends_fetchForConflict:
  "sends (\<lambda>rs. rs = [] \<or> (\<exists>token. rs =
      [json_request GET (item_path (ns_NamespaceID n) (it_ItemID item)) token NoBody]))
     (fetchAndApplyRemoteItemForConflictLocked E n item) s"
  unfolding fetchAndApplyRemoteItemForConflictLocked_def
proof (rule sends_local)
  fix state :: IdentityState and t
  show "sends (\<lambda>rs. rs = [] \<or> (\<exists>token. rs =
      [json_request GET (item_path (ns_NamespaceID n) (it_ItemID item)) token NoBody]))
    (bindM (client_GetItem E (id_AccessToken state) (ns_NamespaceID n) (it_ItemID item)) (\<lambda>resp.
      seqM (guardM (it_Version item \<le> gir_Version resp) (rollback ''item''))
      (bindM (lift_result (decryptRemoteItem E n (it_ItemID item) resp)) (\<lambda>remoteValue.
      applyRemoteValueLocked E n item (gir_Version resp) remoteValue)))) t"
    by (rule sends_bind [OF sends_GetItem
          sends_unsent [where P = "\<lambda>rs. rs = []"]])
      (auto intro!: wire.combinators local_steps)
qed (simp_all add: local_steps)

lemma fetchForConflict_requests:
  assumes "fetchAndApplyRemoteItemForConflictLocked E n item s = (Inr x, t)"
  shows "\<exists>token. st_requests t = st_requests s @
    [json_request GET (item_path (ns_NamespaceID n) (it_ItemID item)) token NoBody]"
proof -
  have same: "st_requests u = st_requests t"
    if "applyRemoteValueLocked E n item v r t = (Inr y, u)" for v r t u y
    using staysD [OF unsent_apply(3), of t E n item v r] that by (simp add: unsent_def)
  show ?thesis
    using assms
    by (auto simp: fetchAndApplyRemoteItemForConflictLocked_def succeeds identityStateSnapshot_def
        dest!: GetItem_requests same)
qed

section \<open>An upload attempt\<close>

text \<open>
  The write \<open>r\<close> of \<open>val\<close>: encrypted with a nonce of the random source under the key of the
  namespace, for the version after the one the item has, on condition of that version.
\<close>

definition upload_put ::
  "'w env \<Rightarrow> string \<Rightarrow> NamespaceState \<Rightarrow> ItemState \<Rightarrow> bytes \<Rightarrow> http_request \<Rightarrow> bool" where
  "upload_put E tok n item val r \<longleftrightarrow>
     length val \<le> MaxItemCiphertextSize - aead_overhead \<and>
     (\<exists>w nonce aad ct. EncryptItem (env_crypto E) (fst (env_rand E ItemNonceLength w))
          (it_NamespaceID item) (it_ItemID item) (upload_target item) (ns_DEK n) val =
          Inr (nonce, aad, ct) \<and>
        r = put_item_request tok (it_NamespaceID item) (it_ItemID item)
          \<lparr>piq_Nonce = EncodeBase64 nonce, piq_AAD = EncodeBase64 aad,
           piq_Ciphertext = EncodeBase64 ct\<rparr> (upload_if_match item))"

text \<open>
  An attempt without a write can still be followed by a fetch: an application's backend may
  itself fail with a precondition error.
\<close>

definition upload_trace ::
  "'w env \<Rightarrow> string \<Rightarrow> namespaceActiveScope \<Rightarrow> NamespaceState \<Rightarrow>
   (http_request list \<Rightarrow> bool) \<Rightarrow> ItemState \<Rightarrow> http_request list \<Rightarrow> bool" where
  "upload_trace E tok scope n onward item rs \<longleftrightarrow>
     rs = [] \<or>
     upload_allowed scope item \<and>
     (\<exists>puts rest. (puts = [] \<or> (\<exists>val put. upload_put E tok n item val put \<and> puts = [put])) \<and>
        rs = puts @ rest \<and>
        (rest = [] \<or>
         (\<exists>token more. rest =
            json_request GET (item_path (ns_NamespaceID n) (it_ItemID item)) token NoBody # more \<and>
            onward more)))"

text \<open>The exchange of a flush: at most one more attempt, for the item as it is then.\<close>

definition flush_trace ::
  "'w env \<Rightarrow> string \<Rightarrow> namespaceActiveScope \<Rightarrow> NamespaceState \<Rightarrow> ItemState \<Rightarrow>
   http_request list \<Rightarrow> bool" where
  "flush_trace E tok scope n item =
     upload_trace E tok scope n (\<lambda>more. \<exists>later. item_key later = item_key item \<and>
       upload_trace E tok scope n (\<lambda>more. more = []) later more) item"

lemma sends_rand:
  assumes "\<And>w t. sends P (f (fst (env_rand E k w))) t" and "P []"
  shows "sends P (bindM (rand_bytes E k) f) s"
proof (rule sends_local)
  fix x t assume "rand_bytes E k s = (Inr x, t)"
  then have "x = fst (env_rand E k (st_world s))"
    by (auto simp: rand_bytes_def world_value_def split: prod.splits)
  then show "sends P (f x) t" using assms(1) by simp
qed (rule local_steps, rule assms(2))

lemma sends_upload:
  "sends (\<lambda>rs. rs = [] \<or> (\<exists>val put. upload_put E tok n item val put \<and> rs = [put]))
     (upload E tok n item) s"
  unfolding upload_def
proof (intro sends_local wire.attempt local_steps)
  fix r :: "err + bytes" and t
  let ?P = "\<lambda>rs. rs = [] \<or> (\<exists>val put. upload_put E tok n item val put \<and> rs = [put])"
  have put: "sends ?P (bindM (client_PutItem E tok (it_NamespaceID item) (it_ItemID item)
       \<lparr>piq_Nonce = EncodeBase64 nonce, piq_AAD = EncodeBase64 aad,
        piq_Ciphertext = EncodeBase64 ct\<rparr> (upload_if_match item)) (\<lambda>resp. ret (resp, val))) u"
    if "\<not> length val > MaxItemCiphertextSize - aead_overhead"
      and "EncryptItem (env_crypto E) (fst (env_rand E ItemNonceLength w)) (it_NamespaceID item)
        (it_ItemID item) (upload_target item) (ns_DEK n) val = Inr (nonce, aad, ct)"
    for w nonce aad ct u and val :: bytes
  proof -
    have "upload_put E tok n item val (put_item_request tok (it_NamespaceID item) (it_ItemID item)
        \<lparr>piq_Nonce = EncodeBase64 nonce, piq_AAD = EncodeBase64 aad,
         piq_Ciphertext = EncodeBase64 ct\<rparr> (upload_if_match item))"
      using that unfolding upload_put_def not_less by blast
    then show ?thesis
      by (intro sends_bind [OF sends_PutItem sends_unsent [where P = "\<lambda>rs. rs = []", OF wire.ret]])
        auto
  qed
  show "sends ?P (case r of
       Inl e \<Rightarrow>
         if errors_is ErrNotFound e
         then raise (PermanentUpload (Wrapf ''dirty item has no current value'' e))
         else raise e
     | Inr uploadValue \<Rightarrow>
         (case validateUploadValueSize item uploadValue of
            Inl e \<Rightarrow> raise (PermanentUpload e)
          | Inr _ \<Rightarrow>
              bindM (rand_bytes E ItemNonceLength) (\<lambda>nonce.
              bindM (lift_result (EncryptItem (env_crypto E) nonce (it_NamespaceID item)
                (it_ItemID item) (upload_target item) (ns_DEK n) uploadValue))
                (\<lambda>(nonce, aad, ciphertext).
              bindM (client_PutItem E tok (it_NamespaceID item) (it_ItemID item)
                \<lparr>piq_Nonce = EncodeBase64 nonce, piq_AAD = EncodeBase64 aad,
                 piq_Ciphertext = EncodeBase64 ciphertext\<rparr> (upload_if_match item)) (\<lambda>resp.
              ret (resp, uploadValue)))))) t"
  proof (cases r)
    case (Inl e)
    then show ?thesis by (auto intro!: sends_unsent wire.raise)
  next
    case (Inr val)
    then show ?thesis
      by (auto simp: validateUploadValueSize_def intro!: sends_unsent wire.raise sends_rand
          sends_result put)
  qed
qed simp

lemma sends_attempt_upload:
  assumes "upload_allowed scope item" and "\<And>t. sends onward k t" and "onward []"
  shows "sends (upload_trace E tok scope n onward item)
    (bindM (attempt (upload E tok n item)) (\<lambda>outcome.
       case outcome of
         Inr (resp, uploadValue) \<Rightarrow> saveUpload E n item resp uploadValue
       | Inl e \<Rightarrow>
           if is_permanent_upload e then ret n
           else if isPreconditionError e
           then seqM (fetchAndApplyRemoteItemForConflictLocked E n item) k
           else raise e)) s"
proof (rule sends_bind)
  let ?Q = "\<lambda>rs. rs = [] \<or> (\<exists>token more. rs =
      json_request GET (item_path (ns_NamespaceID n) (it_ItemID item)) token NoBody # more \<and>
      onward more)"
  show "sends (\<lambda>rs. rs = [] \<or> (\<exists>val put. upload_put E tok n item val put \<and> rs = [put]))
      (attempt (upload E tok n item)) s"
    by (simp add: sends_attempt sends_upload)
  have again: "sends ?Q (seqM (fetchAndApplyRemoteItemForConflictLocked E n item) k) t" for t
  proof (cases "fetchAndApplyRemoteItemForConflictLocked E n item t")
    case (Pair r u)
    show ?thesis
    proof (cases r)
      case (Inl e)
      with Pair sends_fetchForConflict [of n item E t] show ?thesis
        by (auto simp: sends_def seqM_def bindM_def assms(3))
    next
      case (Inr x)
      with Pair have "fetchAndApplyRemoteItemForConflictLocked E n item t = (Inr x, u)" by simp
      from fetchForConflict_requests [OF this] assms(2) [of u] Pair Inr show ?thesis
        by (auto simp: sends_def seqM_def bindM_def)
    qed
  qed
  show "sends ?Q (case outcome of
         Inr (resp, uploadValue) \<Rightarrow> saveUpload E n item resp uploadValue
       | Inl e \<Rightarrow>
           if is_permanent_upload e then ret n
           else if isPreconditionError e
           then seqM (fetchAndApplyRemoteItemForConflictLocked E n item) k
           else raise e) t" for outcome t
    by (auto intro!: again sends_unsent local_steps wire.ret wire.raise
        split: sum.split prod.split)
  fix a b
  assume "a = [] \<or> (\<exists>val put. upload_put E tok n item val put \<and> a = [put])" and "?Q b"
  with assms(1) show "upload_trace E tok scope n onward item (a @ b)"
    unfolding upload_trace_def by blast
qed (use assms(1) in \<open>auto simp: upload_trace_def\<close>)

lemma GetItemByID_key:
  assumes "fst (GetItemByID k n i d) = Inr item"
  shows "item_key item = (k, n, i)"
  using assms
  by (auto simp: GetItemByID_def getItem_def scan_item_def find_Some_iff item_pk_def item_key_def
      split: option.splits)

lemma sends_GetItemByID:
  assumes "\<And>item t. st_db t = st_db s \<Longrightarrow> fst (GetItemByID k ns i (st_db s)) = Inr item \<Longrightarrow>
      sends P (f (Inr item)) t"
    and "\<And>e t. sends P (f (Inl e)) t" and "P []"
  shows "sends P (bindM (attempt (stored E (GetItemByID k ns i))) f) s"
proof (rule sends_local)
  fix r t
  assume run: "attempt (stored E (GetItemByID k ns i)) s = (Inr r, t)"
  show "sends P (f r) t"
  proof (cases r)
    case (Inr item)
    have "snd (GetItemByID k ns i d) = d" for d
      by (rule store_reads_only(4))
    with run Inr have "st_db t = st_db s" "fst (GetItemByID k ns i (st_db s)) = Inr item"
      by (auto simp: attempt_def stored_def bindM_def world_value_def on_db_def raise_def
          split: prod.splits option.splits sum.splits)
        (metis fst_conv snd_conv)+
    with Inr assms(1) show ?thesis by simp
  qed (use assms(2) in simp)
qed (use assms(3) in \<open>auto intro: wire.attempt local_steps\<close>)

lemma sends_retryUpload:
  "sends (\<lambda>rs. \<exists>later. item_key later = (env_keyID E, it_NamespaceID item, it_ItemID item) \<and>
      upload_trace E tok scope n (\<lambda>more. more = []) later rs)
    (retryUpload E tok scope n item) s"
  (is "sends ?P _ _")
proof -
  have none: "?P []"
    by (rule exI [of _ "item\<lparr>it_KeyID := env_keyID E\<rparr>"]) (simp add: upload_trace_def item_key_def)
  have again: "sends ?P (bindM (attempt (upload E tok n later)) (\<lambda>outcome.
       case outcome of
         Inr (resp, uploadValue) \<Rightarrow> saveUpload E n later resp uploadValue
       | Inl e \<Rightarrow>
           if is_permanent_upload e then ret n
           else if isPreconditionError e
           then seqM (fetchAndApplyRemoteItemForConflictLocked E n later) (ret n)
           else raise e)) t"
    if "fst (GetItemByID (env_keyID E) (it_NamespaceID item) (it_ItemID item) d) = Inr later"
      and "upload_allowed scope later" for d later t
    by (rule sends_mono [OF sends_attempt_upload [where onward = "\<lambda>more. more = []",
            OF that(2) sends_unsent [OF wire.ret]]])
      (use GetItemByID_key [OF that(1)] in auto)
  show ?thesis
    unfolding retryUpload_def
    by (rule sends_GetItemByID)
      (auto intro!: again sends_done none)
qed

lemma sends_flushItem:
  "sends (\<lambda>rs. rs = [] \<or> (\<exists>item'.
      fst (GetItemByID (env_keyID E) (it_NamespaceID item) (it_ItemID item) (st_db s)) = Inr item' \<and>
      flush_trace E tok scope n item' rs))
    (flushItem E tok scope n item) s"
  (is "sends ?P _ _")
proof -
  have first: "sends (\<lambda>rs. rs = [] \<or> flush_trace E tok scope n current rs) (bindM (attempt (upload E tok n current)) (\<lambda>outcome.
       case outcome of
         Inr (resp, uploadValue) \<Rightarrow> saveUpload E n current resp uploadValue
       | Inl e \<Rightarrow>
           if is_permanent_upload e then ret n
           else if isPreconditionError e
           then seqM (fetchAndApplyRemoteItemForConflictLocked E n current)
                  (retryUpload E tok scope n current)
           else raise e)) t"
    if current: "fst (GetItemByID (env_keyID E) (it_NamespaceID item) (it_ItemID item) (st_db s)) =
        Inr current" and "upload_allowed scope current" for current t
  proof -
    have key: "item_key current = (env_keyID E, it_NamespaceID current, it_ItemID current)"
      using GetItemByID_key [OF current] by (simp add: item_key_def)
    have none: "\<exists>later. item_key later = item_key current \<and>
        upload_trace E tok scope n (\<lambda>more. more = []) later []"
      by (auto simp: upload_trace_def)
    have "sends (flush_trace E tok scope n current) (bindM (attempt (upload E tok n current)) (\<lambda>outcome.
       case outcome of
         Inr (resp, uploadValue) \<Rightarrow> saveUpload E n current resp uploadValue
       | Inl e \<Rightarrow>
           if is_permanent_upload e then ret n
           else if isPreconditionError e
           then seqM (fetchAndApplyRemoteItemForConflictLocked E n current)
                  (retryUpload E tok scope n current)
           else raise e)) t"
      unfolding flush_trace_def
      by (rule sends_attempt_upload [OF that(2) sends_retryUpload [of E current tok scope n, folded key] none])
    then show ?thesis
      by (rule sends_mono) simp
  qed
  show ?thesis
    unfolding flushItem_def
    by (rule sends_GetItemByID) (auto intro!: first sends_done)
qed

end
