(* ===== verification/Upload_Spec.thy ===== *)
theory Upload_Spec
  imports Apply_Spec Upload_Trace
begin

text \<open>
  The functional contract of an upload and of the matching download: when the server accepts
  the conditional write, a flush leaves the item clean at the new version with the uploaded
  value as its base; the write that was sent, served back at that version, decrypts to the
  uploaded value on any client that has the key of the namespace, and at no other version.
\<close>

section \<open>Reading back a write\<close>

text \<open>A response that serves the body of a write at some version.\<close>

definition served :: "string \<Rightarrow> string \<Rightarrow> u64 \<Rightarrow> PutItemRequest \<Rightarrow> GetItemResponse" where
  "served ns item version body =
     \<lparr>gir_NamespaceID = ns, gir_ItemID = item, gir_Version = version,
      gir_Nonce = piq_Nonce body, gir_AAD = piq_AAD body, gir_Ciphertext = piq_Ciphertext body\<rparr>"

definition random_length :: "'w env \<Rightarrow> bool" where
  "random_length E \<longleftrightarrow> (\<forall>k w. length (fst (env_rand E k w)) = k)"

lemma upload_put_body:
  assumes "upload_put E tok n item val r" and "random_length E"
  obtains nonce aad ct where
    "EncryptItem (env_crypto E) nonce (it_NamespaceID item) (it_ItemID item) (upload_target item)
       (ns_DEK n) val = Inr (nonce, aad, ct)"
    and "length nonce = ItemNonceLength"
    and "r = put_item_request tok (it_NamespaceID item) (it_ItemID item)
      \<lparr>piq_Nonce = EncodeBase64 nonce, piq_AAD = EncodeBase64 aad,
       piq_Ciphertext = EncodeBase64 ct\<rparr> (upload_if_match item)"
proof -
  from assms(1) obtain w nonce aad ct where
    enc: "EncryptItem (env_crypto E) (fst (env_rand E ItemNonceLength w)) (it_NamespaceID item)
       (it_ItemID item) (upload_target item) (ns_DEK n) val = Inr (nonce, aad, ct)"
    and r: "r = put_item_request tok (it_NamespaceID item) (it_ItemID item)
      \<lparr>piq_Nonce = EncodeBase64 nonce, piq_AAD = EncodeBase64 aad,
       piq_Ciphertext = EncodeBase64 ct\<rparr> (upload_if_match item)"
    unfolding upload_put_def by blast
  from enc have "fst (env_rand E ItemNonceLength w) = nonce" by (auto simp: EncryptItem_def)
  with enc r that assms(2) show thesis by (metis random_length_def)
qed

lemma put_item_request_body:
  "rq_body (put_item_request tok ns item body im) = PutItemReq body"
  by (simp add: put_item_request_def json_request_def)

lemma decrypt_served:
  assumes "aead_correct (env_crypto E')" and "length nonce = ItemNonceLength"
    and enc: "EncryptItem (env_crypto E') nonce ns item v (ns_DEK n) val = Inr (nonce, aad, ct)"
    and body: "piq_Nonce body = EncodeBase64 nonce" "piq_AAD body = EncodeBase64 aad"
      "piq_Ciphertext body = EncodeBase64 ct"
    and target: "BuildItemAAD (ns_NamespaceID n) item' v' = Inr aad'"
  shows "decryptRemoteItem E' n item' (served ns' item'' v' body) =
    (if ns_NamespaceID n = ns \<and> item' = item \<and> v' = v then Inr val
     else Inl (Sentinel ErrAADMismatch))"
proof -
  have aad: "BuildItemAAD ns item v = Inr aad" and ct: "ct = aead_seal (env_crypto E')
      (hkdf_sha256_32 (env_crypto E') (ns_DEK n) namespaceBlobKeyInfo) nonce val aad"
    and dek: "length (ns_DEK n) = NamespaceDEKLen"
      "length (hkdf_sha256_32 (env_crypto E') (ns_DEK n) namespaceBlobKeyInfo) = 32"
    using enc by (auto simp: EncryptItem_def NamespaceBlobKey_def new_item_aead_def)
  have decoded: "DecodeBase64Exact name (EncodeBase64 nonce) ItemNonceLength = Inr nonce"
    "DecodeBase64 name (EncodeBase64 b) = Inr b" for name b
    using assms(2) by (simp_all add: DecodeBase64Exact_accepts DecodeBase64_accepts)
  have "VerifyAAD (ns_NamespaceID n) item' v' aad =
      (if aad' = aad then Inr () else Inl (Sentinel ErrAADMismatch))"
    by (simp add: VerifyAAD_def target ensureR_def)
  moreover have "aad' = aad \<longleftrightarrow> ns_NamespaceID n = ns \<and> item' = item \<and> v' = v"
  proof
    assume "aad' = aad"
    with aad have "BuildItemAAD ns item v = Inr aad'" by simp
    from BuildItemAAD_inject [OF target this]
    show "ns_NamespaceID n = ns \<and> item' = item \<and> v' = v" .
  next
    assume "ns_NamespaceID n = ns \<and> item' = item \<and> v' = v"
    with target aad show "aad' = aad" by simp
  qed
  moreover have "DecryptItem (env_crypto E') (ns_DEK n) nonce aad ct = Inr val"
    using assms(1,2) dek
    by (simp add: DecryptItem_def NamespaceBlobKey_def new_item_aead_def ct aead_correct_def)
  ultimately show ?thesis
    by (simp add: decryptRemoteItem_def served_def body decoded)
qed

section \<open>An accepted upload\<close>

lemma wp_unsent:
  assumes "stays unsent m" and "wp m Q X s"
  shows "wp m (\<lambda>x t. Q x t \<and> st_requests t = st_requests s) X s"
proof -
  have "wp m (\<lambda>_ t. st_requests t = st_requests s) (\<lambda>_ t. st_requests t = st_requests s) s"
    using staysD [OF assms(1), of s] by (simp add: wp_snd unsent_def)
  with assms(2) show ?thesis by (rule wp_mono [OF wp_conj]) simp_all
qed

text \<open>
  The server accepts the upload of \<open>item\<close>: it answers any write an upload may send with the
  version the write is for. Neither it nor the random source writes to the application's
  storage.
\<close>

definition accepts_upload ::
  "'w env \<Rightarrow> ('w \<Rightarrow> string \<Rightarrow> 't option) \<Rightarrow> string \<Rightarrow> NamespaceState \<Rightarrow> ItemState \<Rightarrow> bool" where
  "accepts_upload E view tok n item \<longleftrightarrow>
     (\<forall>k w. view (snd (env_rand E k w)) = view w) \<and>
     (\<forall>val r w. upload_put E tok n item val r \<longrightarrow>
        (\<exists>resp w'. env_http E r w = (Inr resp, w') \<and> rs_status resp < 400 \<and>
           rs_body resp = Inr (PutItemResp \<lparr>pir_NamespaceID = it_NamespaceID item,
             pir_ItemID = it_ItemID item, pir_Version = upload_target item\<rparr>) \<and>
           view w' = view w))"

text \<open>The item and the key of its namespace are usable: valid IDs and a key of 32 bytes.\<close>

definition encryptable :: "'w env \<Rightarrow> NamespaceState \<Rightarrow> ItemState \<Rightarrow> bool" where
  "encryptable E n item \<longleftrightarrow> sha256_length (env_crypto E) \<and>
     (\<exists>aad. BuildItemAAD (it_NamespaceID item) (it_ItemID item) (upload_target item) = Inr aad) \<and>
     length (ns_DEK n) = NamespaceDEKLen"

lemma encryptable_encrypts:
  assumes "encryptable E n item"
  obtains aad ct where "EncryptItem (env_crypto E) nonce (it_NamespaceID item) (it_ItemID item)
    (upload_target item) (ns_DEK n) val = Inr (nonce, aad, ct)"
  using assms
  by (auto simp: encryptable_def EncryptItem_def NamespaceBlobKey_def new_item_aead_def length_hkdf)

lemma encryptable_valid:
  assumes "encryptable E n item"
  shows "ValidateNamespaceID (it_NamespaceID item) = Inr ()" "ValidateItemID (it_ItemID item) = Inr ()"
  using assms
  by (auto simp: encryptable_def BuildItemAAD_def DecodeLowerHexExact_accepts
      ValidateNamespaceID_def ValidateItemID_def validate_hex_def)

context synced_collection
begin

lemma wp_accepted_put:
  assumes server: "accepts_upload E bview tok n item" and put: "upload_put E tok n item val r"
    and r: "r = put_item_request tok (it_NamespaceID item) (it_ItemID item) body (upload_if_match item)"
    and valid: "ValidateNamespaceID (it_NamespaceID item) = Inr ()"
      "ValidateItemID (it_ItemID item) = Inr ()"
    and Q: "\<And>resp t. pir_Version resp = upload_target item \<Longrightarrow> idle bview s t \<Longrightarrow>
      st_requests t = st_requests s @ [r] \<Longrightarrow> Q resp t"
  shows "wp (client_PutItem E tok (it_NamespaceID item) (it_ItemID item) body (upload_if_match item)) Q X s"
proof -
  let ?sent = "s\<lparr>st_requests := st_requests s @ [r]\<rparr>"
  let ?v = "\<lparr>pir_NamespaceID = it_NamespaceID item, pir_ItemID = it_ItemID item,
      pir_Version = upload_target item\<rparr>"
  obtain resp w where http: "env_http E r (st_world s) = (Inr resp, w)" "rs_status resp < 400"
    "rs_body resp = Inr (PutItemResp ?v)" "bview w = bview (st_world s)"
    using server put unfolding accepts_upload_def by blast
  have "doJSON E r s = (Inr (PutItemResp ?v), ?sent\<lparr>st_world := w\<rparr>)"
    using http
    by (simp add: doJSON_def seqM_def bindM_def writes_def outside_def lift_result_def)
  moreover have "(case upload_if_match item of None \<Rightarrow> 1 | Some v \<Rightarrow> v + 1) = upload_target item"
    by (simp add: upload_if_match_def upload_target_def)
  moreover have "Q ?v (?sent\<lparr>st_world := w\<rparr>)"
    using http(4) by (intro Q) (simp_all add: idle_def)
  ultimately show ?thesis
    unfolding client_PutItem_def validated_def wp_seqM wp_bindM
    by (simp add: valid wp r [symmetric]) (simp add: wp_def [of "doJSON E r"] wp)
qed

lemma wp_upload:
  assumes reg: "map_of (st_collections s)
      (collectionRegistryKey (it_NamespaceID item) (it_Collection item)) = Some c"
    and val: "bview (st_world s) (it_Key item) = Some val"
      "length val \<le> MaxItemCiphertextSize - aead_overhead"
    and server: "accepts_upload E bview tok n item" and enc: "encryptable E n item"
    and Q: "\<And>resp t put. pir_Version resp = upload_target item \<Longrightarrow> idle bview s t \<Longrightarrow>
      upload_put E tok n item val put \<Longrightarrow> st_requests t = st_requests s @ [put] \<Longrightarrow> Q (resp, val) t"
  shows "wp (upload E tok n item) Q X s"
proof -
  obtain nonce w where rand: "env_rand E ItemNonceLength (st_world s) = (nonce, w)" by fastforce
  then have w: "bview w = bview (st_world s)"
    using server unfolding accepts_upload_def by (metis snd_conv)
  obtain aad ct where e: "EncryptItem (env_crypto E) nonce (it_NamespaceID item) (it_ItemID item)
      (upload_target item) (ns_DEK n) val = Inr (nonce, aad, ct)"
    using encryptable_encrypts [OF enc] .
  let ?body = "\<lparr>piq_Nonce = EncodeBase64 nonce, piq_AAD = EncodeBase64 aad,
      piq_Ciphertext = EncodeBase64 ct\<rparr>"
  let ?put = "put_item_request tok (it_NamespaceID item) (it_ItemID item) ?body (upload_if_match item)"
  have put: "upload_put E tok n item val ?put"
    unfolding upload_put_def using val(2) e rand by (metis fst_conv)
  have "wp (client_PutItem E tok (it_NamespaceID item) (it_ItemID item) ?body (upload_if_match item))
      (\<lambda>resp. wp (ret (resp, val)) Q X) X (s\<lparr>st_world := w\<rparr>)"
    by (rule wp_accepted_put [OF server put refl encryptable_valid [OF enc]])
      (use w in \<open>auto simp: wp idle_def intro!: Q put\<close>)
  then show ?thesis
    unfolding upload_def wp_bindM wp_attempt
    using val rand e
    by (simp add: wp_current [OF reg] validateUploadValueSize_def rand_bytes_def wp)
qed

text \<open>What an accepted upload leaves behind.\<close>

definition uploaded ::
  "string \<Rightarrow> NamespaceState \<Rightarrow> ItemState \<Rightarrow> bytes \<Rightarrow> 'w st \<Rightarrow> NamespaceState \<Rightarrow> 'w st \<Rightarrow> bool" where
  "uploaded tok n item val s n' t \<longleftrightarrow>
     ns_NamespaceHead n' = ns_NamespaceHead n + 1 \<and> ns_DEK n' = ns_DEK n \<and>
     st_collections t = st_collections s \<and> db_wf (st_db t) \<and>
     committed bview s item (item_at item (upload_target item) val False, Some val) t \<and>
     (\<exists>put. upload_put E tok n item val put \<and> st_requests t = st_requests s @ [put])"

lemma wp_saveUpload:
  assumes "savable (st_db s) item" and "storable v" and "storable (ns_NamespaceHead n + 1)"
    and Q: "\<And>n' t now. ns_NamespaceHead n' = ns_NamespaceHead n + 1 \<Longrightarrow> ns_DEK n' = ns_DEK n \<Longrightarrow>
      st_collections t = st_collections s \<Longrightarrow> db_wf (st_db t) \<Longrightarrow>
      item_of (st_db t) =
        (item_of (st_db s))(item_key item \<mapsto> (item_at item v val False)\<lparr>it_UpdatedAt := now\<rparr>) \<Longrightarrow>
      bview (st_world t) = bview (st_world s) \<Longrightarrow> Q n' t"
    and "pir_Version resp = v"
  shows "wp (saveUpload E n item resp val) Q X s"
proof -
  let ?clean = "\<lambda>now. markItemClean now item v val"
  let ?ns = "\<lambda>now. n\<lparr>ns_NamespaceHead := ns_NamespaceHead n + 1, ns_UpdatedAt := now\<rparr>"
  note outcome = same_item_outcomes [OF same_item_marks(1) [of item]]
  have saveNamespace: "wp (store_SaveNamespace E (?ns now)) P X t"
    if P: "\<And>u. item_of (st_db u) = item_of (st_db t) \<Longrightarrow> bview (st_world u) = bview (st_world t) \<Longrightarrow>
      st_collections u = st_collections t \<Longrightarrow> (db_wf (st_db t) \<Longrightarrow> db_wf (st_db u)) \<Longrightarrow> P () u"
    for P now t
    unfolding store_SaveNamespace_def wp_bindM
  proof (rule wp_time, rule wp_store)
    fix later u w assume u: "idle bview t u" "idle bview u w"
    obtain r where "namespace_to_row later (?ns now) = Inr r"
      using assms(3) by (auto simp: namespace_to_row_def sql_uint64_storable)
    then show "case SaveNamespace later (?ns now) (st_db u) of (r, d) \<Rightarrow>
        (case r of Inl e \<Rightarrow> X e (w\<lparr>st_db := d\<rparr>) | Inr x \<Rightarrow> P x (w\<lparr>st_db := d\<rparr>))"
      using u db_wf_SaveNamespace [of "st_db t" later "?ns now"]
      by (simp add: SaveNamespace_def idle_def P item_of_def fun_eq_iff)
  qed
  show ?thesis
    unfolding saveUpload_def Let_def wp_bindM wp_seqM assms(5)
  proof (rule wp_time, rule wp_save, goal_cases)
    case (1 now t)
    then show ?case using assms(1,2) by (simp add: savable_marks same_item_marks idle_def)
  next
    case (2 now t u)
    show ?case
    proof (rule wp_time, rule saveNamespace, rule wp_emitItem, goal_cases)
      case (1 later x y z)
      from 2 obtain at where "item_of (st_db u) = (item_of (st_db t))
          (item_key (?clean now) \<mapsto> (?clean now)\<lparr>it_UpdatedAt := at\<rparr>)"
        by (auto simp: saved_def)
      moreover have "db_wf (st_db t)" using 2 assms(1) by (simp add: idle_def savable_def)
      ultimately show ?case
        using 1 2 unfolding wp_ret
        by (intro Q [where now = at]) (simp_all add: idle_def saved_def outcome)
    qed
  qed
qed

lemma flush_accepted:
  assumes reg: "map_of (st_collections s)
      (collectionRegistryKey (it_NamespaceID item) (it_Collection item)) = Some c"
    and stored: "db_wf (st_db s)" "item_of (st_db s) (item_key item) = Some item"
    and key: "item_key item = (env_keyID E, it_NamespaceID i, it_ItemID i)"
    and storable: "storable (upload_target item)" "storable (ns_NamespaceHead n + 1)"
    and val: "bview (st_world s) (it_Key item) = Some val"
      "length val \<le> MaxItemCiphertextSize - aead_overhead"
    and server: "accepts_upload E bview tok n item" and enc: "encryptable E n item"
    and allowed: "upload_allowed scope item"
  shows "wp (flushItem E tok scope n i) (uploaded tok n item val s) (\<lambda>_ _. False) s"
  unfolding flushItem_def wp_bindM wp_attempt
proof (rule wp_mono [OF wp_unsent [OF unsent_stored wp_store]])
  let ?P = "\<lambda>r t. r = item \<and> idle bview s t"
  fix t assume t: "idle bview s t"
  show "case GetItemByID (env_keyID E) (it_NamespaceID i) (it_ItemID i) (st_db s) of (r, d) \<Rightarrow>
      (case r of Inl e \<Rightarrow> False | Inr x \<Rightarrow> ?P x (t\<lparr>st_db := d\<rparr>))"
    using stored key t by (simp add: GetItemByID_item_of idle_def)
next
  fix r t assume "(r = item \<and> idle bview s t) \<and> st_requests t = st_requests s"
  then have r: "r = item" and t: "idle bview s t" "st_requests t = st_requests s" by simp_all
  have reg': "map_of (st_collections t)
      (collectionRegistryKey (it_NamespaceID item) (it_Collection item)) = Some c"
    and val': "bview (st_world t) (it_Key item) = Some val"
    using reg val t by (simp_all add: idle_def)
  have save: "wp (saveUpload E n item resp val) (uploaded tok n item val s) (\<lambda>_ _. False) u"
    if "pir_Version resp = upload_target item" and "idle bview t u"
      and "upload_put E tok n item val put" and "st_requests u = st_requests t @ [put]"
    for resp u put
  proof (rule wp_mono [OF wp_unsent [OF unsent_saveUpload wp_saveUpload
          [where Q = "\<lambda>n' t. \<exists>now. ns_NamespaceHead n' = ns_NamespaceHead n + 1 \<and>
             ns_DEK n' = ns_DEK n \<and> st_collections t = st_collections u \<and> db_wf (st_db t) \<and>
             item_of (st_db t) = (item_of (st_db u))(item_key item \<mapsto>
               (item_at item (upload_target item) val False)\<lparr>it_UpdatedAt := now\<rparr>) \<and>
             bview (st_world t) = bview (st_world u)", OF _ storable]]], goal_cases)
    case 1
    then show ?case using stored stored_savable t that(2) by (simp add: idle_def)
  next
    case (4 n' x)
    then show ?case
      using t that val(1) by (auto simp: uploaded_def committed_def idle_def fun_upd_idem)
  qed (use that in auto)
  have "wp (upload E tok n item)
      (\<lambda>x. wp (case x of (resp, val) \<Rightarrow> saveUpload E n item resp val)
         (uploaded tok n item val s) (\<lambda>_ _. False)) (\<lambda>_ _. False) t"
    by (rule wp_upload [OF reg' val' val(2) server enc]) (simp add: save)
  then show "wp (case Inr r of
       Inl e \<Rightarrow> if errors_is ErrNotFound e then ret n else raise e
     | Inr item \<Rightarrow>
         if \<not> upload_allowed scope item then ret n
         else
           bindM (attempt (upload E tok n item)) (\<lambda>outcome.
           case outcome of
             Inr (resp, uploadValue) \<Rightarrow> saveUpload E n item resp uploadValue
           | Inl e \<Rightarrow>
               if is_permanent_upload e then ret n
               else if isPreconditionError e
               then seqM (fetchAndApplyRemoteItemForConflictLocked E n item)
                      (retryUpload E tok scope n item)
               else raise e)) (uploaded tok n item val s) (\<lambda>_ _. False) t"
    by (simp add: r allowed wp_bindM wp_attempt) (rule wp_mono, assumption, simp_all)
qed simp_all

end

section \<open>Downloading\<close>

text \<open>The server answers the fetch of an item with \<open>resp\<close>, whatever the session.\<close>

definition serves ::
  "'w env \<Rightarrow> ('w \<Rightarrow> string \<Rightarrow> 't option) \<Rightarrow> string \<Rightarrow> string \<Rightarrow> GetItemResponse \<Rightarrow> bool" where
  "serves E view ns item resp \<longleftrightarrow>
     gir_NamespaceID resp = ns \<and> gir_ItemID resp = item \<and>
     (\<forall>tok w. \<exists>r w'. env_http E (json_request GET (item_path ns item) tok NoBody) w = (Inr r, w') \<and>
        rs_status r < 400 \<and> rs_body r = Inr (GetItemResp resp) \<and> view w' = view w)"

lemma achieves_idle:
  assumes "achieves bview t item outcome m t" and "idle bview s t"
  shows "achieves bview s item outcome m t"
  using assms by (simp add: achieves_def committed_def unchanged_def idle_def)

context synced_collection
begin

lemma wp_served:
  assumes "serves E bview ns item resp"
    and "ValidateNamespaceID ns = Inr ()" "ValidateItemID item = Inr ()"
    and Q: "\<And>t. idle bview s t \<Longrightarrow> Q resp t"
  shows "wp (client_GetItem E tok ns item) Q X s"
proof -
  let ?r = "json_request GET (item_path ns item) tok NoBody"
  let ?sent = "s\<lparr>st_requests := st_requests s @ [?r]\<rparr>"
  obtain r w where http: "env_http E ?r (st_world s) = (Inr r, w)" "rs_status r < 400"
    "rs_body r = Inr (GetItemResp resp)" "bview w = bview (st_world s)"
    using assms(1) unfolding serves_def by blast
  have ids: "gir_NamespaceID resp = ns" "gir_ItemID resp = item"
    using assms(1) by (simp_all add: serves_def)
  have "doJSON E ?r s = (Inr (GetItemResp resp), ?sent\<lparr>st_world := w\<rparr>)"
    using http
    by (simp add: doJSON_def seqM_def bindM_def writes_def outside_def lift_result_def)
  moreover have "Q resp (?sent\<lparr>st_world := w\<rparr>)"
    using http(4) by (intro Q) (simp add: idle_def)
  ultimately show ?thesis
    unfolding client_GetItem_def validated_def wp_seqM wp_bindM
    by (simp add: assms(2,3) ids wp) (simp add: wp_def [of "doJSON E ?r"] wp ids)
qed

lemma fetch_achieves:
  assumes reg: "map_of (st_collections s)
      (collectionRegistryKey (it_NamespaceID item) (it_Collection item)) = Some c"
    and stored: "db_wf (st_db s)" "item_of (st_db s) (item_key item) = Some item"
    and key: "it_KeyID item = env_keyID E" and ns: "ns_NamespaceID n = it_NamespaceID item"
    and server: "serves E bview (it_NamespaceID item) (it_ItemID item) resp"
    and ids: "ValidateNamespaceID (it_NamespaceID item) = Inr ()" "ValidateItemID (it_ItemID item) = Inr ()"
    and remote: "decryptRemoteItem E n (it_ItemID item) resp = Inr remote" "valid remote"
    and newer: "it_Version item < gir_Version resp" "v \<le> gir_Version resp"
      "storable (gir_Version resp)"
  shows "achieves bview s item
    (apply_spec (rc_mergeBytes c (it_Key item)) item (bview (st_world s) (it_Key item))
       (gir_Version resp) remote)
    (fetchAndApplyRemoteItem E n item v) s"
proof -
  have applied: "wp (applyRemoteValueLocked E n item (gir_Version resp) remote)
      (\<lambda>_ u. \<exists>x. apply_spec (rc_mergeBytes c (it_Key item)) item (bview (st_world s) (it_Key item))
          (gir_Version resp) remote = Inr x \<and> committed bview s item x u)
      (\<lambda>e u. apply_spec (rc_mergeBytes c (it_Key item)) item (bview (st_world s) (it_Key item))
          (gir_Version resp) remote = Inl e \<and> unchanged bview s u) t"
    if t: "idle bview s t" for t
  proof -
    have "achieves bview t item (apply_spec (rc_mergeBytes c (it_Key item)) item
        (bview (st_world t) (it_Key item)) (gir_Version resp) remote)
        (applyRemoteValueLocked E n item (gir_Version resp) remote) t"
      using t stored by (intro applyRemoteValueLocked_achieves reg newer remote ns)
        (simp_all add: idle_def reg stored_savable)
    from achieves_idle [OF this t] t show ?thesis by (simp add: achieves_def idle_def)
  qed
  have found: "wp (stored E (GetItemByID (env_keyID E) (it_NamespaceID item) (it_ItemID item)))
      (\<lambda>x u. x = item \<and> idle bview s u) (\<lambda>_ _. False) t" if t: "idle bview s t" for t
  proof (rule wp_store)
    fix u assume u: "idle bview t u"
    have "GetItemByID (env_keyID E) (it_NamespaceID item) (it_ItemID item) (st_db t) =
        (Inr item, st_db t)"
      using stored t by (simp add: GetItemByID_item_of idle_def flip: key) (simp add: item_key_def)
    with t u show "case GetItemByID (env_keyID E) (it_NamespaceID item) (it_ItemID item) (st_db t) of
        (r, d) \<Rightarrow> (case r of Inl e \<Rightarrow> False
         | Inr x \<Rightarrow> x = item \<and> idle bview s (u\<lparr>st_db := d\<rparr>))"
      by (simp add: idle_def)
  qed
  show ?thesis
    unfolding achieves_def fetchAndApplyRemoteItem_def identityStateSnapshot_def wp_bindM wp_reads ns
  proof (rule wp_served [OF server ids])
    fix t assume t: "idle bview s t"
    have older: "it_Version item \<le> gir_Version resp" using newer(1) by simp
    have current: "\<not> gir_Version resp \<le> it_Version item" using newer(1) by simp
    show "wp (seqM (guardM (it_Version item \<le> gir_Version resp) (rollback ''item''))
     (bindM (lift_result (decryptRemoteItem E n (it_ItemID item) resp)) (\<lambda>remoteValue.
     seqM (guardM (v \<le> gir_Version resp) (rollback ''item''))
     (bindM (attempt (stored E (GetItemByID (env_keyID E) (it_NamespaceID item) (it_ItemID item))))
       (\<lambda>r.
      case r of
        Inr currentItem \<Rightarrow>
          if gir_Version resp \<le> it_Version currentItem then ret ()
          else applyRemoteValueLocked E n currentItem (gir_Version resp) remoteValue
      | Inl e \<Rightarrow>
          if \<not> errors_is ErrNotFound e then raise e
          else if it_KeyID item = [] then ret ()
          else if gir_Version resp \<le> it_Version item then ret ()
          else applyRemoteValueLocked E n item (gir_Version resp) remoteValue)))))
      (\<lambda>_ u. \<exists>x. apply_spec (rc_mergeBytes c (it_Key item)) item (bview (st_world s) (it_Key item))
          (gir_Version resp) remote = Inr x \<and> committed bview s item x u)
      (\<lambda>e u. apply_spec (rc_mergeBytes c (it_Key item)) item (bview (st_world s) (it_Key item))
          (gir_Version resp) remote = Inl e \<and> unchanged bview s u) t"
      unfolding wp_seqM wp_bindM wp_attempt wp_guardM wp_lift_result remote(1) sum.case
        if_P [OF older] if_P [OF newer(2)]
      by (rule wp_mono [OF found [OF t]]) (simp_all only: if_not_P [OF current] applied)
  qed
qed

end

end
