(* ===== verification/Upload_Properties.thy ===== *)
theory Upload_Properties
  imports Upload_Spec Apply_Properties
begin

text \<open>
  Properties of the exchange of item values with the server (\<open>flushDirtyItems\<close>,
  \<open>fetchAndApplyRemoteItem\<close> and \<open>decryptRemoteItem\<close> of \<open>src/bitboxsync/engine_items.go\<close>): what a
  flush sends, what an accepted upload leaves behind, what arrives at another client, and what
  is refused.
\<close>

section \<open>What a flush sends\<close>

lemma upload_trace_length:
  assumes "upload_trace E tok scope n onward item rs"
    and "\<And>more. onward more \<Longrightarrow> length more \<le> a \<and> length (filter (\<lambda>r. rq_method r = PUT) more) \<le> b"
  shows "length rs \<le> a + 2 \<and> length (filter (\<lambda>r. rq_method r = PUT) rs) \<le> b + 1"
  using assms by (fastforce simp: upload_trace_def json_request_def)

text \<open>C10: The flush of an item sends nothing unless the stored item is dirty, active and
  not in conflict. Otherwise it sends at most one conditional write of the item, bound to the
  stored version, and, if that failed, fetches the item and tries once more with the version
  stored then: at most four requests, two of them writes.\<close>

theorem flush_requests:
  "\<exists>rs. st_requests (snd (flushItem E tok scope n item s)) = st_requests s @ rs \<and>
     length rs \<le> 4 \<and> length (filter (\<lambda>r. rq_method r = PUT) rs) \<le> 2 \<and>
     (rs = [] \<or> (\<exists>current.
        fst (GetItemByID (env_keyID E) (it_NamespaceID item) (it_ItemID item) (st_db s)) = Inr current \<and>
        upload_allowed scope current \<and> flush_trace E tok scope n current rs))"
proof -
  obtain rs where rs: "st_requests (snd (flushItem E tok scope n item s)) = st_requests s @ rs"
    and "rs = [] \<or> (\<exists>current.
      fst (GetItemByID (env_keyID E) (it_NamespaceID item) (it_ItemID item) (st_db s)) = Inr current \<and>
      flush_trace E tok scope n current rs)"
    using sends_flushItem [of E item s tok scope n] by (auto simp: sends_def)
  then consider "rs = []"
    | current where
      "fst (GetItemByID (env_keyID E) (it_NamespaceID item) (it_ItemID item) (st_db s)) = Inr current"
      "flush_trace E tok scope n current rs" "rs \<noteq> []" by blast
  then show ?thesis
  proof cases
    case 1
    with rs show ?thesis by auto
  next
    case 2
    have "length more \<le> 2 \<and> length (filter (\<lambda>r. rq_method r = PUT) more) \<le> 1"
      if "upload_trace E tok scope n (\<lambda>more. more = []) later more" for later more
      using upload_trace_length [OF that, of 0 0] by simp
    then have "length rs \<le> 2 + 2 \<and> length (filter (\<lambda>r. rq_method r = PUT) rs) \<le> 1 + 1"
      by (intro upload_trace_length [OF 2(2) [unfolded flush_trace_def]]) blast
    moreover have "upload_allowed scope current"
      using 2(2,3) by (simp add: flush_trace_def upload_trace_def)
    ultimately show ?thesis using rs 2 by auto
  qed
qed

section \<open>Accepted uploads\<close>

lemma byte_view_same: "view w' = view w \<Longrightarrow> byte_view codec view w' = byte_view codec view w"
  by (simp add: byte_view_def fun_eq_iff)

lemma byte_view_accepts:
  "accepts_upload E view tok n item \<Longrightarrow> accepts_upload E (byte_view codec view) tok n item"
  unfolding accepts_upload_def by (meson byte_view_same)

lemma byte_view_serves: "serves E view ns item resp \<Longrightarrow> serves E (byte_view codec view) ns item resp"
  unfolding serves_def by (meson byte_view_same)

text \<open>C5: When the server accepts the write, the flush of a dirty item succeeds: one request
  is sent, which encrypts the application's current value; the item is stored clean at the next
  version with that value as its merge base, so it leaves the dirty queue; the
  namespace head advances by one; the application's values are unchanged.\<close>

theorem accepted_upload_settles:
  assumes "managed_item E codec merge backend view s item"
    and "item_key item = (env_keyID E, it_NamespaceID i, it_ItemID i)"
    and "upload_allowed scope item"
    and "byte_view codec view (st_world s) (it_Key item) = Some val"
    and "length val \<le> MaxItemCiphertextSize - aead_overhead"
    and "accepts_upload E view tok n item" and "encryptable E n item"
    and "storable (upload_target item)" and "storable (ns_NamespaceHead n + 1)"
  shows "\<exists>n' t put now. flushItem E tok scope n i s = (Inr n', t) \<and>
    st_requests t = st_requests s @ [put] \<and> upload_put E tok n item val put \<and>
    item_of (st_db t) = (item_of (st_db s))(item_key item \<mapsto>
      (item_at item (upload_target item) val False)\<lparr>it_UpdatedAt := now\<rparr>) \<and>
    ns_NamespaceHead n' = ns_NamespaceHead n + 1 \<and>
    byte_view codec view (st_world t) = byte_view codec view (st_world s)"
proof -
  obtain c where c: "synced_collection E c (byte_view codec view) (decodes codec)"
    and reg: "map_of (st_collections s)
      (collectionRegistryKey (it_NamespaceID item) (it_Collection item)) = Some c"
    using managed_item_synced [OF assms(1)] .
  have "db_wf (st_db s)" "item_of (st_db s) (item_key item) = Some item"
    using assms(1) by (simp_all add: managed_item_def)
  note synced_collection.flush_accepted [OF c reg this assms(2,8,9,4,5)
      byte_view_accepts [OF assms(6)] assms(7,3)]
  then show ?thesis
    using assms(4)
    by (auto simp: wp_def synced_collection.uploaded_def [OF c] committed_def fun_upd_idem
        split: prod.splits sum.splits)
qed

text \<open>A dirty item with valid IDs, in a world whose server accepts every write of it.\<close>

definition ex_up_ns :: string where "ex_up_ns = hex_encode (replicate 16 (CHR 0x0A))"
definition ex_up_id :: string where "ex_up_id = hex_encode (replicate 32 (CHR 0x0B))"

definition ex_up_item :: ItemState where
  "ex_up_item =
     (new_item (env_keyID ex_env) ex_up_ns ''notes'' ''a'' ex_up_id)
       \<lparr>it_Version := 3, it_BaseVersion := 3, it_BaseValue := ''old'', it_Dirty := True,
        it_UpdatedAt := 5\<rparr>"

definition ex_up_db :: "bool \<Rightarrow> database" where
  "ex_up_db dirty = snd (SaveItem 9 (ex_up_item\<lparr>it_Dirty := dirty\<rparr>) empty_database)"

definition ex_up_state :: "bool \<Rightarrow> string memory \<Rightarrow> string memory st" where
  "ex_up_state dirty w = (ex_app_state w)\<lparr>st_db := ex_up_db dirty,
     st_collections := [(collectionRegistryKey ex_up_ns ''notes'',
        makeRegisteredCollection ex_up_ns ''notes'' StringCodec NoMerge MemoryValueBackend [])]\<rparr>"

definition ex_up_env :: "PutItemRequest \<Rightarrow> string memory env" where
  "ex_up_env body = ex_app_env\<lparr>env_crypto := ex_crypto,
     env_http := (\<lambda>req. ret \<lparr>rs_status = 200, rs_message = [],
       rs_body = Inr (if rq_method req = PUT
         then PutItemResp \<lparr>pir_NamespaceID = ex_up_ns, pir_ItemID = ex_up_id, pir_Version = 4\<rparr>
         else GetItemResp (served ex_up_ns ex_up_id 4 body))\<rparr>)\<rparr>"

definition ex_up_body :: PutItemRequest where
  "ex_up_body = \<lparr>piq_Nonce = [], piq_AAD = [], piq_Ciphertext = []\<rparr>"

definition ex_up_namespace :: NamespaceState where
  "ex_up_namespace = (new_namespace (env_keyID ex_env) ex_up_ns NamespaceKindShared)
     \<lparr>ns_DEK := ex_dek\<rparr>"

lemma ex_up_fields:
  "env_keyID (ex_up_env body) = env_keyID ex_env" "env_crypto (ex_up_env body) = ex_crypto"
  by (simp_all add: env_keyID_def ex_up_env_def ex_app_env_def ex_env_def)

lemma ex_up_db:
  "db_wf (ex_up_db dirty)"
  "item_of (ex_up_db dirty) = [item_key ex_up_item \<mapsto> ex_up_item\<lparr>it_Dirty := dirty\<rparr>]"
proof -
  show "db_wf (ex_up_db dirty)"
    unfolding ex_up_db_def by (rule db_wf_SaveItem [OF db_wf_empty])
  have save: "SaveItem 9 (ex_up_item\<lparr>it_Dirty := dirty\<rparr>) empty_database = (Inr (), ex_up_db dirty)"
    by (simp add: ex_up_db_def SaveItem_def empty_database_def item_to_row_def ex_up_item_def
        new_item_def sql_uint64_def)
  have "item_of empty_database = Map.empty"
    by (simp add: item_of_def empty_database_def lookup_row_def fun_eq_iff)
  then show "item_of (ex_up_db dirty) = [item_key ex_up_item \<mapsto> ex_up_item\<lparr>it_Dirty := dirty\<rparr>]"
    using SaveItem_item_of(1) [OF save]
    by (simp add: ex_up_item_def new_item_def sql_now_def time_is_zero_def item_key_def)
qed

lemma ex_up_managed:
  "managed_item (ex_up_env body) StringCodec NoMerge MemoryValueBackend map_of
     (ex_up_state dirty w) (ex_up_item\<lparr>it_Dirty := dirty\<rparr>)"
proof -
  have "conditional_backend MemoryValueBackend mem_SetIfCurrent map_of" ..
  moreover have "value_codec StringCodec" ..
  moreover have "it_NamespaceID ex_up_item = ex_up_ns" "it_Collection ex_up_item = ''notes''"
    "item_key (ex_up_item\<lparr>it_Dirty := dirty\<rparr>) = item_key ex_up_item"
    by (simp_all add: ex_up_item_def new_item_def item_key_def)
  moreover have "undisturbed (ex_up_env body) map_of"
    by (simp add: undisturbed_def ex_up_env_def ex_app_env_def)
  ultimately show ?thesis
    by (auto simp: managed_item_def ex_up_state_def ex_up_db StringCodec_def codecFunc_def)
qed

lemma ex_up_target: "upload_target (ex_up_item\<lparr>it_Dirty := dirty\<rparr>) = 4"
  by (simp add: upload_target_def ex_up_item_def new_item_def)

lemma ex_up_ids:
  "it_NamespaceID ex_up_item = ex_up_ns" "it_ItemID ex_up_item = ex_up_id" "it_Key ex_up_item = ''a''"
  "ns_DEK ex_up_namespace = ex_dek" "ns_NamespaceID ex_up_namespace = ex_up_ns"
  "ns_NamespaceHead ex_up_namespace = 0" "it_Version ex_up_item = 3"
  by (simp_all add: ex_up_item_def ex_up_namespace_def new_item_def new_namespace_def)

lemma ex_up_key: "item_key ex_up_item = (env_keyID ex_env, ex_up_ns, ex_up_id)"
  by (simp add: item_key_def ex_up_item_def new_item_def)

lemma ex_up_aad: "\<exists>aad. BuildItemAAD ex_up_ns ex_up_id v = Inr aad"
  by (auto simp: BuildItemAAD_accepts ex_up_ns_def ex_up_id_def)

lemma ex_up_encryptable: "encryptable (ex_up_env body) ex_up_namespace (ex_up_item\<lparr>it_Dirty := dirty\<rparr>)"
  using ex_up_aad
  by (simp add: encryptable_def ex_up_fields ex_sha256_length ex_up_ids ex_dek_def NamespaceDEKLen_def)

lemma ex_up_accepts:
  "accepts_upload (ex_up_env body) map_of tok ex_up_namespace (ex_up_item\<lparr>it_Dirty := dirty\<rparr>)"
  by (auto simp: accepts_upload_def upload_put_def put_item_request_def json_request_def
      ex_up_env_def ex_app_env_def ret_def ex_up_ids ex_up_target)

definition ex_up_scope :: namespaceActiveScope where
  "ex_up_scope = \<lparr>as_scopedCollections = {''notes''}, as_activeItemIDs = {ex_up_id}, as_activeItems = [],
     as_activeScopeHash = []\<rparr>"

theorem accepted_upload_settles_witness:
  "\<exists>n' t. flushItem (ex_up_env ex_up_body) ''token'' ex_up_scope ex_up_namespace ex_up_item
      (ex_up_state True [(''a'', ''mine'')]) = (Inr n', t) \<and>
     (\<exists>i. item_of (st_db t) (item_key ex_up_item) = Some i \<and> \<not> it_Dirty i \<and>
        it_Version i = 4 \<and> it_BaseValue i = ''mine'')"
proof -
  have item: "ex_up_item\<lparr>it_Dirty := True\<rparr> = ex_up_item"
    by (simp add: ex_up_item_def new_item_def)
  have current: "byte_view StringCodec map_of (st_world (ex_up_state True [(''a'', ''mine'')]))
      (it_Key ex_up_item) = Some ''mine''"
    by (simp add: byte_view_def ex_up_state_def ex_app_state_def ex_up_ids StringCodec_def codecFunc_def)
  have "upload_allowed ex_up_scope ex_up_item"
    by (simp add: upload_allowed_def itemActive_def ex_up_scope_def ex_up_item_def new_item_def)
  then obtain n' t put now where
    "flushItem (ex_up_env ex_up_body) ''token'' ex_up_scope ex_up_namespace ex_up_item
      (ex_up_state True [(''a'', ''mine'')]) = (Inr n', t)"
    and after: "item_of (st_db t) = (item_of (st_db (ex_up_state True [(''a'', ''mine'')])))
      (item_key ex_up_item \<mapsto>
        (item_at ex_up_item (upload_target ex_up_item) ''mine'' False)\<lparr>it_UpdatedAt := now\<rparr>)"
    using accepted_upload_settles [OF ex_up_managed [of ex_up_body True, unfolded item] _ _ current _
        ex_up_accepts [of ex_up_body "''token''" True, unfolded item]
        ex_up_encryptable [of ex_up_body True, unfolded item], of ex_up_item ex_up_scope]
      ex_up_target [of True, unfolded item] ex_up_key
    by (auto simp: ex_up_fields ex_up_ids storable_def MaxItemCiphertextSize_def aead_overhead_def)
  then show ?thesis
    using ex_up_target [of True, unfolded item] by (auto simp: item_at_def)
qed

section \<open>Reading a write back\<close>

lemma served_write_bound_core:
  assumes "upload_put E tok n item val put" and "rq_body put = PutItemReq body"
    and "random_length E" and "aead_correct (env_crypto E)"
    and "env_crypto E' = env_crypto E" and "ns_DEK n' = ns_DEK n"
    and "BuildItemAAD (ns_NamespaceID n') itemID version = Inr aad"
  shows "decryptRemoteItem E' n' itemID (served ns item' version body) =
    (if ns_NamespaceID n' = it_NamespaceID item \<and> itemID = it_ItemID item \<and>
        version = upload_target item
     then Inr val else Inl (Sentinel ErrAADMismatch))"
proof -
  obtain nonce aad' ct where enc: "EncryptItem (env_crypto E) nonce (it_NamespaceID item)
       (it_ItemID item) (upload_target item) (ns_DEK n) val = Inr (nonce, aad', ct)"
    and nonce: "length nonce = ItemNonceLength"
    and put: "put = put_item_request tok (it_NamespaceID item) (it_ItemID item)
      \<lparr>piq_Nonce = EncodeBase64 nonce, piq_AAD = EncodeBase64 aad',
       piq_Ciphertext = EncodeBase64 ct\<rparr> (upload_if_match item)"
    using upload_put_body [OF assms(1,3)] .
  from assms(2) have body: "body = \<lparr>piq_Nonce = EncodeBase64 nonce, piq_AAD = EncodeBase64 aad',
      piq_Ciphertext = EncodeBase64 ct\<rparr>"
    by (simp add: put put_item_request_body)
  show ?thesis
    by (rule decrypt_served [where E' = E', OF _ nonce _ _ _ _ assms(7)])
      (use assms(4-6) enc in \<open>simp_all add: body\<close>)
qed

text \<open>C11: A write of one client, served back to a client with the key of the namespace, decrypts to
  the uploaded value under the coordinates it was made for; served as another version, another
  item or in another namespace it is refused with \<open>ErrAADMismatch\<close>.\<close>

theorem served_write_bound:
  assumes "upload_put E tok n item val put" and "rq_body put = PutItemReq body"
    and "random_length E" and "aead_correct (env_crypto E)"
    and "env_crypto E' = env_crypto E" and "ns_DEK n' = ns_DEK n"
    and "BuildItemAAD (ns_NamespaceID n') itemID version = Inr aad"
  shows "decryptRemoteItem E' n' itemID (served ns item' version body) =
    (if ns_NamespaceID n' = it_NamespaceID item \<and> itemID = it_ItemID item \<and>
        version = upload_target item
     then Inr val else Inl (Sentinel ErrAADMismatch))"
  using assms by (rule served_write_bound_core)

lemma ex_up_random: "random_length (ex_up_env body)"
  by (simp add: random_length_def ex_up_env_def ex_app_env_def)

lemma ex_up_put:
  obtains put body where
    "upload_put (ex_up_env b) ''token'' ex_up_namespace ex_up_item ''mine'' put"
    and "rq_body put = PutItemReq body"
proof -
  have item: "ex_up_item\<lparr>it_Dirty := True\<rparr> = ex_up_item"
    by (simp add: ex_up_item_def new_item_def)
  obtain aad ct where "EncryptItem (env_crypto (ex_up_env b)) (fst (env_rand (ex_up_env b) ItemNonceLength []))
      (it_NamespaceID ex_up_item) (it_ItemID ex_up_item) (upload_target ex_up_item)
      (ns_DEK ex_up_namespace) ''mine'' =
      Inr (fst (env_rand (ex_up_env b) ItemNonceLength []), aad, ct)"
    by (rule encryptable_encrypts [OF ex_up_encryptable [of b True, unfolded item]])
  then have "upload_put (ex_up_env b) ''token'' ex_up_namespace ex_up_item ''mine''
      (put_item_request ''token'' (it_NamespaceID ex_up_item) (it_ItemID ex_up_item)
        \<lparr>piq_Nonce = EncodeBase64 (fst (env_rand (ex_up_env b) ItemNonceLength [])),
         piq_AAD = EncodeBase64 aad, piq_Ciphertext = EncodeBase64 ct\<rparr>
        (upload_if_match ex_up_item))"
    unfolding upload_put_def by (auto simp: MaxItemCiphertextSize_def aead_overhead_def)
  then show thesis by (rule that) (rule put_item_request_body)
qed

theorem served_write_bound_witness:
  "\<exists>put body. upload_put (ex_up_env ex_up_body) ''token'' ex_up_namespace ex_up_item ''mine'' put \<and>
     rq_body put = PutItemReq body \<and>
     decryptRemoteItem (ex_up_env ex_up_body) ex_up_namespace ex_up_id (served ex_up_ns ex_up_id 4 body) =
       Inr ''mine'' \<and>
     decryptRemoteItem (ex_up_env ex_up_body) ex_up_namespace ex_up_id (served ex_up_ns ex_up_id 5 body) =
       Inl (Sentinel ErrAADMismatch)"
proof -
  have item: "ex_up_item\<lparr>it_Dirty := True\<rparr> = ex_up_item"
    by (simp add: ex_up_item_def new_item_def)
  obtain put body where put: "upload_put (ex_up_env ex_up_body) ''token'' ex_up_namespace ex_up_item ''mine'' put"
    "rq_body put = PutItemReq body"
    by (rule ex_up_put)
  have aead: "aead_correct (env_crypto (ex_up_env ex_up_body))" by (simp add: ex_up_fields ex_aead_correct)
  have aad: "\<exists>aad. BuildItemAAD (ns_NamespaceID ex_up_namespace) ex_up_id v = Inr aad" for v
    using ex_up_aad by (simp add: ex_up_ids)
  have "decryptRemoteItem (ex_up_env ex_up_body) ex_up_namespace ex_up_id (served ex_up_ns ex_up_id v body) =
      (if v = 4 then Inr ''mine'' else Inl (Sentinel ErrAADMismatch))" for v
    using aad [of v] served_write_bound [OF put ex_up_random aead refl refl]
    by (auto simp: ex_up_ids ex_up_target [of True, unfolded item])
  with put show ?thesis by auto
qed

text \<open>C4: What one client uploads arrives at another: a client that holds the key of the
  namespace and has an older version of the item, not edited since its last sync, fetches the
  write the server stored and ends with the uploaded value in its application and the item clean
  at the uploaded version; nothing else of its items or values changes.\<close>

theorem uploaded_value_arrives:
  assumes "upload_put E tok n item val put" and "rq_body put = PutItemReq body"
    and "random_length E" and "aead_correct (env_crypto E)"
    and "env_crypto E' = env_crypto E" and "ns_DEK n' = ns_DEK n"
    and "ns_NamespaceID n' = it_NamespaceID item"
    and "managed_item E' codec merge backend view s mine"
    and "item_key mine = (env_keyID E', it_NamespaceID item, it_ItemID item)"
    and "serves E' view (it_NamespaceID item) (it_ItemID item)
      (served (it_NamespaceID item) (it_ItemID item) (upload_target item) body)"
    and "decodes codec val" and "storable (upload_target item)"
    and "it_Version mine < upload_target item" and "known \<le> upload_target item"
    and "\<not> it_Conflict mine"
    and "case byte_view codec view (st_world s) (it_Key mine) of
      None \<Rightarrow> \<not> it_Dirty mine | Some old \<Rightarrow> \<not> local_edit mine old"
  shows "\<exists>t now. fetchAndApplyRemoteItem E' n' mine known s = (Inr (), t) \<and>
    byte_view codec view (st_world t) =
      (byte_view codec view (st_world s))(it_Key mine \<mapsto> val) \<and>
    item_of (st_db t) = (item_of (st_db s))(item_key mine \<mapsto>
      (item_at mine (upload_target item) val False)\<lparr>it_UpdatedAt := now\<rparr>)"
proof -
  let ?resp = "served (it_NamespaceID item) (it_ItemID item) (upload_target item) body"
  obtain c where c: "synced_collection E' c (byte_view codec view) (decodes codec)"
    and reg: "map_of (st_collections s)
      (collectionRegistryKey (it_NamespaceID mine) (it_Collection mine)) = Some c"
    using managed_item_synced [OF assms(8)] .
  have stored: "db_wf (st_db s)" "item_of (st_db s) (item_key mine) = Some mine"
    using assms(8) by (simp_all add: managed_item_def)
  have mine: "it_KeyID mine = env_keyID E'" "it_NamespaceID mine = it_NamespaceID item"
    "it_ItemID mine = it_ItemID item"
    using assms(9) by (simp_all add: item_key_def)
  obtain nonce aad ct where "EncryptItem (env_crypto E) nonce (it_NamespaceID item)
       (it_ItemID item) (upload_target item) (ns_DEK n) val = Inr (nonce, aad, ct)"
    using upload_put_body [OF assms(1,3)] .
  then have aad: "BuildItemAAD (it_NamespaceID item) (it_ItemID item) (upload_target item) = Inr aad"
    by (rule EncryptItem_aad)
  then have ids: "ValidateNamespaceID (it_NamespaceID item) = Inr ()" "ValidateItemID (it_ItemID item) = Inr ()"
    by (auto simp: BuildItemAAD_def DecodeLowerHexExact_accepts ValidateNamespaceID_def
        ValidateItemID_def validate_hex_def)
  have remote: "decryptRemoteItem E' n' (it_ItemID mine) ?resp = Inr val"
    using served_write_bound_core [OF assms(1-6), of "it_ItemID item" "upload_target item" aad] aad
    by (simp add: assms(7) mine)
  have resp: "gir_Version ?resp = upload_target item" by (simp add: served_def)
  have spec: "apply_spec merger mine (byte_view codec view (st_world s) (it_Key mine))
      (upload_target item) val = Inr (item_at mine (upload_target item) val False, Some val)" for merger
    using assms(15,16) by (auto simp: apply_spec_def split: option.splits)
  have "achieves (byte_view codec view) s mine
      (Inr (item_at mine (upload_target item) val False, Some val))
      (fetchAndApplyRemoteItem E' n' mine known) s"
    using synced_collection.fetch_achieves [OF c reg stored mine(1), of n' ?resp val known]
      byte_view_serves [OF assms(10)] ids remote assms(7,11-14)
    by (simp add: mine resp spec)
  then show ?thesis
    by (auto simp: achieves_def wp_def committed_def split: prod.splits sum.splits)
qed

theorem uploaded_value_arrives_witness:
  "\<exists>body t. upload_put (ex_up_env body) ''token'' ex_up_namespace ex_up_item ''mine''
       (put_item_request ''token'' ex_up_ns ex_up_id body (Some 3)) \<and>
     fetchAndApplyRemoteItem (ex_up_env body) ex_up_namespace (ex_up_item\<lparr>it_Dirty := False\<rparr>) 4
       (ex_up_state False [(''a'', ''old'')]) = (Inr (), t) \<and>
     byte_view StringCodec map_of (st_world t) ''a'' = Some ''mine''"
proof -
  have item: "ex_up_item\<lparr>it_Dirty := True\<rparr> = ex_up_item"
    by (simp add: ex_up_item_def new_item_def)
  have target: "upload_target ex_up_item = 4" by (rule ex_up_target [of True, unfolded item])
  let ?mine = "ex_up_item\<lparr>it_Dirty := False\<rparr>"
  obtain put body where put: "upload_put (ex_up_env body) ''token'' ex_up_namespace ex_up_item ''mine'' put"
    "rq_body put = PutItemReq body"
  proof (rule ex_up_put)
    fix put body
    assume "upload_put (ex_up_env undefined) ''token'' ex_up_namespace ex_up_item ''mine'' put"
      and "rq_body put = PutItemReq body"
    then show thesis
      using that [of body put] by (simp add: upload_put_def ex_up_env_def)
  qed
  have put': "put = put_item_request ''token'' ex_up_ns ex_up_id body (Some 3)"
    using put by (auto simp: upload_put_def put_item_request_body ex_up_ids upload_if_match_def)
  have aead: "aead_correct (env_crypto (ex_up_env body))" by (simp add: ex_up_fields ex_aead_correct)
  have serves: "serves (ex_up_env body) map_of (it_NamespaceID ex_up_item) (it_ItemID ex_up_item)
      (served (it_NamespaceID ex_up_item) (it_ItemID ex_up_item) (upload_target ex_up_item) body)"
    by (simp add: serves_def served_def json_request_def ex_up_env_def ex_app_env_def ret_def
        ex_up_ids target)
  have current: "byte_view StringCodec map_of (st_world (ex_up_state False [(''a'', ''old'')]))
      ''a'' = Some ''old''"
    by (simp add: byte_view_def ex_up_state_def ex_app_state_def ex_up_ids StringCodec_def codecFunc_def)
  have mine: "item_key ?mine = (env_keyID (ex_up_env body), it_NamespaceID ex_up_item, it_ItemID ex_up_item)"
    "it_Version ?mine < upload_target ex_up_item" "\<not> it_Conflict ?mine" "\<not> local_edit ?mine ''old''"
    "it_Key ?mine = ''a''"
    by (simp_all add: item_key_def ex_up_fields target)
      (simp_all add: ex_up_item_def new_item_def local_edit_def hasMergeBase_def)
  have "decodes StringCodec ''mine''"
    by (simp add: decodes_def StringCodec_def codecFunc_def)
  with uploaded_value_arrives [OF put ex_up_random aead refl refl _ ex_up_managed [of body False]
      mine(1) serves _ _ mine(2) _ mine(3), of 4 "[(''a'', ''old'')]"]
  have "\<exists>t. fetchAndApplyRemoteItem (ex_up_env body) ex_up_namespace ?mine 4
       (ex_up_state False [(''a'', ''old'')]) = (Inr (), t) \<and>
     byte_view StringCodec map_of (st_world t) ''a'' = Some ''mine''"
    by (auto simp: current mine ex_up_ids target storable_def)
  with put(1) show ?thesis unfolding put' by blast
qed

end
