(* ===== verification/Fetch_Properties.thy ===== *)
theory Fetch_Properties
  imports Upload_Spec
begin

text \<open>
  What a client takes from the server: a response reaches the store and the application only
  if it is newer and authenticated for its coordinates.
\<close>

section \<open>Steps that leave items and values alone\<close>

text \<open>The clock, the disk and the transport do not write to the application's storage.\<close>

definition hands_off :: "'w env \<Rightarrow> ('w \<Rightarrow> string \<Rightarrow> bytes option) \<Rightarrow> bool" where
  "hands_off E view \<longleftrightarrow>
     (\<forall>w. view (snd (env_now E w)) = view w) \<and> (\<forall>w. view (snd (env_db_fault E w)) = view w) \<and>
     (\<forall>req w. view (snd (env_http E req w)) = view w)"

interpretation idle: step_relation "idle view" for view
  by unfold_locales (simp_all add: idle_def)

lemma idle_query:
  fixes E :: "'w env"
  assumes "hands_off E view" and "\<And>d. snd (q d) = d"
  shows "stays (idle view) (stored E q)"
proof -
  have "stays (idle view) (world_value (env_db_fault E))"
    using assms(1) by (auto simp: stays_def world_value_def idle_def hands_off_def split: prod.split)
      (metis snd_conv)
  moreover have "stays (idle view) (on_db q)"
  proof (rule staysI)
    fix s :: "'w st"
    obtain r d where q: "q (st_db s) = (r, d)" by fastforce
    with assms(2) [of "st_db s"] have "d = st_db s" by simp
    with q show "idle view s (snd (on_db q s))" by (simp add: on_db_def idle_def)
  qed
  ultimately show ?thesis
    unfolding stored_def by (intro idle.combinators)
qed

lemma idle_doJSON:
  assumes "hands_off E view"
  shows "stays (idle view) (doJSON E req)"
proof -
  have "stays (idle view) (outside (env_http E req))"
    using assms by (auto simp: stays_def outside_def idle_def hands_off_def split: prod.split)
      (metis snd_conv)
  moreover have "stays (idle view) (writes (\<lambda>s. s\<lparr>st_requests := st_requests s @ [req]\<rparr>))"
    by (simp add: stays_def writes_def idle_def)
  ultimately show ?thesis
    unfolding doJSON_def by (intro idle.combinators idle.ifM)
qed

lemma idle_GetItem:
  assumes "hands_off E view"
  shows "stays (idle view) (client_GetItem E tok ns item)"
  unfolding client_GetItem_def validated_def unexpected_body_def
  by (intro idle.combinators idle_doJSON assms)
    (auto intro!: idle.combinators split: api_response.split)

text \<open>A run of two steps of which the first is idle.\<close>

lemma idle_bind_run:
  assumes "bindM m f s = (r, t)" and "stays (idle view) m"
  obtains "idle view s t" | x u where "m s = (Inr x, u)" "idle view s u" "f x u = (r, t)"
proof -
  obtain q u where m: "m s = (q, u)" by fastforce
  with staysD [OF assms(2), of s] have u: "idle view s u" by simp
  show thesis
  proof (cases q)
    case (Inl e)
    with assms(1) m u show thesis by (intro that(1)) (simp add: bindM_def)
  next
    case (Inr x)
    with assms(1) m u show thesis by (intro that(2)) (simp_all add: bindM_def)
  qed
qed

section \<open>Only authenticated and newer values are applied\<close>

lemma decrypted_authentic:
  assumes "decryptRemoteItem E n item resp = Inr val"
  shows "\<exists>nonce aad ct key. BuildItemAAD (ns_NamespaceID n) item (gir_Version resp) = Inr aad \<and>
    gir_Nonce resp = EncodeBase64 nonce \<and> gir_AAD resp = EncodeBase64 aad \<and>
    gir_Ciphertext resp = EncodeBase64 ct \<and> NamespaceBlobKey (env_crypto E) (ns_DEK n) = Inr key \<and>
    aead_open (env_crypto E) key nonce ct aad = Some val"
  using assms
  by (auto simp: decryptRemoteItem_def DecodeBase64Exact_accepts DecodeBase64_accepts
      VerifyAAD_accepts DecryptItem_def new_item_aead_def split: option.splits)

lemma fetched_applied:
  assumes hands_off: "hands_off E view" and run: "fetchAndApplyRemoteItem E n item v s = (r, t)"
  shows "idle view s t \<or> (\<exists>resp w remote current u.
    client_GetItem E (id_AccessToken (st_identity s)) (ns_NamespaceID n) (it_ItemID item) s =
      (Inr resp, w) \<and>
    it_Version item \<le> gir_Version resp \<and> v \<le> gir_Version resp \<and>
    decryptRemoteItem E n (it_ItemID item) resp = Inr remote \<and>
    idle view s u \<and> it_Version current < gir_Version resp \<and>
    applyRemoteValueLocked E n current (gir_Version resp) remote u = (r, t))"
proof -
  let ?goal = "?thesis"
  have fetch: "bindM (client_GetItem E (id_AccessToken (st_identity s)) (ns_NamespaceID n)
      (it_ItemID item)) (\<lambda>resp.
     seqM (guardM (it_Version item \<le> gir_Version resp) (rollback ''item''))
     (bindM (lift_result (decryptRemoteItem E n (it_ItemID item) resp)) (\<lambda>remoteValue.
     seqM (guardM (v \<le> gir_Version resp) (rollback ''item''))
     (bindM (attempt (stored E (GetItemByID (env_keyID E) (it_NamespaceID item) (it_ItemID item))))
       (\<lambda>r.
      case r of
        Inr currentItem \<Rightarrow>
          if gir_Version resp \<le> it_Version currentItem then ret ()
          else applyRemoteValueLocked E n currentItem (gir_Version resp) remoteValue
      | Inl e \<Rightarrow>
          if \<not> errors_is ErrNotFound e then raise e
          else if it_KeyID item = [] then ret ()
          else if gir_Version resp \<le> it_Version item then ret ()
          else applyRemoteValueLocked E n item (gir_Version resp) remoteValue))))) s = (r, t)"
    using run
    by (simp add: fetchAndApplyRemoteItem_def identityStateSnapshot_def bindM_reads)
  show ?thesis
  proof (rule idle_bind_run [OF fetch idle_GetItem [OF hands_off]])
    fix resp w
    assume resp: "client_GetItem E (id_AccessToken (st_identity s)) (ns_NamespaceID n)
        (it_ItemID item) s = (Inr resp, w)" and w: "idle view s w"
      and rest: "seqM (guardM (it_Version item \<le> gir_Version resp) (rollback ''item''))
     (bindM (lift_result (decryptRemoteItem E n (it_ItemID item) resp)) (\<lambda>remoteValue.
     seqM (guardM (v \<le> gir_Version resp) (rollback ''item''))
     (bindM (attempt (stored E (GetItemByID (env_keyID E) (it_NamespaceID item) (it_ItemID item))))
       (\<lambda>r.
      case r of
        Inr currentItem \<Rightarrow>
          if gir_Version resp \<le> it_Version currentItem then ret ()
          else applyRemoteValueLocked E n currentItem (gir_Version resp) remoteValue
      | Inl e \<Rightarrow>
          if \<not> errors_is ErrNotFound e then raise e
          else if it_KeyID item = [] then ret ()
          else if gir_Version resp \<le> it_Version item then ret ()
          else applyRemoteValueLocked E n item (gir_Version resp) remoteValue)))) w = (r, t)"
    show ?goal
    proof (cases "it_Version item \<le> gir_Version resp \<and> v \<le> gir_Version resp \<and>
        (\<exists>remote. decryptRemoteItem E n (it_ItemID item) resp = Inr remote)")
      case False
      then have "t = w"
        using rest
        by (cases "decryptRemoteItem E n (it_ItemID item) resp")
          (auto simp: guardM_def seqM_def bindM_def raise_def ret_def lift_result_def split: if_splits)
      with w show ?thesis by simp
    next
      case True
      then obtain remote where remote: "decryptRemoteItem E n (it_ItemID item) resp = Inr remote" by blast
      have "bindM (attempt (stored E (GetItemByID (env_keyID E) (it_NamespaceID item) (it_ItemID item))))
       (\<lambda>r.
      case r of
        Inr currentItem \<Rightarrow>
          if gir_Version resp \<le> it_Version currentItem then ret ()
          else applyRemoteValueLocked E n currentItem (gir_Version resp) remote
      | Inl e \<Rightarrow>
          if \<not> errors_is ErrNotFound e then raise e
          else if it_KeyID item = [] then ret ()
          else if gir_Version resp \<le> it_Version item then ret ()
          else applyRemoteValueLocked E n item (gir_Version resp) remote) w = (r, t)"
        using rest True remote by (simp add: guardM_def seqM_def bindM_ret lift_result_def bindM_def ret_def)
      then show ?thesis
      proof (rule idle_bind_run [OF _ idle.attempt [OF idle_query [OF hands_off store_reads_only(4)]]])
        assume "idle view w t"
        then show ?thesis using w idle.R_trans by blast
      next
        fix q u
        assume u: "idle view w u" and last: "(case q of
          Inr currentItem \<Rightarrow>
            if gir_Version resp \<le> it_Version currentItem then ret ()
            else applyRemoteValueLocked E n currentItem (gir_Version resp) remote
        | Inl e \<Rightarrow>
            if \<not> errors_is ErrNotFound e then raise e
            else if it_KeyID item = [] then ret ()
            else if gir_Version resp \<le> it_Version item then ret ()
            else applyRemoteValueLocked E n item (gir_Version resp) remote) u = (r, t)"
        have su: "idle view s u" using w u by (rule idle.R_trans)
        have "u = t \<or> (\<exists>current. it_Version current < gir_Version resp \<and>
            applyRemoteValueLocked E n current (gir_Version resp) remote u = (r, t))"
          using last by (auto simp: ret_def raise_def not_le split: sum.splits if_splits)
        then show ?thesis using su resp True remote by blast
      qed
    qed
  qed (rule disjI1)
qed



end
