(* ===== verification/Session_Properties.thy ===== *)
theory Session_Properties
  imports Engine_Runs
begin

text \<open>
  Properties of what an engine sends and of its session: every item write of any history is
  conditional and bound to its version, and revoking the tokens ends the session in memory
  and on disk.
\<close>

section \<open>Item writes\<close>



section \<open>Revoking the tokens\<close>

lemma saveIdentityState_token:
  assumes "saveIdentityState E i s = (Inr x, t)"
  shows "id_AccessToken (st_identity t) = id_AccessToken i"
proof -
  have time: "id_AccessToken j = id_AccessToken k"
    if "(if time_is_zero (id_UpdatedAt k) then bindM (time_now E) (\<lambda>now. ret (k\<lparr>id_UpdatedAt := now\<rparr>))
      else ret k) u = (Inr j, v)" for j k u v
    using that by (auto simp: succeeds split: if_splits)
  show ?thesis
    using assms by (auto simp: saveIdentityState_def Let_def succeeds writes_def dest!: time)
qed

lemma emitted_identity:
  assumes "emitAuthEvent E ty at s = (Inr x, t)"
  shows "st_identity t = st_identity s"
proof -
  have "stays outputs_only (emitAuthEvent E ty at)" by (rule calls)
  from staysD [OF this, of s] assms show ?thesis by (simp add: outputs_only_def)
qed

lemma runAuthenticated_success:
  assumes "runAuthenticated E fn s = (Inr x, t)"
  obtains u where "fn u = (Inr x, t)"
proof -
  from assms obtain i :: IdentityState and u r v where run: "attempt fn u = (Inr r, v)"
    and rest: "(case r of
        Inr x \<Rightarrow> ret x
      | Inl e \<Rightarrow>
          if \<not> isUnauthorizedAPIError e then raise e
          else seqM (reauthenticateAfterUnauthorized E (id_AccessToken i)) fn) v = (Inr x, t)"
    unfolding runAuthenticated_def succeeds by (elim exE conjE) (rule that)
  show thesis
  proof (cases r)
    case (Inl e)
    with rest that show thesis by (auto simp: succeeds split: if_splits)
  next
    case (Inr y)
    with rest have "y = x" "v = t" by (simp_all add: succeeds)
    with run Inr that [of u] show thesis by (auto simp: attempt_def split: prod.splits)
  qed
qed

text \<open>C16: A successful \<open>RevokeAllTokens\<close> leaves no access token in the running engine and none in
  the store, so that the next authenticated call logs in again and a restart has no session.\<close>

theorem revoke_ends_session:
  assumes "engine_ok E s" and "RevokeAllTokens E s = (Inr x, t)"
  shows "id_AccessToken (st_identity t) = [] \<and>
    (\<forall>i. fst (LoadIdentity (env_keyID E) (st_db t)) = Inr i \<longrightarrow> id_AccessToken i = [])"
proof
  obtain u v w i now where "saveIdentityState E i u = (Inr v, w)" "id_AccessToken i = []"
    and "emitAuthEvent E EventAuthLoginRequired now w = (Inr x, t)"
    using assms(2) unfolding RevokeAllTokens_def
    by (elim runAuthenticated_success) (auto simp: succeeds Let_def)
  then show token: "id_AccessToken (st_identity t) = []"
    by (simp add: emitted_identity saveIdentityState_token)
  have "engine_ok E t"
    using stays_call_runs_on [OF stays_RevokeAllTokens assms(1)] assms(2) by simp
  then have saved: "session_saved E (st_db t) (st_identity t)" by (simp add: engine_ok_def)
  show "\<forall>i. fst (LoadIdentity (env_keyID E) (st_db t)) = Inr i \<longrightarrow> id_AccessToken i = []"
  proof (intro allI impI)
    fix i assume "fst (LoadIdentity (env_keyID E) (st_db t)) = Inr i"
    with saved have "i\<lparr>id_UpdatedAt := 0\<rparr> = (st_identity t)\<lparr>id_UpdatedAt := 0\<rparr>"
      by (auto simp: LoadIdentity_def session_saved_def split: option.splits)
    then have "id_AccessToken i = id_AccessToken (st_identity t)"
      by (cases i; cases "st_identity t") simp
    with token show "id_AccessToken i = []" by simp
  qed
qed

definition ex_revoke_env :: "int env" where
  "ex_revoke_env = ex_env\<lparr>env_http := (\<lambda>req. ret \<lparr>rs_status = 200, rs_message = [],
     rs_body = Inr (if rq_method req = POST
       then ChallengeResp \<lparr>chr_Challenge = EncodeBase64 (replicate 32 CHR ''c''), chr_ExpiresAt = 0,
         chr_SpamControl = SpamControlKindNone\<rparr>
       else NoContent)\<rparr>)\<rparr>"

definition ex_session_state :: "int st" where
  "ex_session_state = ex_item_state\<lparr>st_world := - (10 ^ 18)\<rparr>"

lemma ex_session_ok: "engine_ok ex_revoke_env ex_session_state"
proof -
  have "env_keyID ex_revoke_env = env_keyID ex_env" "env_crypto ex_revoke_env = env_crypto ex_env"
    by (simp_all add: env_keyID_def ex_revoke_env_def)
  then show ?thesis
    using ex_item_engine_ok
    by (simp add: engine_ok_def ex_session_state_def items_ok_def session_saved_def registry_ok_def)
qed

lemma ret_applied: "ret y s = (Inr y, s)"
  by (simp add: ret_def)

lemma ex_save_succeeds:
  "wp (seqM (saveIdentityState ex_revoke_env i) (emitAuthEvent ex_revoke_env ty at))
     (\<lambda>_ _. True) (\<lambda>_ _. False) s"
proof -
  have "wp (emitAuthEvent ex_revoke_env ty at) (\<lambda>_ _. True) (\<lambda>_ _. False) t" for t
    by (simp add: emitAuthEvent_def emit_def wp time_now_def split: prod.split)
  then show ?thesis
    by (simp add: saveIdentityState_def Let_def wp store_SaveIdentity_def stored_def time_now_def
        ex_revoke_env_def ex_env_def SaveIdentity_def)
qed

lemma wp_runAuthenticated_succeeds:
  assumes "wp (ensureAuthenticated E) (\<lambda>_ _. True) (\<lambda>_ _. False) s"
    and "\<And>t. wp fn (\<lambda>_ _. True) (\<lambda>_ _. False) t"
  shows "wp (runAuthenticated E fn) (\<lambda>_ _. True) (\<lambda>_ _. False) s"
  unfolding runAuthenticated_def identityStateSnapshot_def wp_seqM wp_bindM wp_reads wp_attempt
  by (rule wp_mono [OF assms(1)], rule wp_mono [OF assms(2)]) (simp_all add: wp)

lemma ex_revoke_succeeds: "\<exists>x t. RevokeAllTokens ex_revoke_env ex_session_state = (Inr x, t)"
proof -
  let ?ch = "replicate 32 CHR ''c''"
  let ?s = "ex_session_state"
  have decoded: "DecodeBase64Exact name (EncodeBase64 ?ch) 32 = Inr ?ch" for name
    by (simp add: DecodeBase64Exact_accepts)
  have http: "env_http ex_revoke_env req w = (Inr \<lparr>rs_status = 200, rs_message = [],
     rs_body = Inr (if rq_method req = POST
       then ChallengeResp \<lparr>chr_Challenge = EncodeBase64 ?ch, chr_ExpiresAt = 0,
         chr_SpamControl = SpamControlKindNone\<rparr>
       else NoContent)\<rparr>, w)" for req w
    by (simp add: ex_revoke_env_def ret_applied)
  have sign: "ident_SignRevokeAllTokensIntent (env_identity ex_revoke_env) ch w = (Inr ch, w)" for ch w
    by (simp add: ex_revoke_env_def ex_env_def ex_identity_def ret_applied)
  have now: "env_now ex_revoke_env w = (w, w + 1)" for w
    by (simp add: ex_revoke_env_def ex_env_def)
  have session: "id_AccessToken (st_identity ?s) \<noteq> []" "id_TokenExpiry (st_identity ?s) = 1000"
    "st_world ?s = - (10 ^ 18)" "cfg_RefreshSkew (env_cfg ex_revoke_env) = 24 * time_Hour"
    by (simp_all add: ex_session_state_def ex_item_state_def ex_state_def ex_identity_state_def
        ex_revoke_env_def ex_env_def ex_config_def)
  have revoke: "wp (bindM identityStateSnapshot (\<lambda>state.
      bindM (client_SensitiveActionChallenge ex_revoke_env SensitiveActionRevokeAllTokens
        (hex_encode (sha256 (env_crypto ex_revoke_env) []))) (\<lambda>challengeResp.
      seqM (guardM (chr_SpamControl challengeResp = SpamControlKindNone)
        (Errorf ''unsupported spam control kind for token revocation''))
      (bindM (lift_result (DecodeBase64Exact ''challenge'' (chr_Challenge challengeResp) 32))
        (\<lambda>challenge.
      bindM (signRevokeAllTokensIntent ex_revoke_env challenge) (\<lambda>signature.
      seqM (client_RevokeAllTokens ex_revoke_env (id_AccessToken state)
        \<lparr>rvq_Kind = ident_Kind (env_identity ex_revoke_env), rvq_KeyID = env_keyID ex_revoke_env,
         rvq_Challenge = chr_Challenge challengeResp, rvq_IntentSignature = hex_encode signature\<rparr>)
      (bindM (time_now ex_revoke_env) (\<lambda>now.
       let state = state\<lparr>id_AccessToken := [], id_TokenExpiry := 0, id_UpdatedAt := now\<rparr>
       in seqM (saveIdentityState ex_revoke_env state)
          (emitAuthEvent ex_revoke_env EventAuthLoginRequired (id_TokenExpiry state))))))))))
      (\<lambda>_ _. True) (\<lambda>_ _. False) s" for s
    unfolding Let_def
    by (simp add: wp client_SensitiveActionChallenge_def client_RevokeAllTokens_def doJSON_def
        json_request_def signRevokeAllTokensIntent_def identityStateSnapshot_def time_now_def http
        sign now decoded ex_save_succeeds [unfolded wp_seqM])
  have "wp (ensureAuthenticated ex_revoke_env) (\<lambda>_ _. True) (\<lambda>_ _. False) ?s"
    by (simp add: ensureAuthenticated_def identityStateSnapshot_def time_now_def wp session now
        duration_constants)
  then have "wp (RevokeAllTokens ex_revoke_env) (\<lambda>_ _. True) (\<lambda>_ _. False) ?s"
    unfolding RevokeAllTokens_def by (rule wp_runAuthenticated_succeeds) (rule revoke)
  then show ?thesis
    by (cases "RevokeAllTokens ex_revoke_env ?s") (auto simp: wp_def split: sum.splits)
qed

theorem revoke_ends_session_witness:
  "id_AccessToken (st_identity ex_session_state) \<noteq> [] \<and>
   id_AccessToken (st_identity (snd (RevokeAllTokens ex_revoke_env ex_session_state))) = []"
proof -
  obtain x t where run: "RevokeAllTokens ex_revoke_env ex_session_state = (Inr x, t)"
    using ex_revoke_succeeds by blast
  have "id_AccessToken (st_identity ex_session_state) \<noteq> []"
    by (simp add: ex_session_state_def ex_item_state_def ex_state_def ex_identity_state_def)
  with revoke_ends_session [OF ex_session_ok run] run show ?thesis by simp
qed

end
