(* ===== verification/Snapshot_Spec.thy ===== *)
theory Snapshot_Spec
  imports Fetch_Properties
begin

text \<open>
  What comparing the application's values with the store does to the stored items, read as a
  function from the logical key to the item: the item of a changed or new value is queued, all
  others stay as they are.
\<close>

section \<open>The specification\<close>

text \<open>The stored item of a logical key.\<close>

definition item_for :: "database \<Rightarrow> string \<times> string \<times> string \<times> string \<Rightarrow> ItemState option" where
  "item_for d = (\<lambda>(k, n, c, y).
     case fst (GetItemByLogicalKey k n c y d) of Inl _ \<Rightarrow> None | Inr i \<Rightarrow> Some i)"

text \<open>A value to upload: nothing is pending for the item and the value is not that of the last sync.\<close>

definition local_change :: "ItemState \<Rightarrow> bytes \<Rightarrow> bool" where
  "local_change item val \<longleftrightarrow> \<not> it_Conflict item \<and> local_edit item val \<and> \<not> it_Dirty item"

definition queue_spec ::
  "string \<times> string \<times> string \<times> string \<Rightarrow> bytes \<Rightarrow> ItemState option \<Rightarrow> ItemState option \<Rightarrow> bool" where
  "queue_spec = (\<lambda>(k, n, c, y) val before after.
     case before of
       None \<Rightarrow> \<exists>now itemID. after = Some (markItemDirty now (new_item k n c y itemID))
     | Some item \<Rightarrow>
         if local_change item val then \<exists>now. after = Some (markItemDirty now item)
         else after = Some item)"

text \<open>
  The view of a collection: its snapshot and its keys are those of the view, and reading any
  registered collection leaves the view alone.
\<close>

definition lists_view ::
  "'w registeredCollection \<Rightarrow> ('w \<Rightarrow> string \<Rightarrow> bytes option) \<Rightarrow> bool" where
  "lists_view c view \<longleftrightarrow>
     (\<forall>w vals w'. rc_snapshot c w = (Inr vals, w') \<longrightarrow> map_of vals = view w) \<and>
     (\<forall>w keys w'. rc_keys c w = (Inr keys, w') \<longrightarrow> set keys = dom (view w))"

definition reading_keeps ::
  "'w registeredCollection \<Rightarrow> ('w \<Rightarrow> string \<Rightarrow> bytes option) \<Rightarrow> bool" where
  "reading_keeps c view \<longleftrightarrow>
     (\<forall>w. view (snd (rc_snapshot c w)) = view w) \<and> (\<forall>w. view (snd (rc_keys c w)) = view w)"

section \<open>Items by logical key\<close>

lemma item_for_Some:
  assumes "db_wf d"
  shows "item_for d lk = Some i \<longleftrightarrow> item_of d (item_key i) = Some i \<and> logical_key i = lk"
proof -
  obtain k n c y where lk: "lk = (k, n, c, y)" by (cases lk)
  show ?thesis
  proof (cases "fst (GetItemByLogicalKey k n c y d)")
    case (Inl e)
    with GetItemByLogicalKey_missing(2) [OF assms Inl] show ?thesis by (auto simp: item_for_def lk)
  next
    case (Inr j)
    note j = GetItemByLogicalKey_found [OF assms Inr]
    have "i = j" if i: "item_of d (item_key i) = Some i" "logical_key i = lk"
    proof -
      from stored_savable [OF assms j(1)]
      have "\<forall>kk i. item_of d kk = Some i \<longrightarrow> logical_key i = logical_key j \<longrightarrow> kk = item_key j"
        unfolding savable_def by (elim conjE)
      from this [rule_format, OF i(1)] i(2) j(2) have keys: "item_key i = item_key j" by (simp only: lk)
      show ?thesis using i(1) j(1) unfolding keys by (metis option.inject)
    qed
    moreover have "item_for d lk = Some j" using Inr by (simp add: item_for_def lk)
    ultimately show ?thesis using j by (auto simp: lk)
  qed
qed

lemma item_for_None:
  assumes "db_wf d"
  shows "item_for d lk = None \<longleftrightarrow> (\<forall>kk i. item_of d kk = Some i \<longrightarrow> logical_key i \<noteq> lk)"
proof -
  have "item_of d (item_key i) = Some i" if "item_of d kk = Some i" for kk i
    using item_of_key(1) [OF assms that] that by simp
  then show ?thesis
    using item_for_Some [OF assms, of lk] by (metis not_None_eq)
qed

lemma item_for_save:
  assumes wf: "db_wf d" and save: "SaveItem now i d = (Inr u, d')"
    and same: "\<And>j. item_of d (item_key i) = Some j \<Longrightarrow> logical_key j = logical_key i"
  shows "item_for d' = (item_for d)(logical_key i \<mapsto> i\<lparr>it_UpdatedAt := sql_now now (it_UpdatedAt i)\<rparr>)"
    (is "_ = (item_for d)(_ \<mapsto> ?i)")
proof
  have wf': "db_wf d'" using db_wf_SaveItem [OF wf, of now i] save by simp
  have keys: "logical_key ?i = logical_key i" "item_key ?i = item_key i"
    by (simp_all add: logical_key_def item_key_def)
  note items = SaveItem_item_of(1) [OF save]
  fix lk
  show "item_for d' lk = ((item_for d)(logical_key i \<mapsto> ?i)) lk"
  proof (cases "lk = logical_key i")
    case True
    then show ?thesis using item_for_Some [OF wf', of lk ?i] keys items by simp
  next
    case False
    have "item_for d' lk = Some j \<longleftrightarrow> item_for d lk = Some j" for j
      using item_for_Some [OF wf', of lk j] item_for_Some [OF wf, of lk j] False same keys items
      by (cases "item_key j = item_key i") auto
    with False show ?thesis by (metis fun_upd_other not_None_eq)
  qed
qed

section \<open>Successful runs\<close>

lemma attempt_run: "attempt m s = (Inr r, t) \<longleftrightarrow> m s = (r, t)"
  by (auto simp: attempt_def split: prod.splits)

lemma foldM_run:
  assumes "foldM f a xs s = (Inr b, t)" and "I a s"
    and "\<And>a x s b t. x \<in> set xs \<Longrightarrow> I a s \<Longrightarrow> f a x s = (Inr b, t) \<Longrightarrow> I b t"
  shows "I b t"
  using assms
proof (induction xs arbitrary: a s)
  case Nil
  then show ?case by (simp add: succeeds)
next
  case (Cons x xs)
  from Cons.prems(1) obtain a' s' where run: "f a x s = (Inr a', s')" "foldM f a' xs s' = (Inr b, t)"
    by (auto simp: succeeds)
  have "I a' s'" by (rule Cons.prems(3) [OF _ Cons.prems(2) run(1)]) simp
  with Cons.IH [OF run(2)] Cons.prems(3) show ?case by (metis list.set_intros(2))
qed

lemma foldM_split:
  assumes "foldM f a (xs @ y # ys) s = (Inr b, t)"
  obtains a1 s1 a2 s2 where "foldM f a xs s = (Inr a1, s1)" "f a1 y s1 = (Inr a2, s2)"
    "foldM f a2 ys s2 = (Inr b, t)"
proof -
  have "\<exists>a1 s1 a2 s2. foldM f a xs s = (Inr a1, s1) \<and> f a1 y s1 = (Inr a2, s2) \<and>
      foldM f a2 ys s2 = (Inr b, t)"
    using assms by (induction xs arbitrary: a s) (fastforce simp: succeeds)+
  then show thesis using that by blast
qed

text \<open>A store access either meets a fault of the disk, which is no missing row, or runs.\<close>

lemma stored_run:
  fixes E :: "'w env"
  assumes "stored E m s = (r, t)" and "hands_off E view"
  obtains msg w where "r = Inl (Errorf msg)" "t = s\<lparr>st_world := w\<rparr>"
  | w d where "m (st_db s) = (r, d)" "t = s\<lparr>st_world := w, st_db := d\<rparr>"
      "view w = view (st_world s)"
proof -
  obtain f w where f: "env_db_fault E (st_world s) = (f, w)" by fastforce
  have w: "view w = view (st_world s)"
    using assms(2) f unfolding hands_off_def by (metis snd_conv)
  show thesis
  proof (cases f)
    case None
    then show thesis
      using assms(1) f w that(2)
      by (auto simp: stored_def world_value_def bindM_def on_db_def split: prod.splits)
  next
    case (Some msg)
    then show thesis
      using assms(1) f that(1)
      by (auto simp: stored_def world_value_def bindM_def raise_def)
  qed
qed

section \<open>One value\<close>

text \<open>What is kept whatever is queued.\<close>

definition snapshot_kept :: "('w \<Rightarrow> string \<Rightarrow> bytes option) \<Rightarrow> 'w st \<Rightarrow> 'w st \<Rightarrow> bool" where
  "snapshot_kept view s t \<longleftrightarrow> view (st_world t) = view (st_world s) \<and>
     st_collections t = st_collections s \<and> namespaces (st_db t) = namespaces (st_db s)"

lemma snapshot_kept_trans: "snapshot_kept view s t \<Longrightarrow> snapshot_kept view t u \<Longrightarrow> snapshot_kept view s u"
  by (simp add: snapshot_kept_def)

lemma idle_kept: "idle view s t \<Longrightarrow> snapshot_kept view s t"
  by (simp add: idle_def snapshot_kept_def)

lemma idle_time:
  assumes "hands_off E view"
  shows "stays (idle view) (time_now E)"
  using assms
  by (auto simp: stays_def time_now_def world_value_def idle_def hands_off_def split: prod.split)
    (metis snd_conv)

lemma idle_emit:
  assumes "hands_off E view"
  shows "stays (idle view) (emitItem E i ty)"
proof -
  have "stays (idle view) (writes f)" if "\<And>s. idle view s (f s)" for f :: "'a st \<Rightarrow> 'a st"
    using that by (simp add: stays_def writes_def)
  then show ?thesis
    unfolding emitItem_def emit_def
    by (intro idle.combinators idle.ifM idle_time assms) (simp_all add: idle_def)
qed

lemma marked_new: "local_change (new_item k n c y i) val"
  by (simp add: local_change_def local_edit_def hasMergeBase_def new_item_def)

text \<open>A save that keeps the keys of what is stored.\<close>

lemma save_run:
  fixes E :: "'w env"
  assumes off: "hands_off E view" and wf: "db_wf (st_db s)"
    and same: "\<And>j. item_of (st_db s) (item_key i) = Some j \<Longrightarrow> logical_key j = logical_key i"
    and run: "store_SaveItem E i s = (Inr u, t)"
  shows "snapshot_kept view s t \<and>
    (\<exists>time. item_for (st_db t) = (item_for (st_db s))(logical_key i \<mapsto> i\<lparr>it_UpdatedAt := time\<rparr>))"
proof -
  obtain n s1 where "time_now E s = (Inr n, s1)"
    and save: "stored E (SaveItem n i) s1 = (Inr u, t)"
    using run by (auto simp: store_SaveItem_def succeeds)
  then have s1: "idle view s s1" using staysD [OF idle_time [OF off], of s] by simp
  from save off show ?thesis
  proof (rule stored_run)
    fix w d
    assume d: "SaveItem n i (st_db s1) = (Inr u, d)"
      and t: "t = s1\<lparr>st_world := w, st_db := d\<rparr>" and w: "view w = view (st_world s1)"
    have "db_wf (st_db s1)" using wf s1 by (simp add: idle_def)
    from item_for_save [OF this d] same s1
    have "item_for d = (item_for (st_db s1))(logical_key i \<mapsto>
        i\<lparr>it_UpdatedAt := sql_now n (it_UpdatedAt i)\<rparr>)"
      by (simp add: idle_def)
    moreover have "namespaces d = namespaces (st_db s1)"
      by (rule SaveItem_item_of(2) [OF d])
    ultimately show ?thesis using s1 t w by (auto simp: snapshot_kept_def idle_def)
  qed simp
qed

lemma marked_keys:
  "logical_key (markItemDirty now item) = logical_key item"
  "item_key (markItemDirty now item) = item_key item"
  "(markItemDirty now item)\<lparr>it_UpdatedAt := time\<rparr> = markItemDirty time item"
  by (simp_all add: logical_key_def item_key_def mark_defs)

lemma reconcileSnapshotValue_run:
  fixes E :: "'w env"
  assumes ok: "engine_ok E s" and off: "hands_off E view"
    and derived: "id_derived (env_crypto E)
      (new_item (env_keyID E) (rc_namespaceID c) (rc_name c) key itemID)"
    and run: "reconcileSnapshotValue E c key itemID val s = (Inr q, t)"
  defines "lk \<equiv> (env_keyID E, rc_namespaceID c, rc_name c, key)"
  shows "snapshot_kept view s t \<and>
    (\<exists>after. item_for (st_db t) = (item_for (st_db s))(lk := after) \<and>
       queue_spec lk val (item_for (st_db s) lk) after)"
proof -
  let ?query = "GetItemByLogicalKey (env_keyID E) (rc_namespaceID c) (rc_name c) key"
  let ?rest = "\<lambda>item. let item = (if it_ItemID item = [] then item\<lparr>it_ItemID := itemID\<rparr> else item)
     in if it_Conflict item \<or> it_Dirty item then ret None
        else if hasMergeBase item \<and> val = it_BaseValue item then ret None
        else
          bindM (time_now E) (\<lambda>now.
          let item = markItemDirty now item
          in seqM (store_SaveItem E item) (ret (Some item)))"
  have wf: "db_wf (st_db s)" using ok by (simp add: engine_ok_def)
  obtain r s1 where r: "stored E ?query s = (r, s1)"
    and rest: "bindM (case r of
              Inr item \<Rightarrow> ret item
            | Inl e \<Rightarrow>
                if errors_is ErrNotFound e
                then ret (new_item (env_keyID E) (rc_namespaceID c) (rc_name c) key itemID)
                else raise e) ?rest s1 = (Inr q, t)"
    using run unfolding reconcileSnapshotValue_def succeeds attempt_run by blast
  have s1: "idle view s s1"
    using staysD [OF idle_query [OF off, of ?query], of s] r store_reads_only(5) by simp
  have wf1: "db_wf (st_db s1)" "st_db s1 = st_db s" using wf s1 by (simp_all add: idle_def)
  have pending: ?thesis if before: "item_for (st_db s) lk = before"
    and item: "before = Some item \<or> before = None \<and>
      item = new_item (env_keyID E) (rc_namespaceID c) (rc_name c) key itemID"
    and key: "logical_key item = lk" and id: "it_ItemID item \<noteq> []"
    and same: "\<And>j. item_of (st_db s) (item_key item) = Some j \<Longrightarrow> logical_key j = lk"
    and go: "?rest item s1 = (Inr q, t)" for item before
  proof (cases "local_change item val")
    case False
    then have "it_Conflict item \<or> it_Dirty item \<or> (hasMergeBase item \<and> val = it_BaseValue item)"
      by (auto simp: local_change_def local_edit_def)
    then have "t = s1" using go id by (auto simp: succeeds split: if_splits)
    moreover have "before = Some item" using item False marked_new by blast
    ultimately show ?thesis
      using False before idle_kept [OF s1] wf1
      by (auto simp: queue_spec_def lk_def intro!: exI [of _ before])
  next
    case True
    then have "\<not> (it_Conflict item \<or> it_Dirty item)" "\<not> (hasMergeBase item \<and> val = it_BaseValue item)"
      by (auto simp: local_change_def local_edit_def)
    with go id obtain now s2 where now: "time_now E s1 = (Inr now, s2)"
      and save: "store_SaveItem E (markItemDirty now item) s2 = (Inr (), t)"
      by (auto simp: succeeds Let_def)
    have s2: "idle view s s2"
      using staysD [OF idle_time [OF off], of s1] now idle_trans [OF s1] by simp
    then have "db_wf (st_db s2)" "st_db s2 = st_db s" using wf by (simp_all add: idle_def)
    with save_run [OF off _ _ save] same key
    obtain now' where "snapshot_kept view s2 t"
      "item_for (st_db t) = (item_for (st_db s))(lk \<mapsto> markItemDirty now' item)"
      by (auto simp: marked_keys)
    moreover have "queue_spec lk val before (Some (markItemDirty now' item))"
      using item True by (elim disjE conjE) (simp_all add: queue_spec_def lk_def, blast+)
    ultimately show ?thesis
      using before snapshot_kept_trans [OF idle_kept [OF s2]] by blast
  qed
  have r_cases: "(\<exists>msg. r = Inl (Errorf msg)) \<or> r = fst (?query (st_db s))"
    using r off by (rule stored_run) simp_all
  show ?thesis
  proof (cases "item_for (st_db s) lk")
    case None
    let ?new = "new_item (env_keyID E) (rc_namespaceID c) (rc_name c) key itemID"
    from None obtain e where e: "fst (?query (st_db s)) = Inl e"
      by (auto simp: item_for_def lk_def split: sum.splits)
    with GetItemByLogicalKey_missing(1) [OF wf e] r_cases
    have "(\<exists>msg. r = Inl (Errorf msg)) \<or> r = Inl (Sentinel ErrNotFound)" by simp
    with rest have go: "?rest ?new s1 = (Inr q, t)"
      by (elim disjE exE) (simp_all only: sum.case errors_is.simps if_False if_True refl bindM_raise
          bindM_ret succeeds_basic simp_thms)
    from None have none: "item_of (st_db s) kk = Some i \<Longrightarrow> logical_key i \<noteq> lk" for kk i
      using item_for_None [OF wf] by blast
    have fresh: "item_of (st_db s) (item_key ?new) = None"
      using missing_logical_key [OF ok derived] none
      by (auto simp: lk_def item_key_def new_item_def)
    have "it_ItemID ?new \<noteq> []"
      using derived ok id_derived_nonempty by (auto simp: engine_ok_def)
    moreover have "logical_key ?new = lk" by (simp add: lk_def logical_key_def new_item_def)
    ultimately show ?thesis
      using fresh by (intro pending [OF None _ _ _ _ go]) simp_all
  next
    case (Some item)
    then have "fst (?query (st_db s)) = Inr item"
      by (auto simp: item_for_def lk_def split: sum.splits)
    with r_cases have "(\<exists>msg. r = Inl (Errorf msg)) \<or> r = Inr item" by simp
    with rest have go: "?rest item s1 = (Inr q, t)"
      by (elim disjE exE) (simp_all only: sum.case errors_is.simps if_False bindM_raise bindM_ret
          succeeds_basic simp_thms)
    from Some have item: "item_of (st_db s) (item_key item) = Some item" "logical_key item = lk"
      by (simp_all add: item_for_Some [OF wf])
    then have "it_KeyID item = env_keyID E" by (simp add: lk_def logical_key_def)
    with ok item(1) have "item_ready E s item" by (intro item_ready_stored_key)
    with ok have "it_ItemID item \<noteq> []"
      using id_derived_nonempty by (auto simp: item_ready_def engine_ok_def)
    with item show ?thesis
      by (intro pending [OF Some _ _ _ _ go]) simp_all
  qed
qed

section \<open>The scope a pass loads\<close>

text \<open>The scope of a namespace has the collection and every key of its view.\<close>

definition covers ::
  "'w env \<Rightarrow> bytes \<Rightarrow> 'w registeredCollection \<Rightarrow> (string \<Rightarrow> bytes option) \<Rightarrow>
   namespaceActiveScope \<Rightarrow> bool" where
  "covers E dek c vals scope \<longleftrightarrow> rc_name c \<in> as_scopedCollections scope \<and>
     (\<forall>y \<in> dom vals. \<forall>i. ItemID (env_crypto E) dek (composeLogicalKey (rc_name c) y) = Inr i \<longrightarrow>
        i \<in> as_activeItemIDs scope)"

definition scope_grows :: "namespaceActiveScope \<Rightarrow> namespaceActiveScope \<Rightarrow> bool" where
  "scope_grows a b \<longleftrightarrow> as_scopedCollections a \<subseteq> as_scopedCollections b \<and>
     as_activeItemIDs a \<subseteq> as_activeItemIDs b"

lemma scope_grows_trans: "scope_grows a b \<Longrightarrow> scope_grows b c \<Longrightarrow> scope_grows a c"
  by (auto simp: scope_grows_def)

lemma covers_grows: "covers E dek c vals a \<Longrightarrow> scope_grows a b \<Longrightarrow> covers E dek c vals b"
  by (auto simp: covers_def scope_grows_def)

lemma addActiveKeys_run:
  assumes "foldM (addActiveKey E n name) a keys s = (Inr b, t)"
  shows "t = s \<and> scope_grows a b \<and>
    (\<forall>y \<in> set keys. \<forall>i. ItemID (env_crypto E) (ns_DEK n) (composeLogicalKey name y) = Inr i \<longrightarrow>
       i \<in> as_activeItemIDs b)"
  using assms
proof (induction keys arbitrary: a)
  case Nil
  then show ?case by (simp add: succeeds scope_grows_def)
next
  case (Cons y ys)
  from Cons.prems obtain a1 s1 where a1: "addActiveKey E n name a y s = (Inr a1, s1)"
    and rest: "foldM (addActiveKey E n name) a1 ys s1 = (Inr b, t)" by (auto simp: succeeds)
  from a1 obtain i where i: "ItemID (env_crypto E) (ns_DEK n) (composeLogicalKey name y) = Inr i"
    and "s1 = s" "scope_grows a a1" "i \<in> as_activeItemIDs a1"
    by (auto simp: addActiveKey_def succeeds scope_grows_def subset_insertI)
  with Cons.IH [of a1] rest show ?case
    by (auto simp: scope_grows_def)
qed

definition scope_step ::
  "'w env \<Rightarrow> NamespaceState \<Rightarrow> namespaceActiveScope \<Rightarrow> 'w registeredCollection \<Rightarrow>
   ('w st, namespaceActiveScope) eff" where
  "scope_step E n scope collection =
     (let scope = scope\<lparr>as_scopedCollections := insert (rc_name collection) (as_scopedCollections scope)\<rparr>
      in bindM (outside (rc_keys collection)) (\<lambda>keys.
         foldM (addActiveKey E n (rc_name collection)) scope (uniqueSortedStrings keys)))"

lemma scope_step_run:
  assumes "scope_step E n a c s = (Inr b, t)" and "reading_keeps c view"
  shows "idle view s t" and "scope_grows a b"
    and "lists_view c view' \<Longrightarrow> covers E (ns_DEK n) c (view' (st_world s)) b"
proof -
  let ?a = "a\<lparr>as_scopedCollections := insert (rc_name c) (as_scopedCollections a)\<rparr>"
  obtain keys w where keys: "rc_keys c (st_world s) = (Inr keys, w)"
    and run: "foldM (addActiveKey E n (rc_name c)) ?a (uniqueSortedStrings keys)
      (s\<lparr>st_world := w\<rparr>) = (Inr b, t)"
    using assms(1) by (auto simp: scope_step_def Let_def succeeds succeeds_outside)
  have "view w = view (st_world s)"
    using assms(2) keys unfolding reading_keeps_def by (metis snd_conv)
  with addActiveKeys_run [OF run] show "idle view s t" by (simp add: idle_def)
  show "scope_grows a b"
    using addActiveKeys_run [OF run] by (auto simp: scope_grows_def)
  assume "lists_view c view'"
  then have "set keys = dom (view' (st_world s))"
    unfolding lists_view_def using keys by blast
  moreover have "set (uniqueSortedStrings keys) = set keys" by (simp add: uniqueSortedStrings_eq)
  ultimately have "dom (view' (st_world s)) = set (uniqueSortedStrings keys)" by simp
  with addActiveKeys_run [OF run] show "covers E (ns_DEK n) c (view' (st_world s)) b"
    by (simp add: covers_def scope_grows_def)
qed

lemma loadActiveScope_run:
  fixes E :: "'w env"
  assumes run: "loadActiveScope E n s = (Inr scope, t)"
    and keep: "\<forall>(k, c) \<in> set (st_collections s). reading_keeps c view"
  shows "idle view s t"
    and "(k, c) \<in> set (st_collections s) \<Longrightarrow> rc_namespaceID c = ns_NamespaceID n \<Longrightarrow>
      lists_view c view \<Longrightarrow> covers E (ns_DEK n) c (view (st_world s)) scope"
proof -
  let ?cs = "filter (\<lambda>c. rc_namespaceID c = ns_NamespaceID n) (map snd (sort_key fst (st_collections s)))"
  obtain b where fold: "foldM (scope_step E n) empty_scope ?cs s = (Inr b, t)"
    and scope: "scope = b\<lparr>as_activeScopeHash := computeHash (env_crypto E) b\<rparr>"
    using run
    by (auto simp: loadActiveScope_def collectionRegistrations_def succeeds scope_step_def [abs_def])
  have keeps: "reading_keeps c view" if "c \<in> set ?cs" for c
    using that keep by auto
  have step: "idle view s t \<and> scope_grows a b"
    if "foldM (scope_step E n) a xs s = (Inr b, t)" "set xs \<subseteq> set ?cs" for a b xs s t
    using that(1)
  proof (rule foldM_run [where I = "\<lambda>b t. idle view s t \<and> scope_grows a b"])
    show "idle view s s \<and> scope_grows a a" by (simp add: idle_def scope_grows_def)
  next
    fix a1 x s1 b1 t1
    assume x: "x \<in> set xs" and "idle view s s1 \<and> scope_grows a a1"
      and "scope_step E n a1 x s1 = (Inr b1, t1)"
    with scope_step_run [OF this(3) keeps] that(2)
    show "idle view s t1 \<and> scope_grows a b1"
      by (blast intro: idle_trans scope_grows_trans)
  qed
  from step [OF fold] show "idle view s t" by blast
  assume c: "(k, c) \<in> set (st_collections s)" "rc_namespaceID c = ns_NamespaceID n" "lists_view c view"
  then have "c \<in> set ?cs" by force
  then obtain xs ys where cs: "?cs = xs @ c # ys" by (meson split_list)
  with fold have "foldM (scope_step E n) empty_scope (xs @ c # ys) s = (Inr b, t)" by simp
  then obtain a1 s1 a2 s2 where before: "foldM (scope_step E n) empty_scope xs s = (Inr a1, s1)"
    and at: "scope_step E n a1 c s1 = (Inr a2, s2)"
    and after: "foldM (scope_step E n) a2 ys s2 = (Inr b, t)"
    by (rule foldM_split)
  have "view (st_world s1) = view (st_world s)"
    using step [OF before] unfolding cs by (auto simp: idle_def)
  with scope_step_run(3) [OF at keeps [OF \<open>c \<in> set ?cs\<close>] c(3)]
  have "covers E (ns_DEK n) c (view (st_world s)) a2" by simp
  with step [OF after] have "covers E (ns_DEK n) c (view (st_world s)) b"
    unfolding cs by (auto intro: covers_grows)
  then show "covers E (ns_DEK n) c (view (st_world s)) scope" by (simp add: scope covers_def)
qed

text \<open>A namespace whose key is stored is ready without a call.\<close>

lemma ensureNamespaceReady_run:
  fixes E :: "'w env"
  assumes off: "hands_off E view"
    and stored: "fst (GetNamespace (env_keyID E) nid (st_db s)) = Inr n" "ns_DEK n \<noteq> []"
    and run: "ensureNamespaceReady E nid [] s = (Inr n', t)"
  shows "n' = n \<and> idle view s t"
proof -
  obtain r s1 where r: "stored E (GetNamespace (env_keyID E) nid) s = (r, s1)"
    and rest: "(let checkKind = (\<lambda>n. seqM (guardM (([] :: string) = [] \<or> ns_Kind n = [])
                               (Errorf ''namespace has another kind'')) (ret n));
         join = seqM (ensureAuthenticated E)
                  (bindM (joinNamespace E nid []) checkKind)
     in case r of
          Inr n \<Rightarrow> if ns_DEK n \<noteq> [] then checkKind n else join
        | Inl e \<Rightarrow> if \<not> errors_is ErrNotFound e then raise e else join) s1 = (Inr n', t)"
    using run unfolding ensureNamespaceReady_def getNamespaceState_def succeeds attempt_run by blast
  have "idle view s s1"
    using staysD [OF idle_query [OF off, of "GetNamespace (env_keyID E) nid"], of s] r
    by (simp add: GetNamespace_def)
  moreover have "(\<exists>msg. r = Inl (Errorf msg)) \<or> r = Inr n"
    using r off by (rule stored_run) (use stored(1) in simp_all)
  then have "n' = n \<and> t = s1"
    using rest stored(2) by (elim disjE exE) (simp_all add: Let_def succeeds)
  ultimately show ?thesis by simp
qed

section \<open>One key of a pass\<close>

definition pass_ready :: "'w env \<Rightarrow> ('w \<Rightarrow> string \<Rightarrow> bytes option) \<Rightarrow> 'w st \<Rightarrow> bool" where
  "pass_ready E view s \<longleftrightarrow> engine_ok E s \<and>
     (\<forall>(k, c) \<in> set (st_collections s). reading_keeps c view \<and>
        (\<exists>n. fst (GetNamespace (env_keyID E) (rc_namespaceID c) (st_db s)) = Inr n \<and> ns_DEK n \<noteq> []))"

lemma GetNamespace_cong:
  "namespaces d' = namespaces d \<Longrightarrow> fst (GetNamespace k n d') = fst (GetNamespace k n d)"
  by (simp add: GetNamespace_def)

lemma pass_ready_kept:
  assumes "pass_ready E view s" and "snapshot_kept view s t" and "engine_ok E t"
  shows "pass_ready E view t"
  using assms GetNamespace_cong [of "st_db t" "st_db s"]
  by (simp add: pass_ready_def snapshot_kept_def)

text \<open>The cached scopes of the target's namespace cover the target.\<close>

definition cache_covers ::
  "'w env \<Rightarrow> bytes \<Rightarrow> 'w registeredCollection \<Rightarrow> (string \<Rightarrow> bytes option) \<Rightarrow>
   (string \<times> namespaceActiveScope) list \<Rightarrow> bool" where
  "cache_covers E dek c vals cache \<longleftrightarrow>
     (\<forall>scope. map_of cache (rc_namespaceID c) = Some scope \<longrightarrow> covers E dek c vals scope)"

lemma cached_scope_run:
  fixes E :: "'w env"
  assumes ready: "pass_ready E view s"
    and c: "(k, c) \<in> set (st_collections s)" "lists_view c view"
      "fst (GetNamespace (env_keyID E) (rc_namespaceID c) (st_db s)) = Inr n"
    and n': "fst (GetNamespace (env_keyID E) nid (st_db s)) = Inr n'"
    and cache: "cache_covers E (ns_DEK n) c (view (st_world s)) cache"
    and run: "(case map_of cache nid of
              Some scope \<Rightarrow> ret (scope, cache)
            | None \<Rightarrow> bindM (loadActiveScope E n') (\<lambda>scope. ret (scope, (nid, scope) # cache))) s =
      (Inr (scope, cache'), t)"
  shows "idle view s t \<and> map_of cache' nid = Some scope \<and>
    cache_covers E (ns_DEK n) c (view (st_world s)) cache'"
proof (cases "map_of cache nid")
  case (Some scope)
  with run cache show ?thesis by (simp add: succeeds idle_def)
next
  case None
  with run have load: "loadActiveScope E n' s = (Inr scope, t)" and cache': "cache' = (nid, scope) # cache"
    by (auto simp: succeeds)
  have keeps: "\<forall>(k, c) \<in> set (st_collections s). reading_keeps c view"
    using ready by (auto simp: pass_ready_def)
  note loaded = loadActiveScope_run [OF load keeps]
  have "covers E (ns_DEK n) c (view (st_world s)) scope" if "rc_namespaceID c = nid"
    using loaded(2) [OF c(1) _ c(2)] that n' c(3) GetNamespace_key [OF n'] by simp
  with loaded(1) cache show ?thesis by (simp add: cache' cache_covers_def)
qed

lemma snapshotKey_run:
  fixes E :: "'w env"
  assumes ready: "pass_ready E view s" and off: "hands_off E view"
    and c: "(k, c) \<in> set (st_collections s)" "lists_view c view"
      "fst (GetNamespace (env_keyID E) (rc_namespaceID c) (st_db s)) = Inr n"
    and c': "go_collection c'" "go_string key"
      "fst (GetNamespace (env_keyID E) (rc_namespaceID c') (st_db s)) = Inr n'"
    and cache: "cache_covers E (ns_DEK n) c (view (st_world s)) cache"
    and run: "snapshotKey E n' c' vals cache key s = (Inr cache', t)"
  defines "lk \<equiv> (env_keyID E, rc_namespaceID c', rc_name c', key)"
  shows "pass_ready E view t \<and> snapshot_kept view s t \<and>
    cache_covers E (ns_DEK n) c (view (st_world t)) cache' \<and>
    (\<forall>lk'. lk' \<noteq> lk \<longrightarrow> item_for (st_db t) lk' = item_for (st_db s) lk') \<and>
    (c' = c \<longrightarrow> view (st_world s) key = Some val \<longrightarrow> map_of vals key = Some val \<longrightarrow>
       queue_spec lk val (item_for (st_db s) lk) (item_for (st_db t) lk))"
proof -
  have ok: "engine_ok E s" using ready by (simp add: pass_ready_def)
  obtain itemID scope cache1 s1 where
    id: "ItemID (env_crypto E) (ns_DEK n') (composeLogicalKey (rc_name c') key) = Inr itemID"
    and scope: "(case map_of cache (rc_namespaceID c') of
              Some scope \<Rightarrow> ret (scope, cache)
            | None \<Rightarrow> bindM (loadActiveScope E n') (\<lambda>scope.
                ret (scope, (rc_namespaceID c', scope) # cache))) s = (Inr (scope, cache1), s1)"
    and rest: "(if \<not> itemActive scope (new_item [] (rc_namespaceID c') (rc_name c') key itemID)
     then ret cache1
     else
       bindM (reconcileSnapshotValue E c' key itemID
         (case map_of vals key of None \<Rightarrow> [] | Some v \<Rightarrow> v)) (\<lambda>queued.
       seqM (case queued of None \<Rightarrow> ret () | Some item \<Rightarrow> emitItem E item EventItemQueued)
       (ret cache1))) s1 = (Inr cache', t)"
    using run unfolding snapshotKey_def succeeds by (auto split: prod.splits)
  note s1 = cached_scope_run [OF ready c c'(3) cache scope]
  have cache': "cache' = cache1" using rest by (auto simp: succeeds split: if_splits)
  have "stays (engine_step E) (snapshotKey E n' c' vals cache key)"
    by (rule stays_snapshotKey) (use c' in \<open>simp_all add: go_collection_def\<close>)
  from staysD [OF this, of s] run have "engine_step E s t" by simp
  with ok have ok': "engine_ok E t" by (simp add: engine_step_def)
  have "stays outputs_only (case map_of cache (rc_namespaceID c') of
              Some scope \<Rightarrow> ret (scope, cache)
            | None \<Rightarrow> bindM (loadActiveScope E n') (\<lambda>scope.
                ret (scope, (rc_namespaceID c', scope) # cache)))"
    by (intro outputs.combinators calls)
  from staysD [OF this, of s] scope have "engine_ok E s1"
    using ok by (auto intro: engine_ok_outputs)
  have effect: "snapshot_kept view s1 t \<and> (\<exists>after. item_for (st_db t) = (item_for (st_db s1))(lk := after) \<and>
      (itemActive scope (new_item [] (rc_namespaceID c') (rc_name c') key itemID) \<longrightarrow>
       queue_spec lk (case map_of vals key of None \<Rightarrow> [] | Some v \<Rightarrow> v) (item_for (st_db s1) lk) after))"
  proof (cases "itemActive scope (new_item [] (rc_namespaceID c') (rc_name c') key itemID)")
    case False
    with rest show ?thesis
      by (auto simp: succeeds snapshot_kept_def intro!: exI [of _ "item_for (st_db s1) lk"])
  next
    case True
    with rest obtain q s2 where q: "reconcileSnapshotValue E c' key itemID
         (case map_of vals key of None \<Rightarrow> [] | Some v \<Rightarrow> v) s1 = (Inr q, s2)"
      and emit: "(case q of None \<Rightarrow> ret () | Some item \<Rightarrow> emitItem E item EventItemQueued) s2 = (Inr (), t)"
      by (auto simp: succeeds)
    have "id_derived (env_crypto E)
        (new_item (env_keyID E) (rc_namespaceID c') (rc_name c') key itemID)"
      using c'(1,2) id by (auto simp: id_derived_def new_item_def go_collection_def)
    note queued = reconcileSnapshotValue_run [OF \<open>engine_ok E s1\<close> off this q, folded lk_def]
    have "stays (idle view) (case q of None \<Rightarrow> ret () | Some item \<Rightarrow> emitItem E item EventItemQueued)"
      by (intro idle.combinators idle_emit off)
    from staysD [OF this, of s2] emit have "idle view s2 t" by simp
    with queued show ?thesis by (auto simp: snapshot_kept_def idle_def)
  qed
  have active: "itemActive scope (new_item [] (rc_namespaceID c') (rc_name c') key itemID)"
    if "c' = c" "view (st_world s) key = Some val"
    using s1 that id c(3) c'(3) by (auto simp: cache_covers_def covers_def itemActive_def new_item_def)
  have idle: "idle view s s1" using s1 by blast
  from effect obtain after where kept: "snapshot_kept view s1 t"
    and after: "item_for (st_db t) = (item_for (st_db s))(lk := after)"
    and spec: "itemActive scope (new_item [] (rc_namespaceID c') (rc_name c') key itemID) \<longrightarrow>
       queue_spec lk (case map_of vals key of None \<Rightarrow> [] | Some v \<Rightarrow> v) (item_for (st_db s) lk) after"
    using idle by (auto simp: idle_def)
  have kept: "snapshot_kept view s t" using snapshot_kept_trans [OF idle_kept [OF idle] kept] .
  show ?thesis
  proof (intro conjI allI impI)
    show "pass_ready E view t" by (rule pass_ready_kept [OF ready kept ok'])
    show "snapshot_kept view s t" by (fact kept)
    show "cache_covers E (ns_DEK n) c (view (st_world t)) cache'"
      using s1 kept by (simp add: cache' snapshot_kept_def)
    show "item_for (st_db t) lk' = item_for (st_db s) lk'" if "lk' \<noteq> lk" for lk'
      using that by (simp add: after)
    show "queue_spec lk val (item_for (st_db s) lk) (item_for (st_db t) lk)"
      if "c' = c" "view (st_world s) key = Some val" "map_of vals key = Some val"
      using spec active [OF that(1,2)] that(3) by (simp add: after)
  qed
qed

section \<open>A pass over all collections\<close>

text \<open>What holds between two keys of a pass, with the target's item as it is.\<close>

definition passing ::
  "'w env \<Rightarrow> ('w \<Rightarrow> string \<Rightarrow> bytes option) \<Rightarrow> 'w st \<Rightarrow> 'w registeredCollection \<Rightarrow> bytes \<Rightarrow>
   (string \<times> namespaceActiveScope) list \<Rightarrow> 'w st \<Rightarrow> bool" where
  "passing E view s c dek cache u \<longleftrightarrow> pass_ready E view u \<and> snapshot_kept view s u \<and>
     cache_covers E dek c (view (st_world u)) cache"

lemma passing_facts:
  assumes "passing E view s c dek cache u"
  shows "pass_ready E view u" "st_collections u = st_collections s"
    "view (st_world u) = view (st_world s)" "cache_covers E dek c (view (st_world u)) cache"
    "fst (GetNamespace k nid (st_db u)) = fst (GetNamespace k nid (st_db s))"
proof -
  show "pass_ready E view u" "cache_covers E dek c (view (st_world u)) cache"
    using assms by (simp_all add: passing_def)
  have kept: "snapshot_kept view s u" using assms by (simp add: passing_def)
  then show "st_collections u = st_collections s" "view (st_world u) = view (st_world s)"
    by (simp_all add: snapshot_kept_def)
  show "fst (GetNamespace k nid (st_db u)) = fst (GetNamespace k nid (st_db s))"
    using kept by (intro GetNamespace_cong) (simp add: snapshot_kept_def)
qed

lemma keys_run:
  fixes E :: "'w env"
  assumes off: "hands_off E view"
    and c: "(k, c) \<in> set (st_collections s)" "lists_view c view"
      "fst (GetNamespace (env_keyID E) (rc_namespaceID c) (st_db s)) = Inr n"
    and c': "go_collection c'" "\<forall>key \<in> set keys. go_string key"
      "fst (GetNamespace (env_keyID E) (rc_namespaceID c') (st_db s)) = Inr n'"
    and start: "passing E view s c (ns_DEK n) cache u"
    and run: "foldM (snapshotKey E n' c' vals) cache keys u = (Inr cache', t)"
  shows "passing E view s c (ns_DEK n) cache' t \<and>
    (\<forall>lk. (\<forall>key \<in> set keys. lk \<noteq> (env_keyID E, rc_namespaceID c', rc_name c', key)) \<longrightarrow>
       item_for (st_db t) lk = item_for (st_db u) lk)"
  using run
proof (rule foldM_run [where I = "\<lambda>cache t. passing E view s c (ns_DEK n) cache t \<and>
    (\<forall>lk. (\<forall>key \<in> set keys. lk \<noteq> (env_keyID E, rc_namespaceID c', rc_name c', key)) \<longrightarrow>
       item_for (st_db t) lk = item_for (st_db u) lk)"])
  show "passing E view s c (ns_DEK n) cache u \<and>
    (\<forall>lk. (\<forall>key \<in> set keys. lk \<noteq> (env_keyID E, rc_namespaceID c', rc_name c', key)) \<longrightarrow>
       item_for (st_db u) lk = item_for (st_db u) lk)"
    using start by simp
next
  fix a key v b w
  assume key: "key \<in> set keys" and v: "passing E view s c (ns_DEK n) a v \<and>
    (\<forall>lk. (\<forall>key \<in> set keys. lk \<noteq> (env_keyID E, rc_namespaceID c', rc_name c', key)) \<longrightarrow>
       item_for (st_db v) lk = item_for (st_db u) lk)"
    and run: "snapshotKey E n' c' vals a key v = (Inr b, w)"
  from v have passing: "passing E view s c (ns_DEK n) a v" by blast
  note facts = passing_facts [OF this]
  have "(k, c) \<in> set (st_collections v)"
    "fst (GetNamespace (env_keyID E) (rc_namespaceID c) (st_db v)) = Inr n"
    "fst (GetNamespace (env_keyID E) (rc_namespaceID c') (st_db v)) = Inr n'"
    using c(1,3) c'(3) unfolding facts(2,5) by simp_all
  from snapshotKey_run [OF facts(1) off this(1) c(2) this(2) c'(1) _ this(3) facts(4) run] key c'(2) v
  show "passing E view s c (ns_DEK n) b w \<and>
    (\<forall>lk. (\<forall>key \<in> set keys. lk \<noteq> (env_keyID E, rc_namespaceID c', rc_name c', key)) \<longrightarrow>
       item_for (st_db w) lk = item_for (st_db u) lk)"
    by (auto simp: passing_def intro: snapshot_kept_trans)
qed

definition snapshotCollection ::
  "'w env \<Rightarrow> (string \<times> namespaceActiveScope) list \<Rightarrow> 'w registeredCollection \<Rightarrow>
   ('w st, (string \<times> namespaceActiveScope) list) eff" where
  "snapshotCollection E cache collection =
     bindM (ensureNamespaceReady E (rc_namespaceID collection) []) (\<lambda>namespaceState.
     bindM (outside (rc_snapshot collection)) (\<lambda>vals.
     foldM (snapshotKey E namespaceState collection vals) cache
       (sorted_list_of_set (fst ` set vals))))"

lemma target_key_run:
  fixes E :: "'w env"
  assumes off: "hands_off E view"
    and c: "(k, c) \<in> set (st_collections s)" "lists_view c view"
      "fst (GetNamespace (env_keyID E) (rc_namespaceID c) (st_db s)) = Inr n"
    and go: "\<forall>key \<in> set keys. go_string key"
    and start: "passing E view s c (ns_DEK n) cache u"
    and run: "foldM (snapshotKey E n c vals) cache keys u = (Inr cache', t)"
    and key: "distinct keys" "key \<in> set keys" "view (st_world s) key = Some val" "map_of vals key = Some val"
  defines "lk \<equiv> (env_keyID E, rc_namespaceID c, rc_name c, key)"
  shows "queue_spec lk val (item_for (st_db u) lk) (item_for (st_db t) lk)"
proof -
  obtain xs ys where keys: "keys = xs @ key # ys" using key(2) by (meson split_list)
  have other: "\<forall>y \<in> set xs \<union> set ys. lk \<noteq> (env_keyID E, rc_namespaceID c, rc_name c, y)"
    using key(1) by (auto simp: lk_def keys)
  have "engine_ok E u" "st_collections u = st_collections s"
    using passing_facts(1,2) [OF start] by (simp_all add: pass_ready_def)
  then have goc: "go_collection c" using c(1) by (auto simp: engine_ok_def)
  from run obtain a1 s1 a2 s2 where
    before: "foldM (snapshotKey E n c vals) cache xs u = (Inr a1, s1)"
    and at: "snapshotKey E n c vals a1 key s1 = (Inr a2, s2)"
    and after: "foldM (snapshotKey E n c vals) a2 ys s2 = (Inr cache', t)"
    unfolding keys by (rule foldM_split)
  have gokeys: "\<forall>y \<in> set xs. go_string y" "\<forall>y \<in> set ys. go_string y" "go_string key"
    using go by (simp_all add: keys)
  note xs = keys_run [OF off c goc gokeys(1) c(3) start before]
  have same1: "item_for (st_db s1) lk = item_for (st_db u) lk"
    by (rule xs [THEN conjunct2, rule_format]) (use other in blast)
  note facts = passing_facts [OF xs [THEN conjunct1]]
  have "(k, c) \<in> set (st_collections s1)"
    "fst (GetNamespace (env_keyID E) (rc_namespaceID c) (st_db s1)) = Inr n"
    using c(1,3) unfolding facts(2,5) by simp_all
  note step = snapshotKey_run [OF facts(1) off this(1) c(2) this(2) goc gokeys(3) this(2) facts(4) at,
      where val = val, folded lk_def]
  have "passing E view s c (ns_DEK n) a2 s2"
    using xs step by (auto simp: passing_def intro: snapshot_kept_trans)
  note ys = keys_run [OF off c goc gokeys(2) c(3) this after]
  have same2: "item_for (st_db t) lk = item_for (st_db s2) lk"
    by (rule ys [THEN conjunct2, rule_format]) (use other in blast)
  from step key(3,4) facts(3)
  have "queue_spec lk val (item_for (st_db s1) lk) (item_for (st_db s2) lk)" by simp
  then show ?thesis by (simp only: same1 same2)
qed

text \<open>Before the keys of a collection, its namespace is looked up and its snapshot read.\<close>

lemma collection_begins:
  fixes E :: "'w env"
  assumes off: "hands_off E view" and c': "(k', c') \<in> set (st_collections s)"
    and start: "passing E view s c dek cache u"
    and run: "snapshotCollection E cache c' u = (Inr cache', t)"
  obtains n' vals u2 where "passing E view s c dek cache u2" "st_db u2 = st_db u"
    "fst (GetNamespace (env_keyID E) (rc_namespaceID c') (st_db s)) = Inr n'"
    "foldM (snapshotKey E n' c' vals) cache (sorted_list_of_set (fst ` set vals)) u2 = (Inr cache', t)"
    "\<forall>key \<in> set (sorted_list_of_set (fst ` set vals)). go_string key"
    "lists_view c' view \<longrightarrow> map_of vals = view (st_world s)"
proof -
  note u = passing_facts [OF start]
  have ok: "engine_ok E u" using u(1) by (simp add: pass_ready_def)
  obtain n' where n': "fst (GetNamespace (env_keyID E) (rc_namespaceID c') (st_db u)) = Inr n'"
    "ns_DEK n' \<noteq> []" and reading: "reading_keeps c' view"
    using u(1) c' by (auto simp: pass_ready_def u(2))
  obtain n'' u1 vals u2 where ensure: "ensureNamespaceReady E (rc_namespaceID c') [] u = (Inr n'', u1)"
    and vals: "outside (rc_snapshot c') u1 = (Inr vals, u2)"
    and fold: "foldM (snapshotKey E n'' c' vals) cache (sorted_list_of_set (fst ` set vals)) u2 =
      (Inr cache', t)"
    using run by (auto simp: snapshotCollection_def succeeds)
  from ensureNamespaceReady_run [OF off n' ensure] have n'': "n'' = n'" and u1: "idle view u u1"
    by simp_all
  obtain w where w: "rc_snapshot c' (st_world u1) = (Inr vals, w)" "u2 = u1\<lparr>st_world := w\<rparr>"
    using vals by (auto simp: succeeds_outside)
  then have "view w = view (st_world u1)"
    using reading unfolding reading_keeps_def by (metis snd_conv)
  with u1 w(2) have u2: "idle view u u2" by (simp add: idle_def)
  have "engine_step E u u1" using staysD [OF stays_ensureNamespaceReady, of E u] ensure by (metis snd_conv)
  moreover have "outputs_only u1 u2" by (simp add: w(2) outputs_only_def)
  ultimately have "engine_ok E u2" using ok engine_ok_outputs by (auto simp: engine_step_def)
  with u(1) u2 have "pass_ready E view u2" using pass_ready_kept idle_kept by blast
  moreover have "snapshot_kept view s u" using start by (simp add: passing_def)
  ultimately have "passing E view s c dek cache u2"
    using u(4) u2 snapshot_kept_trans [OF _ idle_kept [OF u2]] by (simp add: passing_def idle_def)
  moreover have "go_collection c'" using ok c' by (auto simp: engine_ok_def u(2))
  then have "\<forall>key \<in> fst ` set vals. go_string key"
    using w(1) by (fastforce simp: go_collection_def)
  moreover have "map_of vals = view (st_world s)" if "lists_view c' view"
  proof -
    have "map_of vals = view (st_world u1)" using that w(1) unfolding lists_view_def by blast
    with u1 u(3) show ?thesis by (simp add: idle_def)
  qed
  ultimately show thesis
    using u2 fold n'(1) that [of u2 n' vals] by (simp add: n'' u(5) idle_def)
qed

lemma snapshotCollection_run:
  fixes E :: "'w env" and key :: string
  assumes off: "hands_off E view"
    and c: "(k, c) \<in> set (st_collections s)" "lists_view c view"
      "fst (GetNamespace (env_keyID E) (rc_namespaceID c) (st_db s)) = Inr n"
    and c': "(k', c') \<in> set (st_collections s)"
    and start: "passing E view s c (ns_DEK n) cache u"
    and run: "snapshotCollection E cache c' u = (Inr cache', t)"
  defines "lk \<equiv> (env_keyID E, rc_namespaceID c, rc_name c, key)"
  shows "passing E view s c (ns_DEK n) cache' t \<and>
    (if c' = c then
       (case view (st_world s) key of
          None \<Rightarrow> item_for (st_db t) lk = item_for (st_db u) lk
        | Some val \<Rightarrow> queue_spec lk val (item_for (st_db u) lk) (item_for (st_db t) lk))
     else item_for (st_db t) lk = item_for (st_db u) lk)"
proof -
  from off c' start run obtain n' vals u2 where start2: "passing E view s c (ns_DEK n) cache u2"
    and db: "st_db u2 = st_db u"
    and n'_s: "fst (GetNamespace (env_keyID E) (rc_namespaceID c') (st_db s)) = Inr n'"
    and fold: "foldM (snapshotKey E n' c' vals) cache (sorted_list_of_set (fst ` set vals)) u2 =
      (Inr cache', t)"
    and gostrings: "\<forall>key \<in> set (sorted_list_of_set (fst ` set vals)). go_string key"
    and vals: "lists_view c' view \<longrightarrow> map_of vals = view (st_world s)"
    by (rule collection_begins)
  have ok: "engine_ok E u" using passing_facts(1) [OF start] by (simp add: pass_ready_def)
  note cols = passing_facts(2) [OF start]
  have go: "go_collection c'" using ok c' cols by (auto simp: engine_ok_def)
  have gokeys: "\<forall>key \<in> set xs. go_string key"
    if "set xs \<subseteq> set (sorted_list_of_set (fst ` set vals))" for xs
    using that gostrings by blast
  note keys = keys_run [OF off c go gokeys n'_s]
  note all = keys [OF subset_refl start2 fold]
  have passing: "passing E view s c (ns_DEK n) cache' t" using all by blast
  have untouched: "item_for (st_db t) lk = item_for (st_db u) lk"
    if "\<forall>y \<in> fst ` set vals. lk \<noteq> (env_keyID E, rc_namespaceID c', rc_name c', y)"
  proof -
    have "set (sorted_list_of_set (fst ` set vals)) = fst ` set vals" by simp
    with all that have "item_for (st_db t) lk = item_for (st_db u2) lk" by metis
    with db show ?thesis by simp
  qed
  show ?thesis
  proof (cases "c' = c")
    case False
    have "registry_ok u" using ok by (simp add: engine_ok_def)
    with False c(1) c' cols have "rc_namespaceID c' \<noteq> rc_namespaceID c \<or> rc_name c' \<noteq> rc_name c"
      by (metis registered_once)
    then have "lk \<noteq> (env_keyID E, rc_namespaceID c', rc_name c', y)" for y by (auto simp: lk_def)
    with untouched passing False show ?thesis by simp
  next
    case True
    have vals_view: "map_of vals = view (st_world s)" using c(2) vals by (simp add: True)
    show ?thesis
    proof (cases "view (st_world s) key")
      case None
      then have "key \<notin> fst ` set vals" by (metis map_of_eq_None_iff vals_view)
      then have "\<forall>y \<in> fst ` set vals. lk \<noteq> (env_keyID E, rc_namespaceID c', rc_name c', y)"
        by (auto simp: lk_def)
      with untouched passing True None show ?thesis by simp
    next
      case (Some val)
      then have "key \<in> fst ` set vals" by (metis map_of_eq_None_iff option.distinct(1) vals_view)
      then have "key \<in> set (sorted_list_of_set (fst ` set vals))" by simp
      moreover have "n' = n" using n'_s c(3) by (simp add: True)
      moreover have "map_of vals key = Some val" using Some vals_view by simp
      ultimately have "queue_spec lk val (item_for (st_db u2) lk) (item_for (st_db t) lk)"
        using target_key_run [OF off c gostrings start2 _ distinct_sorted_list_of_set _ Some] fold
        unfolding lk_def True by blast
      with True passing Some db show ?thesis by simp
    qed
  qed
qed

text \<open>Every collection is visited once.\<close>

lemma registered_distinct:
  assumes "registry_ok s"
  shows "distinct (map snd (sort_key fst (st_collections s)))"
proof -
  let ?key = "\<lambda>c. collectionRegistryKey (rc_namespaceID c) (rc_name c)"
  let ?cs = "sort_key fst (st_collections s)"
  have "map ?key (map snd ?cs) = map fst ?cs"
    using assms by (auto simp: registry_ok_def)
  moreover have "distinct (map fst ?cs)"
    using assms by (simp add: registry_ok_def distinct_map inj_on_def)
  ultimately show ?thesis by (metis distinct_map)
qed

end
