(* ===== verification/Snapshot_Properties.thy ===== *)
theory Snapshot_Properties
  imports Snapshot_Spec Apply_Properties
begin

text \<open>
  Properties of the local side of a sync: what the comparison of the application's values with
  the store queues, and what the three resolutions of a conflict leave behind.
\<close>

section \<open>Local changes\<close>


text \<open>An application with one note, and an engine that has the key of its namespace.\<close>

definition ex_notes :: "int registeredCollection" where
  "ex_notes =
     \<lparr>rc_namespaceID = ''ns'', rc_name = ''notes'', rc_keys = (\<lambda>w. (Inr [''a''], w)),
      rc_snapshot = (\<lambda>w. (Inr [(''a'', ''mine'')], w)), rc_get = (\<lambda>_. ret ''mine''), rc_set = (\<lambda>_ _. ret ()),
      rc_setIfCurrent = (\<lambda>_ _ _ _. ret False), rc_mergeBytes = (\<lambda>_ _ l _. Inr (l, False))\<rparr>"

definition ex_notes_namespace :: NamespaceState where
  "ex_notes_namespace = (new_namespace (env_keyID ex_env) ''ns'' NamespaceKindShared)\<lparr>ns_DEK := ex_dek\<rparr>"

definition ex_notes_state :: "int st" where
  "ex_notes_state = ex_state\<lparr>st_db := snd (SaveNamespace 1 ex_notes_namespace ex_db),
     st_collections := [(collectionRegistryKey ''ns'' ''notes'', ex_notes)]\<rparr>"

lemma ex_notes_db:
  "SaveNamespace 1 ex_notes_namespace ex_db = (Inr (), st_db ex_notes_state)"
  "fst (GetNamespace (env_keyID ex_env) ''ns'' (st_db ex_notes_state)) =
     Inr (ex_notes_namespace\<lparr>ns_UpdatedAt := 1\<rparr>)"
  by (simp_all add: ex_notes_state_def ex_notes_namespace_def new_namespace_def SaveNamespace_def
      namespace_to_row_def GetNamespace_def scan_namespace_def namespace_pk_def lookup_row_upsert
      sql_uint64_def scan_uint64_def sql_now_def time_is_zero_def)

lemma ex_notes_cols: "st_collections ex_notes_state = [(collectionRegistryKey ''ns'' ''notes'', ex_notes)]"
  by (simp add: ex_notes_state_def)

lemma ex_notes_no_items: "item_of (st_db ex_notes_state) = Map.empty"
proof -
  have "items (st_db ex_notes_state) = items ex_db"
    by (auto simp: ex_notes_state_def SaveNamespace_def split: sum.split)
  then show ?thesis using ex_db(2) by (simp add: item_of_def fun_eq_iff)
qed

lemma ex_notes_ready: "pass_ready ex_env (\<lambda>_. [''a'' \<mapsto> ''mine'']) ex_notes_state"
proof -
  have "db_wf (st_db ex_notes_state)"
    using db_wf_SaveNamespace [OF ex_db(1), of 1 ex_notes_namespace] ex_notes_db(1) by simp
  moreover have "item_of (st_db ex_notes_state) = Map.empty" by (rule ex_notes_no_items)
  moreover have "session_saved ex_env (st_db ex_notes_state) ex_identity_state"
    using ex_db(3) SaveNamespace_identities [OF ex_notes_db(1)] by (simp add: session_saved_def)
  moreover have "go_collection ex_notes"
    by (simp add: go_collection_def go_string_def ex_notes_def ret_def)
  ultimately have "engine_ok ex_env ex_notes_state"
    using ex_engine_ok
    by (simp add: engine_ok_def items_ok_def ex_notes_state_def ex_state_def registry_ok_def ex_notes_def)
  then show ?thesis
    by (simp only: pass_ready_def)
      (simp add: ex_notes_cols ex_notes_db(2) reading_keeps_def ret_def ex_notes_def
        ex_notes_namespace_def ex_dek_def)
qed

lemma ex_world_runs:
  "wp (stored ex_env m) Q X s = (case m (st_db s) of (r, d) \<Rightarrow>
    (case r of Inl e \<Rightarrow> X e (s\<lparr>st_db := d\<rparr>) | Inr x \<Rightarrow> Q x (s\<lparr>st_db := d\<rparr>)))"
  "wp (time_now ex_env) Q' X s = Q' (st_world s) (s\<lparr>st_world := st_world s + 1\<rparr>)"
  "s\<lparr>st_world := st_world s\<rparr> = s" "s\<lparr>st_db := st_db s\<rparr> = s"
proof -
  have same: "s\<lparr>st_world := st_world s\<rparr> = s" for s :: "int st" by (cases s) simp
  then show "s\<lparr>st_world := st_world s\<rparr> = s" .
  show "s\<lparr>st_db := st_db s\<rparr> = s" by (cases s) simp
  show "wp (stored ex_env m) Q X s = (case m (st_db s) of (r, d) \<Rightarrow>
    (case r of Inl e \<Rightarrow> X e (s\<lparr>st_db := d\<rparr>) | Inr x \<Rightarrow> Q x (s\<lparr>st_db := d\<rparr>)))"
    by (cases s) (simp add: stored_def ex_env_def wp split: prod.split sum.split)
  show "wp (time_now ex_env) Q' X s = Q' (st_world s) (s\<lparr>st_world := st_world s + 1\<rparr>)"
    by (simp add: time_now_def ex_env_def wp)
qed

lemma ex_notes_fresh:
  "GetItemByLogicalKey (env_keyID ex_env) ''ns'' ''notes'' ''a'' (st_db ex_notes_state) =
     (Inl (Sentinel ErrNotFound), st_db ex_notes_state)"
  by (simp add: GetItemByLogicalKey_def getItem_def ex_notes_state_def ex_db_def SaveNamespace_def
      SaveIdentity_def empty_database_def split: sum.split)

lemma ex_notes_saved:
  "\<exists>d. SaveItem now (markItemDirty now' (new_item (env_keyID ex_env) ''ns'' ''notes'' ''a'' ex_itemID))
     (st_db ex_notes_state) = (Inr (), d)"
proof (rule SaveItem_savable)
  have "db_wf (st_db ex_notes_state)" using ex_notes_ready by (simp add: pass_ready_def engine_ok_def)
  then show "savable (st_db ex_notes_state)
      (markItemDirty now' (new_item (env_keyID ex_env) ''ns'' ''notes'' ''a'' ex_itemID))"
    by (simp add: savable_def item_storable_def mark_defs new_item_def storable_def ex_notes_no_items)
qed

lemma ex_notes_dek:
  "ns_DEK (ex_notes_namespace\<lparr>ns_UpdatedAt := 1\<rparr>) = ex_dek"
  "ns_NamespaceID (ex_notes_namespace\<lparr>ns_UpdatedAt := 1\<rparr>) = ''ns''"
  by (simp_all add: ex_notes_namespace_def new_namespace_def)

lemma ex_notes_scope:
  assumes "st_collections s = st_collections ex_notes_state"
  shows "wp (loadActiveScope ex_env (ex_notes_namespace\<lparr>ns_UpdatedAt := 1\<rparr>))
    (\<lambda>scope t. t = s \<and> as_scopedCollections scope = {''notes''} \<and> as_activeItemIDs scope = {ex_itemID})
    (\<lambda>_ _. False) s"
proof -
  have "env_crypto ex_env = inj_crypto" by (simp add: ex_env_def)
  with ex_itemID show ?thesis
    by (simp add: loadActiveScope_def collectionRegistrations_def addActiveKey_def wp assms ex_notes_cols
        ex_notes_dek Let_def ex_notes_def ex_world_runs uniqueSortedStrings_def empty_scope_def)
qed

lemma ex_emits: "(\<And>t. Q () t) \<Longrightarrow> wp (emitItem ex_env i ty) Q X s"
  by (simp add: emitItem_def emit_def wp ex_world_runs)

lemma ex_notes_queued:
  "wp (reconcileSnapshotValue ex_env ex_notes ''a'' ex_itemID val) (\<lambda>_ _. True) (\<lambda>_ _. False) ex_notes_state"
proof -
  let ?new = "new_item (env_keyID ex_env) ''ns'' ''notes'' ''a'' ex_itemID"
  obtain save where save: "\<And>now now'. SaveItem now (markItemDirty now' ?new) (st_db ex_notes_state) =
      (Inr (), save now now')"
    using ex_notes_saved by metis
  have "(if it_ItemID ?new = [] then ?new\<lparr>it_ItemID := ex_itemID\<rparr> else ?new) = ?new"
    by (simp add: new_item_def)
  moreover have "rc_namespaceID ex_notes = ''ns''" "rc_name ex_notes = ''notes''"
    by (simp_all add: ex_notes_def)
  ultimately show ?thesis
    by (simp add: reconcileSnapshotValue_def store_SaveItem_def wp ex_world_runs ex_notes_fresh save Let_def)
qed

lemma ex_notes_key:
  "wp (snapshotKey ex_env (ex_notes_namespace\<lparr>ns_UpdatedAt := 1\<rparr>) ex_notes [(''a'', ''mine'')] [] ''a'')
     (\<lambda>_ _. True) (\<lambda>_ _. False) ex_notes_state"
proof -
  let ?n = "ex_notes_namespace\<lparr>ns_UpdatedAt := 1\<rparr>"
  have "env_crypto ex_env = inj_crypto" by (simp add: ex_env_def)
  with ex_itemID have id: "ItemID (env_crypto ex_env) (ns_DEK ?n)
      (composeLogicalKey (rc_name ex_notes) ''a'') = Inr ex_itemID"
    by (simp add: ex_notes_dek ex_notes_def)
  have active: "itemActive scope (new_item [] (rc_namespaceID ex_notes) (rc_name ex_notes) ''a'' ex_itemID)"
    if "as_scopedCollections scope = {''notes''} \<and> as_activeItemIDs scope = {ex_itemID}" for scope
    using that by (simp add: itemActive_def new_item_def ex_notes_def)
  have queue: "wp (bindM (reconcileSnapshotValue ex_env ex_notes ''a'' ex_itemID val) (\<lambda>queued.
      seqM (case queued of None \<Rightarrow> ret () | Some item \<Rightarrow> emitItem ex_env item EventItemQueued)
      (ret cache))) (\<lambda>_ _. True) (\<lambda>_ _. False) ex_notes_state" for val cache
    unfolding wp_bindM
    by (rule wp_mono [OF ex_notes_queued])
      (auto simp: wp_seqM wp_ret intro!: ex_emits split: option.split)
  show ?thesis
    unfolding snapshotKey_def id wp_bindM [where m = "lift_result _"] wp_lift_result sum.case
      map_of.simps option.case wp_bindM [where m = "bindM _ _"] wp_bindM [where m = "loadActiveScope _ _"]
      wp_ret prod.case
    by (rule wp_mono [OF ex_notes_scope [OF refl]], erule conjE, hypsubst, subst if_not_P,
        simp only: active not_not simp_thms, rule queue) simp
qed

lemma ex_notes_run: "\<exists>t. reconcileLocalSnapshots ex_env ex_notes_state = (Inr (), t)"
proof -
  let ?s = ex_notes_state and ?n = "ex_notes_namespace\<lparr>ns_UpdatedAt := 1\<rparr>"
  have ns: "GetNamespace (env_keyID ex_env) ''ns'' (st_db ?s) = (Inr ?n, st_db ?s)"
    using ex_notes_db(2) by (simp add: GetNamespace_def)
  have ready: "wp (ensureNamespaceReady ex_env ''ns'' []) Q X ?s = Q ?n ?s" for Q X
    by (simp add: ensureNamespaceReady_def getNamespaceState_def wp ex_world_runs ns Let_def ex_notes_dek ex_dek_def)
  have "rc_namespaceID ex_notes = ''ns''" "rc_snapshot ex_notes = (\<lambda>w. (Inr [(''a'', ''mine'')], w))"
    by (simp_all add: ex_notes_def)
  then have "wp (reconcileLocalSnapshots ex_env) (\<lambda>_ _. True) (\<lambda>_ _. False) ?s"
    by (simp add: reconcileLocalSnapshots_def registeredCollections_def wp ex_notes_cols ready
        ex_world_runs) (rule wp_mono [OF ex_notes_key], simp_all add: wp)
  then show ?thesis by (auto simp: wp_def split: prod.splits sum.splits)
qed


section \<open>Resolving a conflict\<close>

context synced_collection
begin

text \<open>The decision is made on the stored item; what it decides is saved.\<close>

lemma wp_resolveConflict:
  fixes s :: "'w st"
  assumes wf: "db_wf (st_db s)" and item: "item_of (st_db s) (item_key item) = Some item"
    and own: "it_KeyID item = env_keyID E" and conflict: "it_Conflict item"
    and decided: "\<And>u. idle bview s u \<Longrightarrow> wp (decide item) (\<lambda>f v. P \<and> st_db v = st_db s \<and>
        bview (st_world v) = (bview (st_world s))(it_Key item := val) \<and>
        (\<forall>now. savable (st_db s) (f now) \<and> item_key (f now) = item_key item \<and>
          (\<forall>time. (f now)\<lparr>it_UpdatedAt := time\<rparr> = new\<lparr>it_UpdatedAt := time\<rparr>))) X u"
  shows "wp (resolveConflict E (it_NamespaceID item) (it_Collection item) (it_Key item) decide)
    (\<lambda>_ t. P \<and> committed bview s item (new, val) t) X s"
proof -
  have "item_for (st_db s) (env_keyID E, it_NamespaceID item, it_Collection item, it_Key item) = Some item"
    using item own by (simp add: item_for_Some [OF wf] logical_key_def)
  then have found: "GetItemByLogicalKey (env_keyID E) (it_NamespaceID item) (it_Collection item)
      (it_Key item) (st_db s) = (Inr item, st_db s)"
    using store_reads_only(5) [of "env_keyID E" "it_NamespaceID item" "it_Collection item"
        "it_Key item" "st_db s"]
    by (cases "GetItemByLogicalKey (env_keyID E) (it_NamespaceID item) (it_Collection item)
      (it_Key item) (st_db s)") (auto simp: item_for_def split: sum.splits)
  have save: "wp (bindM (time_now E) (\<lambda>now. store_SaveItem E (f now)))
      (\<lambda>_ t. P \<and> committed bview s item (new, val) t) X v"
    if P and v: "st_db v = st_db s" "bview (st_world v) = (bview (st_world s))(it_Key item := val)"
      and f: "\<And>now. savable (st_db s) (f now)" "\<And>now. item_key (f now) = item_key item"
        "\<And>now time. (f now)\<lparr>it_UpdatedAt := time\<rparr> = new\<lparr>it_UpdatedAt := time\<rparr>"
    for f and v :: "'w st"
    unfolding wp_bindM
  proof (rule wp_time, rule wp_save)
    fix now u t
    assume u: "idle bview v u"
    with v f(1) show "savable (st_db u) (f now)" by (simp add: idle_def)
    assume "saved bview u (f now) t"
    then have "committed bview s item (new, val) t"
      by (rule committed_saved) (use u v f in \<open>simp_all add: idle_def\<close>)
    with \<open>P\<close> show "P \<and> committed bview s item (new, val) t" by simp
  qed
  show ?thesis
    unfolding resolveConflict_def wp_bindM [where m = "stored _ _"]
  proof (rule wp_store)
    fix t :: "'w st"
    assume t: "idle bview s t"
    then have t': "t\<lparr>st_db := st_db s\<rparr> = t" by (simp add: idle_def)
    have "wp (bindM (decide item) (\<lambda>resolved. bindM (time_now E) (\<lambda>now. store_SaveItem E (resolved now))))
        (\<lambda>_ t. P \<and> committed bview s item (new, val) t) X t"
      unfolding wp_bindM [where m = "decide item"]
      by (rule wp_mono [OF decided [OF t]], elim conjE, rule save, assumption+) simp_all
    with conflict t' show "case GetItemByLogicalKey (env_keyID E) (it_NamespaceID item)
          (it_Collection item) (it_Key item) (st_db s) of (r, d) \<Rightarrow>
        (case r of
           Inl e \<Rightarrow> X e (t\<lparr>st_db := d\<rparr>)
         | Inr x \<Rightarrow> wp (if \<not> it_Conflict x then ret ()
             else bindM (decide x) (\<lambda>resolved. bindM (time_now E) (\<lambda>now. store_SaveItem E (resolved now))))
             (\<lambda>_ t. P \<and> committed bview s item (new, val) t) X (t\<lparr>st_db := d\<rparr>))"
      by (simp only: found prod.case sum.case not_True_eq_False if_False)
  qed
qed

end

text \<open>The item of a resolved conflict that is to be uploaded.\<close>

definition item_pending :: "ItemState \<Rightarrow> ItemState" where
  "item_pending item =
     item\<lparr>it_Dirty := True, it_Conflict := False, it_ConflictRemoteVersion := 0,
       it_ConflictRemoteValue := []\<rparr>"

lemma pending_marks:
  assumes "savable d item"
  shows "savable d (markItemDirty now (clearItemConflict item))"
    and "item_key (markItemDirty now (clearItemConflict item)) = item_key item"
    and "(markItemDirty now (clearItemConflict item))\<lparr>it_UpdatedAt := time\<rparr> =
      (item_pending item)\<lparr>it_UpdatedAt := time\<rparr>"
  using assms
  by (simp_all add: savable_def item_storable_def mark_defs logical_key_def item_key_def
      item_pending_def storable_def)

lemma run_wp:
  assumes "wp m Q X s"
  shows "case m s of (Inl e, t) \<Rightarrow> X e t | (Inr x, t) \<Rightarrow> Q x t"
  using assms by (auto simp: wp_def split: prod.splits sum.splits)

lemma remote_marks:
  assumes "savable d item"
  shows "savable d (markItemClean now item (it_ConflictRemoteVersion item) r)"
proof (rule savable_marks(1) [OF assms _ same_item_marks(1)])
  show "storable (it_ConflictRemoteVersion item)"
    using assms by (simp add: savable_def item_storable_def)
qed

context typed_collection
begin

lemma wp_set:
  assumes "idle (byte_view codec view) s u" and "cd_Decode codec b = Inr x"
  shows "wp (outside (vb_Set backend k x))
    (\<lambda>_ v. st_db v = st_db s \<and> byte_view codec view (st_world v) =
      (byte_view codec view (st_world s))(k := Some b)) (\<lambda>_ _. True) u"
proof -
  note byte_view_upd [OF set_view [of k x "st_world u"] assms(2)]
  with assms(1) show ?thesis by (auto simp: wp idle_def split: prod.splits sum.splits)
qed

lemma wp_resolutions:
  assumes wf: "db_wf (st_db s)" and item: "item_of (st_db s) (item_key item) = Some item"
    and own: "it_KeyID item = env_keyID E" and conflict: "it_Conflict item"
  defines "ns \<equiv> it_NamespaceID item" and "c \<equiv> it_Collection item" and "k \<equiv> it_Key item"
    and "bview \<equiv> byte_view codec view"
  shows "wp (ResolveConflictWithValue E ns c backend k val)
      (\<lambda>_ t. \<exists>b. cd_Encode codec val = Inr b \<and> committed bview s item (item_pending item, Some b) t)
      (\<lambda>_ _. True) s"
    and "wp (ResolveConflictPreferLocal E ns c backend k)
      (\<lambda>_ t. \<exists>b. bview (st_world s) k = Some b \<and> committed bview s item (item_pending item, Some b) t)
      (\<lambda>e t. bview (st_world s) k = None \<and> e = Sentinel ErrNotFound \<and> unchanged bview s t) s"
    and "wp (ResolveConflictPreferRemote E ns c codec backend k)
      (\<lambda>_ t. committed bview s item (item_at item (it_ConflictRemoteVersion item)
          (it_ConflictRemoteValue item) False, Some (it_ConflictRemoteValue item)) t)
      (\<lambda>_ _. True) s"
proof -
  have sav: "savable (st_db s) item" using wf item by (rule stored_savable)
  note resolve = registered.wp_resolveConflict [OF wf item own conflict]
  note marks = pending_marks [OF sav] remote_marks [OF sav] same_item_outcomes [OF same_item_marks(1)]
  obtain b where b: "cd_Encode codec val = Inr b" using total by blast
  show "wp (ResolveConflictWithValue E ns c backend k val)
      (\<lambda>_ t. \<exists>b. cd_Encode codec val = Inr b \<and> committed bview s item (item_pending item, Some b) t)
      (\<lambda>_ _. True) s"
    unfolding ResolveConflictWithValue_def ns_def c_def k_def bview_def b
  proof (rule wp_mono [OF resolve [where P = True]])
    fix u :: "'w st"
    assume "idle (byte_view codec view) s u"
    from wp_set [OF this decode_encode [OF b], of "it_Key item"]
    show "wp (seqM (outside (vb_Set backend (it_Key item) val))
          (ret (\<lambda>now. markItemDirty now (clearItemConflict item))))
        (\<lambda>f v. True \<and> st_db v = st_db s \<and> byte_view codec view (st_world v) =
            (byte_view codec view (st_world s))(it_Key item := Some b) \<and>
          (\<forall>now. savable (st_db s) (f now) \<and> item_key (f now) = item_key item \<and>
            (\<forall>time. (f now)\<lparr>it_UpdatedAt := time\<rparr> = (item_pending item)\<lparr>it_UpdatedAt := time\<rparr>)))
        (\<lambda>_ _. True) u"
      unfolding wp_seqM wp_ret by (rule wp_mono) (simp_all add: marks)
  qed simp_all
  show "wp (ResolveConflictPreferLocal E ns c backend k)
      (\<lambda>_ t. \<exists>b. bview (st_world s) k = Some b \<and> committed bview s item (item_pending item, Some b) t)
      (\<lambda>e t. bview (st_world s) k = None \<and> e = Sentinel ErrNotFound \<and> unchanged bview s t) s"
    unfolding ResolveConflictPreferLocal_def ns_def c_def k_def bview_def
  proof (rule wp_mono [OF resolve [where
        P = "\<exists>b. byte_view codec view (st_world s) (it_Key item) = Some b" and
        val = "byte_view codec view (st_world s) (it_Key item)" and new = "item_pending item"]])
    fix u :: "'w st"
    assume u: "idle (byte_view codec view) s u"
    show "wp (bindM (outside (vb_Get backend (it_Key item))) (\<lambda>_.
          ret (\<lambda>now. markItemDirty now (clearItemConflict item))))
        (\<lambda>f v. (\<exists>b. byte_view codec view (st_world s) (it_Key item) = Some b) \<and>
          st_db v = st_db s \<and> byte_view codec view (st_world v) =
            (byte_view codec view (st_world s))
              (it_Key item := byte_view codec view (st_world s) (it_Key item)) \<and>
          (\<forall>now. savable (st_db s) (f now) \<and> item_key (f now) = item_key item \<and>
            (\<forall>time. (f now)\<lparr>it_UpdatedAt := time\<rparr> = (item_pending item)\<lparr>it_UpdatedAt := time\<rparr>)))
        (\<lambda>e t. byte_view codec view (st_world s) (it_Key item) = None \<and>
          e = Sentinel ErrNotFound \<and> unchanged (byte_view codec view) s t) u"
    proof (cases "view (st_world u) (it_Key item)")
      case None
      with byte_view_at(1) [OF this] u show ?thesis by (simp add: wp get idle_def unchanged_def)
    next
      case (Some x)
      with byte_view_at(2) [OF this] u show ?thesis by (auto simp: wp get idle_def marks)
    qed
  qed auto
  show "wp (ResolveConflictPreferRemote E ns c codec backend k)
      (\<lambda>_ t. committed bview s item (item_at item (it_ConflictRemoteVersion item)
          (it_ConflictRemoteValue item) False, Some (it_ConflictRemoteValue item)) t)
      (\<lambda>_ _. True) s"
    unfolding ResolveConflictPreferRemote_def ns_def c_def k_def bview_def
  proof (rule wp_mono [OF resolve [where P = True]])
    fix u :: "'w st"
    assume u: "idle (byte_view codec view) s u"
    have "wp (seqM (outside (vb_Set backend (it_Key item) v))
          (ret (\<lambda>now. markItemClean now item (it_ConflictRemoteVersion item)
             (it_ConflictRemoteValue item))))
        (\<lambda>f v. True \<and> st_db v = st_db s \<and> byte_view codec view (st_world v) =
            (byte_view codec view (st_world s))(it_Key item := Some (it_ConflictRemoteValue item)) \<and>
          (\<forall>now. savable (st_db s) (f now) \<and> item_key (f now) = item_key item \<and>
            (\<forall>time. (f now)\<lparr>it_UpdatedAt := time\<rparr> = (item_at item (it_ConflictRemoteVersion item)
              (it_ConflictRemoteValue item) False)\<lparr>it_UpdatedAt := time\<rparr>)))
        (\<lambda>_ _. True) u" if "cd_Decode codec (it_ConflictRemoteValue item) = Inr v" for v
      unfolding wp_seqM wp_ret
      by (rule wp_mono [OF wp_set [OF u that]]) (simp_all add: marks)
    then show "wp (bindM (lift_result (cd_Decode codec (it_ConflictRemoteValue item))) (\<lambda>val.
       seqM (outside (vb_Set backend (it_Key item) val))
       (ret (\<lambda>now. markItemClean now item (it_ConflictRemoteVersion item)
          (it_ConflictRemoteValue item)))))
        (\<lambda>f v. True \<and> st_db v = st_db s \<and> byte_view codec view (st_world v) =
            (byte_view codec view (st_world s))(it_Key item := Some (it_ConflictRemoteValue item)) \<and>
          (\<forall>now. savable (st_db s) (f now) \<and> item_key (f now) = item_key item \<and>
            (\<forall>time. (f now)\<lparr>it_UpdatedAt := time\<rparr> = (item_at item (it_ConflictRemoteVersion item)
              (it_ConflictRemoteValue item) False)\<lparr>it_UpdatedAt := time\<rparr>)))
        (\<lambda>_ _. True) u"
      unfolding wp_bindM wp_lift_result by (cases "cd_Decode codec (it_ConflictRemoteValue item)") simp_all
  qed simp_all
qed

end

lemma managed_item_typed:
  assumes "managed_item E codec merge backend view s item"
  obtains setif where "typed_collection backend setif view codec E"
  using assms by (auto simp: managed_item_def typed_collection_def typed_collection_axioms_def)

text \<open>C8: The application resolves a recorded conflict in one of three ways. With a value of its
  own, that value is in place and the item is dirty on top of the remote version. Preferring the
  local value keeps it, if there is one, and marks the item the same way. Preferring the remote
  value puts the recorded remote value in place and leaves the item clean at its version. In each
  case the conflict is gone and no other item or value changes.\<close>

theorem conflict_resolved:
  fixes E :: "'w env" and codec :: "'t Codec"
  assumes managed: "managed_item E codec merge backend view s item"
    and own: "it_KeyID item = env_keyID E" and conflict: "it_Conflict item"
  shows "(ResolveConflictWithValue E (it_NamespaceID item) (it_Collection item) backend
        (it_Key item) val s = (Inr (), t) \<longrightarrow>
      (\<exists>b. cd_Encode codec val = Inr b \<and>
        committed (byte_view codec view) s item (item_pending item, Some b) t))
    \<and> (case ResolveConflictPreferLocal E (it_NamespaceID item) (it_Collection item) backend
        (it_Key item) s of
         (Inl e, t) \<Rightarrow> byte_view codec view (st_world s) (it_Key item) = None \<and>
           e = Sentinel ErrNotFound \<and> unchanged (byte_view codec view) s t
       | (Inr _, t) \<Rightarrow> \<exists>b. byte_view codec view (st_world s) (it_Key item) = Some b \<and>
           committed (byte_view codec view) s item (item_pending item, Some b) t)
    \<and> (ResolveConflictPreferRemote E (it_NamespaceID item) (it_Collection item) codec backend
        (it_Key item) s = (Inr (), t) \<longrightarrow>
      committed (byte_view codec view) s item
        (item_at item (it_ConflictRemoteVersion item) (it_ConflictRemoteValue item) False,
         Some (it_ConflictRemoteValue item)) t)"
proof -
  obtain setif where tc: "typed_collection backend setif view codec E"
    using managed by (rule managed_item_typed)
  have "db_wf (st_db s)" "item_of (st_db s) (item_key item) = Some item"
    using managed by (simp_all add: managed_item_def)
  note runs = typed_collection.wp_resolutions [OF tc this own conflict]
  show ?thesis
  proof (intro conjI impI)
    assume "ResolveConflictWithValue E (it_NamespaceID item) (it_Collection item) backend
        (it_Key item) val s = (Inr (), t)"
    with wpD_Inr [OF runs(1) this] show "\<exists>b. cd_Encode codec val = Inr b \<and>
        committed (byte_view codec view) s item (item_pending item, Some b) t" by blast
  next
    assume "ResolveConflictPreferRemote E (it_NamespaceID item) (it_Collection item) codec backend
        (it_Key item) s = (Inr (), t)"
    then show "committed (byte_view codec view) s item
        (item_at item (it_ConflictRemoteVersion item) (it_ConflictRemoteValue item) False,
         Some (it_ConflictRemoteValue item)) t"
      by (rule wpD_Inr [OF runs(3)])
  qed (use run_wp [OF runs(2)] in \<open>auto split: prod.splits sum.splits\<close>)
qed

definition ex_conflict_item :: ItemState where
  "ex_conflict_item = item_in_conflict ex_stored_item 4 ''theirs''"

definition ex_conflict_state :: "string memory st" where
  "ex_conflict_state = (ex_app_state [(''a'', ''mine'')])
     \<lparr>st_db := snd (SaveItem 9 ex_conflict_item ex_db)\<rparr>"

lemma ex_conflict_managed:
  "managed_item ex_app_env StringCodec NoMerge MemoryValueBackend map_of ex_conflict_state ex_conflict_item"
proof -
  have save: "SaveItem 9 ex_conflict_item ex_db = (Inr (), st_db ex_conflict_state)"
    by (simp add: ex_conflict_state_def SaveItem_def ex_db_def SaveIdentity_def empty_database_def
        item_to_row_def ex_conflict_item_def item_in_conflict_def ex_stored_item_def new_item_def
        sql_uint64_def)
  have "db_wf (st_db ex_conflict_state)"
    using db_wf_SaveItem [OF ex_db(1), of 9 ex_conflict_item] save by simp
  moreover have "item_of (st_db ex_conflict_state) (item_key ex_conflict_item) = Some ex_conflict_item"
    using SaveItem_item_of(1) [OF save]
    by (simp add: ex_conflict_item_def item_in_conflict_def ex_stored_item_def new_item_def
        sql_now_def time_is_zero_def)
  moreover have "it_NamespaceID ex_conflict_item = it_NamespaceID ex_stored_item"
    "it_Collection ex_conflict_item = it_Collection ex_stored_item"
    by (simp_all add: ex_conflict_item_def item_in_conflict_def)
  ultimately show ?thesis
    using ex_managed [of "[(''a'', ''mine'')]"] by (auto simp: managed_item_def ex_conflict_state_def)
qed

theorem conflict_resolved_witness:
  "\<exists>t i. ResolveConflictPreferLocal ex_app_env ''ns'' ''notes'' MemoryValueBackend ''a''
       ex_conflict_state = (Inr (), t) \<and>
     item_of (st_db t) (item_key ex_conflict_item) = Some i \<and> it_Dirty i \<and> \<not> it_Conflict i \<and>
     it_Version i = 4"
proof -
  have item: "it_NamespaceID ex_conflict_item = ''ns''" "it_Collection ex_conflict_item = ''notes''"
    "it_Key ex_conflict_item = ''a''" "it_KeyID ex_conflict_item = env_keyID ex_app_env"
    "it_Conflict ex_conflict_item" "it_Version ex_conflict_item = 4"
    by (simp_all add: ex_conflict_item_def item_in_conflict_def ex_stored_item_def new_item_def
        env_keyID_def ex_app_env_def ex_env_def)
  have "byte_view StringCodec map_of (st_world ex_conflict_state) ''a'' = Some ''mine''"
    by (simp add: ex_conflict_state_def ex_app_state_def byte_view_def StringCodec_def codecFunc_def)
  moreover note conflict_resolved [OF ex_conflict_managed item(4,5), THEN conjunct2, THEN conjunct1]
  ultimately show ?thesis
    by (cases "ResolveConflictPreferLocal ex_app_env ''ns'' ''notes'' MemoryValueBackend ''a''
        ex_conflict_state") (auto simp: item committed_def item_pending_def split: sum.splits)
qed

end
