(* ===== verification/Flush_Spec.thy ===== *)
theory Flush_Spec
  imports Snapshot_Spec Upload_Spec
begin

text \<open>
  The loop of \<open>flushDirtyItems\<close> over the whole queue: under a server that accepts the upload of
  every queued item, the loop succeeds, sends one write per item in the order of the queue and
  leaves every item clean at its next version (\<open>drained\<close>).
\<close>

section \<open>Queued items that can be uploaded\<close>

text \<open>
  A queued item of a namespace with state \<open>n\<close> that a flush uploads: its collection is registered
  and lists its key, its ID is the one derived from its key, it is in no conflict, it has a
  value of admissible size, and the server accepts its upload.
\<close>

definition uploadable ::
  "'w env \<Rightarrow> ('w \<Rightarrow> string \<Rightarrow> bytes option) \<Rightarrow> (bytes \<Rightarrow> bool) \<Rightarrow> string \<Rightarrow> NamespaceState \<Rightarrow>
   'w st \<Rightarrow> ItemState \<Rightarrow> bool" where
  "uploadable E bview valid tok n s item \<longleftrightarrow>
     (\<exists>c. synced_collection E c bview valid \<and> lists_view c bview \<and>
        map_of (st_collections s) (collectionRegistryKey (it_NamespaceID item) (it_Collection item)) =
          Some c \<and>
        rc_namespaceID c = it_NamespaceID item \<and> rc_name c = it_Collection item) \<and>
     ItemID (env_crypto E) (ns_DEK n) (composeLogicalKey (it_Collection item) (it_Key item)) =
       Inr (it_ItemID item) \<and>
     it_KeyID item = env_keyID E \<and> it_NamespaceID item = ns_NamespaceID n \<and>
     it_Dirty item \<and> \<not> it_Conflict item \<and>
     (\<exists>val. bview (st_world s) (it_Key item) = Some val \<and>
        length val \<le> MaxItemCiphertextSize - aead_overhead) \<and>
     accepts_upload E bview tok n item \<and> encryptable E n item \<and> storable (upload_target item)"

lemma upload_put_DEK:
  "ns_DEK n' = ns_DEK n \<Longrightarrow> upload_put E tok n' item val r = upload_put E tok n item val r"
  by (simp only: upload_put_def)

lemma accepts_upload_DEK:
  "ns_DEK n' = ns_DEK n \<Longrightarrow> accepts_upload E view tok n' item = accepts_upload E view tok n item"
  unfolding accepts_upload_def upload_put_def by simp

lemma encryptable_DEK: "ns_DEK n' = ns_DEK n \<Longrightarrow> encryptable E n' item = encryptable E n item"
  by (simp add: encryptable_def)

section \<open>The loop\<close>

definition upload_value :: "('w \<Rightarrow> string \<Rightarrow> bytes option) \<Rightarrow> 'w st \<Rightarrow> ItemState \<Rightarrow> bytes" where
  "upload_value bview s item = the (bview (st_world s) (it_Key item))"

definition drained ::
  "'w env \<Rightarrow> ('w \<Rightarrow> string \<Rightarrow> bytes option) \<Rightarrow> string \<Rightarrow> NamespaceState \<Rightarrow> ItemState list \<Rightarrow>
   'w st \<Rightarrow> 'w st \<Rightarrow> bool" where
  "drained E bview tok n xs s t \<longleftrightarrow>
     bview (st_world t) = bview (st_world s) \<and> db_wf (st_db t) \<and>
     (\<exists>puts. st_requests t = st_requests s @ puts \<and>
        list_all2 (\<lambda>item put. upload_put E tok n item (upload_value bview s item) put) xs puts) \<and>
     (\<forall>k. k \<notin> item_key ` set xs \<longrightarrow> item_of (st_db t) k = item_of (st_db s) k) \<and>
     (\<forall>item \<in> set xs. \<exists>now. item_of (st_db t) (item_key item) =
        Some ((item_at item (upload_target item) (upload_value bview s item) False)\<lparr>it_UpdatedAt := now\<rparr>))"

lemma drained_Nil: "db_wf (st_db s) \<Longrightarrow> drained E bview tok n [] s s"
  by (simp add: drained_def)

lemma drained_Cons:
  assumes "ns_DEK n' = ns_DEK n"
    and first: "bview (st_world t) = bview (st_world s)" "upload_put E tok n' x (upload_value bview s x) put"
      "st_requests t = st_requests s @ [put]"
      "item_of (st_db t) = (item_of (st_db s))(item_key x \<mapsto>
         (item_at x (upload_target x) (upload_value bview s x) False)\<lparr>it_UpdatedAt := now\<rparr>)"
    and rest: "drained E bview tok n xs t u"
    and fresh: "item_key x \<notin> item_key ` set xs"
  shows "drained E bview tok n (x # xs) s u"
proof -
  have same: "upload_value bview t = upload_value bview s"
    by (simp add: upload_value_def first(1) fun_eq_iff)
  obtain puts where puts: "st_requests u = st_requests t @ puts"
    "list_all2 (\<lambda>item put. upload_put E tok n item (upload_value bview s item) put) xs puts"
    using rest by (auto simp: drained_def same)
  have "item_of (st_db u) (item_key x) = item_of (st_db t) (item_key x)"
    using rest fresh unfolding drained_def by blast
  then have "\<exists>now. item_of (st_db u) (item_key x) =
      Some ((item_at x (upload_target x) (upload_value bview s x) False)\<lparr>it_UpdatedAt := now\<rparr>)"
    by (simp add: first(4)) blast
  moreover have "st_requests u = st_requests s @ put # puts"
    using puts(1) first(3) by simp
  moreover have "upload_put E tok n x (upload_value bview s x) put"
    using first(2) by (simp add: upload_put_DEK [OF assms(1)])
  moreover have "item_of (st_db u) k = item_of (st_db s) k"
    if "k \<noteq> item_key x" "k \<notin> item_key ` set xs" for k
    using rest that first(4) unfolding drained_def by (metis fun_upd_other)
  moreover have "bview (st_world u) = bview (st_world s)" "db_wf (st_db u)"
    "\<forall>item \<in> set xs. \<exists>now. item_of (st_db u) (item_key item) =
        Some ((item_at item (upload_target item) (upload_value bview s item) False)\<lparr>it_UpdatedAt := now\<rparr>)"
    using rest first(1) unfolding drained_def same by simp_all
  ultimately show ?thesis
    using puts(2) unfolding drained_def
    by (intro conjI exI [of _ "put # puts"] allI impI) (simp_all only: list.simps insert_iff image_insert
      list_all2_Cons ball_simps de_Morgan_disj simp_thms)
qed

lemma uploadable_idle:
  "st_collections t = st_collections s \<Longrightarrow> bview (st_world t) = bview (st_world s) \<Longrightarrow>
     uploadable E bview valid tok n t item = uploadable E bview valid tok n s item"
  by (simp add: uploadable_def)

lemma flush_loop:
  assumes "\<forall>item \<in> set xs. uploadable E bview valid tok n s item \<and> itemActive scope item \<and>
      item_of (st_db s) (item_key item) = Some item"
    and "distinct (map item_key xs)" and "db_wf (st_db s)"
    and "ns_DEK n' = ns_DEK n" and "uint (ns_NamespaceHead n') + int (length xs) < 2 ^ 63"
  shows "wp (foldM (flushDirtyItem E tok) ([(ns_NamespaceID n, n')], [(ns_NamespaceID n, scope)]) xs)
    (\<lambda>_. drained E bview tok n xs s) (\<lambda>_ _. False) s"
  using assms
proof (induction xs arbitrary: s n')
  case Nil
  then show ?case by (simp add: wp drained_Nil)
next
  case (Cons x xs)
  let ?start = "([(ns_NamespaceID n, n')], [(ns_NamespaceID n, scope)])"
  have x: "uploadable E bview valid tok n s x" "itemActive scope x"
    "item_of (st_db s) (item_key x) = Some x" using Cons.prems(1) by simp_all
  obtain c where c: "synced_collection E c bview valid"
    and reg: "map_of (st_collections s) (collectionRegistryKey (it_NamespaceID x) (it_Collection x)) = Some c"
    using x(1) by (auto simp: uploadable_def)
  obtain val where val: "bview (st_world s) (it_Key x) = Some val"
    "length val \<le> MaxItemCiphertextSize - aead_overhead" using x(1) by (auto simp: uploadable_def)
  have head: "uint (ns_NamespaceHead n' + 1) = uint (ns_NamespaceHead n') + 1"
  proof -
    have "uint (ns_NamespaceHead n' + 1) = (uint (ns_NamespaceHead n') + 1) mod 2 ^ 64"
      by (simp add: uint_word_ariths)
    also have "\<dots> = uint (ns_NamespaceHead n') + 1"
      using Cons.prems(5) by (intro mod_pos_pos_trivial) auto
    finally show ?thesis .
  qed
  have flush: "wp (flushItem E tok scope n' x) (synced_collection.uploaded E bview tok n' x val s)
      (\<lambda>_ _. False) s"
  proof (rule synced_collection.flush_accepted [OF c reg Cons.prems(3) x(3) _ _ _ val])
    have *: "it_KeyID x = env_keyID E" "accepts_upload E bview tok n x" "encryptable E n x"
      "storable (upload_target x)" "it_Dirty x" "\<not> it_Conflict x"
      using x(1) by (simp_all add: uploadable_def)
    show "item_key x = (env_keyID E, it_NamespaceID x, it_ItemID x)" by (simp add: item_key_def *(1))
    show "storable (upload_target x)" by (rule *(4))
    show "storable (ns_NamespaceHead n' + 1)" using Cons.prems(5) head by (simp add: storable_def)
    show "accepts_upload E bview tok n' x" using *(2) accepts_upload_DEK [OF Cons.prems(4)] by blast
    show "encryptable E n' x" using *(3) encryptable_DEK [OF Cons.prems(4)] by blast
    show "upload_allowed scope x" using *(5,6) x(2) by (simp add: upload_allowed_def)
  qed
  have step: "wp (flushDirtyItem E tok ?start x) Q (\<lambda>_ _. False) s"
    if "\<And>n'' t. synced_collection.uploaded E bview tok n' x val s n'' t \<Longrightarrow>
      Q ([(ns_NamespaceID n, n'')], [(ns_NamespaceID n, scope)]) t" for Q
  proof -
    have ns: "it_NamespaceID x = ns_NamespaceID n" using x(1) by (simp add: uploadable_def)
    have "wp (flushItem E tok scope n' x)
        (\<lambda>n''. wp (ret ([(ns_NamespaceID n, n'')], [(ns_NamespaceID n, scope)])) Q (\<lambda>_ _. False))
        (\<lambda>_ _. False) s"
      by (rule wp_mono [OF flush]) (simp_all add: that wp_ret)
    then show ?thesis
      by (simp add: flushDirtyItem_def ns x(2) wp_bindM wp_ret)
  qed
  show ?case
    unfolding foldM.simps wp_bindM
  proof (rule step)
    fix n'' t
    assume "synced_collection.uploaded E bview tok n' x val s n'' t"
    then obtain put now where n'': "ns_NamespaceHead n'' = ns_NamespaceHead n' + 1" "ns_DEK n'' = ns_DEK n'"
      and t: "st_collections t = st_collections s" "db_wf (st_db t)" "bview (st_world t) = bview (st_world s)"
      and put: "upload_put E tok n' x val put" "st_requests t = st_requests s @ [put]"
      and item: "item_of (st_db t) = (item_of (st_db s))(item_key x \<mapsto>
         (item_at x (upload_target x) val False)\<lparr>it_UpdatedAt := now\<rparr>)"
      using val(1)
      by (auto simp: synced_collection.uploaded_def [OF c] committed_def fun_upd_idem)
    have fresh: "item_key x \<notin> item_key ` set xs" using Cons.prems(2) by simp
    have current: "upload_value bview s x = val" by (simp add: upload_value_def val(1))
    have "wp (foldM (flushDirtyItem E tok) ([(ns_NamespaceID n, n'')], [(ns_NamespaceID n, scope)]) xs)
        (\<lambda>_. drained E bview tok n xs t) (\<lambda>_ _. False) t"
    proof (rule Cons.IH)
      show "\<forall>item \<in> set xs. uploadable E bview valid tok n t item \<and> itemActive scope item \<and>
          item_of (st_db t) (item_key item) = Some item"
      proof
        fix item assume i: "item \<in> set xs"
        have "item_key item \<noteq> item_key x" using fresh i by (metis image_eqI)
        then have same: "item_of (st_db t) (item_key item) = item_of (st_db s) (item_key item)"
          unfolding item by (rule fun_upd_other)
        show "uploadable E bview valid tok n t item \<and> itemActive scope item \<and>
            item_of (st_db t) (item_key item) = Some item"
          unfolding uploadable_idle [OF t(1,3)] same
          by (rule bspec [OF Cons.prems(1)]) (use i in simp)
      qed
      show "uint (ns_NamespaceHead n'') + int (length xs) < 2 ^ 63"
        using Cons.prems(5) head n''(1) by simp
    qed (use Cons.prems(2,4) t(2) n''(2) in simp_all)
    then show "wp (foldM (flushDirtyItem E tok) ([(ns_NamespaceID n, n'')], [(ns_NamespaceID n, scope)]) xs)
        (\<lambda>_. drained E bview tok n (x # xs) s) (\<lambda>_ _. False) t"
    proof (rule wp_mono)
      fix r u assume rest: "drained E bview tok n xs t u"
      show "drained E bview tok n (x # xs) s u"
        by (rule drained_Cons [where n' = n' and put = put, OF Cons.prems(4) t(3) _ put(2) _ rest fresh])
          (use put(1) item current in simp_all)
    qed simp
  qed
qed

section \<open>Before the loop\<close>

text \<open>Steps that change nothing but the world, and leave the view of it alone.\<close>

definition world_only :: "('w \<Rightarrow> string \<Rightarrow> bytes option) \<Rightarrow> 'w st \<Rightarrow> 'w st \<Rightarrow> bool" where
  "world_only bview s t \<longleftrightarrow> (\<exists>w. t = s\<lparr>st_world := w\<rparr> \<and> bview w = bview (st_world s))"

lemma world_only_refl: "world_only bview s s"
  by (auto simp: world_only_def intro!: exI [of _ "st_world s"])

lemma world_only_trans: "world_only bview s t \<Longrightarrow> world_only bview t u \<Longrightarrow> world_only bview s u"
  by (auto simp: world_only_def)

lemma world_onlyD:
  assumes "world_only bview s t"
  shows "st_db t = st_db s" "st_collections t = st_collections s" "st_requests t = st_requests s"
    "st_identity t = st_identity s" "bview (st_world t) = bview (st_world s)"
  using assms by (auto simp: world_only_def)

lemma stored_quiet:
  fixes E :: "'w env"
  assumes "undisturbed E bview" and "m (st_db s) = (r, st_db s)"
  shows "\<exists>t. stored E m s = (r, t) \<and> world_only bview s t"
proof -
  obtain w where "env_db_fault E (st_world s) = (None, w)" "bview w = bview (st_world s)"
    using assms(1) unfolding undisturbed_def by (metis prod.collapse)
  then show ?thesis
    using assms(2)
    by (auto simp: stored_def world_value_def bindM_def on_db_def world_only_def)
qed

lemma ensureNamespaceReady_quiet:
  fixes E :: "'w env"
  assumes "undisturbed E bview" and "fst (GetNamespace (env_keyID E) nid (st_db s)) = Inr n"
    and "ns_DEK n \<noteq> []"
  shows "\<exists>t. ensureNamespaceReady E nid [] s = (Inr n, t) \<and> world_only bview s t"
proof -
  have "GetNamespace (env_keyID E) nid (st_db s) = (Inr n, st_db s)"
    using assms(2) by (simp add: GetNamespace_def)
  from stored_quiet [OF assms(1), of "GetNamespace (env_keyID E) nid", OF this]
  obtain t where "stored E (GetNamespace (env_keyID E) nid) s = (Inr n, t)" "world_only bview s t"
    by blast
  then show ?thesis
    using assms(3)
    by (auto simp: ensureNamespaceReady_def getNamespaceState_def bindM_def attempt_def Let_def
        seqM_def guardM_def ret_def)
qed

lemma foldM_quiet:
  assumes "\<And>a x s. x \<in> set xs \<Longrightarrow> \<exists>b t. f a x s = (Inr b, t) \<and> world_only bview s t"
  shows "\<exists>b t. foldM f a xs s = (Inr b, t) \<and> world_only bview s t"
  using assms
proof (induction xs arbitrary: a s)
  case Nil
  then show ?case by (simp add: ret_def world_only_refl)
next
  case (Cons x xs)
  obtain b t where b: "f a x s = (Inr b, t)" "world_only bview s t"
    using Cons.prems [of x a s] by auto
  obtain c u where "foldM f b xs t = (Inr c, u)" "world_only bview t u"
    using Cons.IH [of b t] Cons.prems by auto
  with b show ?case by (auto simp: bindM_def intro: world_only_trans)
qed

definition announces_keys :: "'w registeredCollection \<Rightarrow> bool" where
  "announces_keys c \<longleftrightarrow> (\<forall>w. \<exists>keys w'. rc_keys c w = (Inr keys, w'))"

lemma addActiveKey_quiet:
  assumes "sha256_length (env_crypto E)" and "length (ns_DEK n) = NamespaceDEKLen"
  shows "\<exists>b t. addActiveKey E n name a y s = (Inr b, t) \<and> world_only bview s t"
  using assms
  by (auto simp: addActiveKey_def ItemID_def NamespaceMapKey_def ensureR_def length_hkdf bindM_def
      lift_result_def ret_def world_only_refl split: sum.split)

lemma loadActiveScope_quiet:
  assumes "sha256_length (env_crypto E)" and "length (ns_DEK n) = NamespaceDEKLen"
    and "\<forall>(k, c) \<in> set (st_collections s). reading_keeps c bview \<and> announces_keys c"
  shows "\<exists>scope t. loadActiveScope E n s = (Inr scope, t) \<and> world_only bview s t"
proof -
  have "\<exists>b t. scope_step E n a c s = (Inr b, t) \<and> world_only bview s t"
    if keeps: "reading_keeps c bview" and announces: "announces_keys c" for a c s
  proof -
    obtain keys w where keys: "rc_keys c (st_world s) = (Inr keys, w)"
      using announces unfolding announces_keys_def by blast
    then have "world_only bview s (s\<lparr>st_world := w\<rparr>)"
      using keeps unfolding world_only_def reading_keeps_def by (metis snd_conv)
    moreover obtain b t where "foldM (addActiveKey E n (rc_name c))
        (a\<lparr>as_scopedCollections := insert (rc_name c) (as_scopedCollections a)\<rparr>)
        (uniqueSortedStrings keys) (s\<lparr>st_world := w\<rparr>) = (Inr b, t)"
      "world_only bview (s\<lparr>st_world := w\<rparr>) t"
      using foldM_quiet [of _ "addActiveKey E n (rc_name c)" bview] addActiveKey_quiet [OF assms(1,2)]
      by metis
    ultimately show ?thesis
      using keys
      by (auto simp: scope_step_def Let_def bindM_def outside_def intro: world_only_trans)
  qed
  moreover have "reading_keeps c bview \<and> announces_keys c"
    if "c \<in> set (filter (\<lambda>c. rc_namespaceID c = ns_NamespaceID n) (map snd (sort_key fst (st_collections s))))" for c
    using that assms(3) by auto
  ultimately obtain b t where "foldM (scope_step E n) empty_scope
      (filter (\<lambda>c. rc_namespaceID c = ns_NamespaceID n) (map snd (sort_key fst (st_collections s)))) s = (Inr b, t)"
    "world_only bview s t"
    using foldM_quiet [of _ "scope_step E n" bview empty_scope s] by metis
  then show ?thesis
    by (auto simp: loadActiveScope_def collectionRegistrations_def reads_def bindM_def ret_def
        scope_step_def [abs_def])
qed

section \<open>The whole queue\<close>

lemma queue_distinct:
  assumes "db_wf d" and "ListDirtyItems k d = (Inr xs, d)"
  shows "distinct (map item_key xs)"
proof -
  let ?rows = "sort_key (\<lambda>r. (itr_updated_at r, itr_item_id r))
    (filter (\<lambda>r. itr_key_id r = k \<and> itr_dirty r = 1) (items d))"
  have "mapR scan_item ?rows = Inr xs" using assms(2) by (simp add: ListDirtyItems_def)
  then have "map item_key xs = map item_pk ?rows"
    by (rule mapR_map) (auto simp: scan_item_def item_key_def item_pk_def)
  moreover have "distinct (map item_pk (items d))"
    using assms(1) by (simp add: db_wf_def keys_distinct_def)
  ultimately show ?thesis by (simp add: distinct_map inj_on_def)
qed

lemma itemActive_covers:
  assumes "covers E (ns_DEK n) c (bview w) scope" and "rc_name c = it_Collection item"
    and "ItemID (env_crypto E) (ns_DEK n) (composeLogicalKey (it_Collection item) (it_Key item)) =
      Inr (it_ItemID item)"
    and "bview w (it_Key item) = Some val"
  shows "itemActive scope item"
  using assms by (auto simp: covers_def itemActive_def)

lemma flushDirtyItem_cached:
  assumes "ensureNamespaceReady E (it_NamespaceID x) [] s = (Inr n, s1)"
    and "loadActiveScope E n s1 = (Inr scope, t)"
  shows "flushDirtyItem E tok ([], []) x s =
    flushDirtyItem E tok ([(it_NamespaceID x, n)], [(it_NamespaceID x, scope)]) x t"
  using assms by (simp add: flushDirtyItem_def bindM_def ret_def)

lemma drained_world:
  assumes "world_only bview s t" and "drained E bview tok n xs t u"
  shows "drained E bview tok n xs s u"
proof -
  have "upload_value bview t = upload_value bview s"
    by (simp add: upload_value_def fun_eq_iff world_onlyD(5) [OF assms(1)])
  then show ?thesis
    using assms(2) unfolding drained_def world_onlyD [OF assms(1)] by simp
qed

lemma flush_drains:
  fixes E :: "'w env"
  assumes quiet: "undisturbed E bview" and wf: "db_wf (st_db s)"
    and registered: "\<forall>(k, c) \<in> set (st_collections s). reading_keeps c bview \<and> announces_keys c"
    and crypto: "sha256_length (env_crypto E)"
    and n: "fst (GetNamespace (env_keyID E) nid (st_db s)) = Inr n" "length (ns_DEK n) = NamespaceDEKLen"
    and queue: "ListDirtyItems (env_keyID E) (st_db s) = (Inr queue, st_db s)"
    and items: "\<forall>item \<in> set queue. uploadable E bview valid (id_AccessToken (st_identity s)) n s item"
    and head: "uint (ns_NamespaceHead n) + int (length queue) < 2 ^ 63"
  shows "\<exists>t. flushDirtyItems E s = (Inr (), t) \<and>
    drained E bview (id_AccessToken (st_identity s)) n (sort_key it_UpdatedAt queue) s t"
proof -
  let ?tok = "id_AccessToken (st_identity s)"
  let ?xs = "sort_key it_UpdatedAt queue"
  obtain s0 where s0: "stored E (ListDirtyItems (env_keyID E)) s = (Inr queue, s0)" "world_only bview s s0"
    using stored_quiet [OF quiet, of "ListDirtyItems (env_keyID E)", OF queue] by blast
  note s0_same = world_onlyD [OF s0(2)]
  have nid: "ns_NamespaceID n = nid" using GetNamespace_key [OF n(1)] by simp
  have dek: "ns_DEK n \<noteq> []" using n(2) by (auto simp: NamespaceDEKLen_def)
  obtain r t where loop: "foldM (flushDirtyItem E ?tok) ([], []) ?xs s0 = (r, t)" by fastforce
  have "(\<exists>x. r = Inr x) \<and> drained E bview ?tok n ?xs s t"
  proof (cases ?xs)
    case Nil
    then show ?thesis
      using loop drained_world [OF s0(2) drained_Nil] wf s0_same(1) by (auto simp: ret_def)
  next
    case (Cons x rest)
    then have "x \<in> set queue" by (metis list.set_intros(1) set_sort)
    then have x: "it_NamespaceID x = nid" using items nid by (simp add: uploadable_def)
    obtain s1 where s1: "ensureNamespaceReady E nid [] s0 = (Inr n, s1)" "world_only bview s0 s1"
      using ensureNamespaceReady_quiet [OF quiet, of nid s0 n] n(1) dek s0_same(1) by auto
    have "\<forall>(k, c) \<in> set (st_collections s1). reading_keeps c bview \<and> announces_keys c"
      using registered s0_same(2) world_onlyD(2) [OF s1(2)] by simp
    from loadActiveScope_quiet [OF crypto n(2) this]
    obtain scope s2 where s2: "loadActiveScope E n s1 = (Inr scope, s2)" "world_only bview s1 s2" by blast
    have w: "world_only bview s s2" using s0(2) s1(2) s2(2) by (blast intro: world_only_trans)
    note same = world_onlyD [OF w]
    have keep: "\<forall>(k, c) \<in> set (st_collections s1). reading_keeps c bview"
      using registered s0_same(2) world_onlyD(2) [OF s1(2)] by auto
    have active: "itemActive scope item" if queued: "item \<in> set queue" for item
    proof -
      obtain c val where c: "lists_view c bview" "map_of (st_collections s)
          (collectionRegistryKey (it_NamespaceID item) (it_Collection item)) = Some c"
        "rc_namespaceID c = it_NamespaceID item" "rc_name c = it_Collection item"
        and id: "ItemID (env_crypto E) (ns_DEK n) (composeLogicalKey (it_Collection item) (it_Key item)) =
          Inr (it_ItemID item)" "it_NamespaceID item = ns_NamespaceID n"
        and val: "bview (st_world s) (it_Key item) = Some val"
        using bspec [OF items queued] unfolding uploadable_def by blast
      have "covers E (ns_DEK n) c (bview (st_world s1)) scope"
        by (rule loadActiveScope_run(2) [OF s2(1) keep])
          (use c id(2) map_of_SomeD [OF c(2)] s0_same(2) world_onlyD(2) [OF s1(2)] in simp_all)
      then show ?thesis
        by (rule itemActive_covers [OF _ c(4) id(1)])
          (use val s0_same(5) world_onlyD(5) [OF s1(2)] in simp)
    qed
    have "foldM (flushDirtyItem E ?tok) ([], []) ?xs s0 =
        foldM (flushDirtyItem E ?tok) ([(ns_NamespaceID n, n)], [(ns_NamespaceID n, scope)]) ?xs s2"
      unfolding Cons foldM.simps nid
      using flushDirtyItem_cached [of E x s0 n s1 scope s2 ?tok] s1(1) s2(1) x
      by (simp add: bindM_def)
    moreover have "wp (foldM (flushDirtyItem E ?tok) ([(ns_NamespaceID n, n)], [(ns_NamespaceID n, scope)]) ?xs)
        (\<lambda>_. drained E bview ?tok n ?xs s2) (\<lambda>_ _. False) s2"
    proof (rule flush_loop)
      show "\<forall>item \<in> set ?xs. uploadable E bview valid ?tok n s2 item \<and> itemActive scope item \<and>
          item_of (st_db s2) (item_key item) = Some item"
      proof
        fix item assume i: "item \<in> set ?xs"
        then have q: "item \<in> set queue" by simp
        have "it_KeyID item = env_keyID E" using bspec [OF items q] by (simp add: uploadable_def)
        then have "item_of (st_db s) (item_key item) = Some item"
          using ListDirtyItems_exact [OF wf, of "env_keyID E"] queue q by (auto simp: item_key_def)
        then show "uploadable E bview valid ?tok n s2 item \<and> itemActive scope item \<and>
            item_of (st_db s2) (item_key item) = Some item"
          using bspec [OF items q] active [OF q] unfolding uploadable_idle [OF same(2,5)] same(1) by blast
      qed
      have "distinct (map item_key queue)" by (rule queue_distinct [OF wf queue])
      then show "distinct (map item_key ?xs)" by (simp add: distinct_map)
    qed (use wf same(1) head in simp_all)
    ultimately have "wp (\<lambda>_. (r, t)) (\<lambda>_. drained E bview ?tok n ?xs s2) (\<lambda>_ _. False) s2"
      using loop by (simp add: wp_def)
    then show ?thesis
      using drained_world [OF w] by (auto simp: wp_def split: sum.splits)
  qed
  then show ?thesis
    using s0(1) loop
    by (auto simp: flushDirtyItems_def identityStateSnapshot_def bindM_def reads_def ret_def)
qed

end
