(* ===== verification/Flush_Properties.thy ===== *)
theory Flush_Properties
  imports Flush_Spec Upload_Properties
begin

text \<open>
  The queue of local changes drains: what one call of \<open>flushDirtyItems\<close> achieves when the server
  accepts the uploads.
\<close>

section \<open>Draining the queue\<close>

text \<open>
  When a flush can upload everything: the key of the namespace is stored, every registered
  collection lists its keys, and every queued item is \<open>uploadable\<close>; the store works and the
  namespace head has room below \<open>2 ^ 63\<close>.
\<close>

definition flush_ready ::
  "'w env \<Rightarrow> ('w \<Rightarrow> string \<Rightarrow> bytes option) \<Rightarrow> (bytes \<Rightarrow> bool) \<Rightarrow> NamespaceState \<Rightarrow> ItemState list \<Rightarrow>
   'w st \<Rightarrow> bool" where
  "flush_ready E bview valid n queue s \<longleftrightarrow>
     undisturbed E bview \<and> db_wf (st_db s) \<and> sha256_length (env_crypto E) \<and>
     (\<forall>(k, c) \<in> set (st_collections s). reading_keeps c bview \<and> announces_keys c) \<and>
     fst (GetNamespace (env_keyID E) (ns_NamespaceID n) (st_db s)) = Inr n \<and>
     length (ns_DEK n) = NamespaceDEKLen \<and>
     fst (ListDirtyItems (env_keyID E) (st_db s)) = Inr queue \<and>
     (\<forall>item \<in> set queue. uploadable E bview valid (id_AccessToken (st_identity s)) n s item) \<and>
     uint (ns_NamespaceHead n) + int (length queue) < 2 ^ 63"

lemma ListDirtyItems_reads: "fst (ListDirtyItems k d) = Inr xs \<Longrightarrow> ListDirtyItems k d = (Inr xs, d)"
  by (simp add: ListDirtyItems_def)

lemma drained_queue:
  assumes wf: "db_wf (st_db s)" and queue: "fst (ListDirtyItems k (st_db s)) = Inr queue"
    and t: "drained E bview tok n (sort_key it_UpdatedAt queue) s t"
  shows "fst (ListDirtyItems k (st_db t)) = Inr []"
proof -
  have q: "i \<in> set queue \<longleftrightarrow> item_of (st_db s) (k, it_NamespaceID i, it_ItemID i) = Some i \<and> it_Dirty i" for i
    using ListDirtyItems_exact [OF wf, of k] ListDirtyItems_reads [OF queue] by auto
  have "db_wf (st_db t)" using t by (simp add: drained_def)
  then obtain left where left: "ListDirtyItems k (st_db t) = (Inr left, st_db t)"
    and mem: "\<And>i. i \<in> set left \<longleftrightarrow>
      item_of (st_db t) (k, it_NamespaceID i, it_ItemID i) = Some i \<and> it_Dirty i"
    using ListDirtyItems_exact by blast
  have False if i: "i \<in> set left" for i
  proof (cases "(k, it_NamespaceID i, it_ItemID i) \<in> item_key ` set queue")
    case True
    then obtain j where j: "j \<in> set queue" "item_key j = (k, it_NamespaceID i, it_ItemID i)" by auto
    then obtain now where "item_of (st_db t) (item_key j) =
        Some ((item_at j (upload_target j) (upload_value bview s j) False)\<lparr>it_UpdatedAt := now\<rparr>)"
      using t unfolding drained_def by (metis set_sort)
    with i j(2) mem [of i] show False by (auto simp: item_at_def)
  next
    case False
    then have "item_of (st_db t) (k, it_NamespaceID i, it_ItemID i) =
        item_of (st_db s) (k, it_NamespaceID i, it_ItemID i)"
      using t unfolding drained_def by (metis set_sort)
    then have stored: "item_of (st_db s) (k, it_NamespaceID i, it_ItemID i) = Some i"
      and queued: "i \<in> set queue"
      using i mem [of i] q [of i] by simp_all
    have "item_key i = (k, it_NamespaceID i, it_ItemID i)" by (rule item_of_key(1) [OF wf stored])
    with False queued show False by (metis image_eqI)
  qed
  then have "left = []" by (cases left) auto
  with left show ?thesis by simp
qed


text \<open>An engine with one dirty note, the key of its namespace, and a server that accepts the write.\<close>

definition ex_drain_id :: string where
  "ex_drain_id = projr (ItemID ex_crypto ex_dek (composeLogicalKey ''notes'' ''a''))"

lemma ex_drain_id:
  "ItemID ex_crypto ex_dek (composeLogicalKey ''notes'' ''a'') = Inr ex_drain_id"
  "\<exists>i. length i = 32 \<and> ex_drain_id = hex_encode i"
proof -
  obtain k where "NamespaceMapKey ex_crypto ex_dek = Inr k"
    by (simp add: NamespaceMapKey_def ensureR_def ex_dek_def NamespaceDEKLen_def)
  then have id: "ItemID ex_crypto ex_dek (composeLogicalKey ''notes'' ''a'') =
      Inr (hex_encode (hmac_sha256 ex_crypto k (composeLogicalKey ''notes'' ''a'')))"
    by (simp add: ItemID_def)
  then show "ItemID ex_crypto ex_dek (composeLogicalKey ''notes'' ''a'') = Inr ex_drain_id"
    by (simp add: ex_drain_id_def)
  with id show "\<exists>i. length i = 32 \<and> ex_drain_id = hex_encode i"
    using length_hmac [OF ex_sha256_length, of k "composeLogicalKey ''notes'' ''a''"] by auto
qed

definition ex_drain_item :: ItemState where
  "ex_drain_item =
     (new_item (env_keyID ex_env) ex_up_ns ''notes'' ''a'' ex_drain_id)\<lparr>it_Dirty := True, it_UpdatedAt := 5\<rparr>"

definition ex_drain_namespace :: NamespaceState where
  "ex_drain_namespace = (new_namespace (env_keyID ex_env) ex_up_ns NamespaceKindShared)
     \<lparr>ns_DEK := ex_dek, ns_UpdatedAt := 8\<rparr>"

definition ex_drain_db :: database where
  "ex_drain_db = snd (SaveItem 9 ex_drain_item (snd (SaveNamespace 8 ex_drain_namespace empty_database)))"

definition ex_drain_collection :: "string memory registeredCollection" where
  "ex_drain_collection =
     makeRegisteredCollection ex_up_ns ''notes'' StringCodec NoMerge MemoryValueBackend []"

definition ex_drain_state :: "string memory st" where
  "ex_drain_state = (ex_app_state [(''a'', ''mine'')])\<lparr>st_db := ex_drain_db,
     st_collections := [(collectionRegistryKey ex_up_ns ''notes'', ex_drain_collection)]\<rparr>"

definition ex_drain_env :: "string memory env" where
  "ex_drain_env = ex_app_env\<lparr>env_crypto := ex_crypto,
     env_http := (\<lambda>req. ret \<lparr>rs_status = 200, rs_message = [], rs_body = Inr (PutItemResp
       \<lparr>pir_NamespaceID = ex_up_ns, pir_ItemID = ex_drain_id, pir_Version = 1\<rparr>)\<rparr>)\<rparr>"

abbreviation ex_drain_view :: "string memory \<Rightarrow> string \<Rightarrow> bytes option" where
  "ex_drain_view \<equiv> byte_view StringCodec map_of"

lemma ex_drain_fields:
  "env_keyID ex_drain_env = env_keyID ex_env" "env_crypto ex_drain_env = ex_crypto"
  "upload_target ex_drain_item = 1" "item_key ex_drain_item = (env_keyID ex_env, ex_up_ns, ex_drain_id)"
  by (simp_all add: env_keyID_def ex_drain_env_def ex_app_env_def ex_env_def upload_target_def
      ex_drain_item_def new_item_def item_key_def)

lemma ex_drain_saved:
  "SaveNamespace 8 ex_drain_namespace empty_database = (Inr (), snd (SaveNamespace 8 ex_drain_namespace empty_database))"
  "SaveItem 9 ex_drain_item (snd (SaveNamespace 8 ex_drain_namespace empty_database)) = (Inr (), ex_drain_db)"
  by (simp_all add: ex_drain_db_def SaveNamespace_def SaveItem_def ex_drain_namespace_def new_namespace_def
      namespace_to_row_def ex_drain_item_def new_item_def item_to_row_def sql_uint64_def
      empty_database_def)

lemma ex_drain_db:
  "db_wf ex_drain_db" "item_of ex_drain_db = [item_key ex_drain_item \<mapsto> ex_drain_item]"
  "fst (GetNamespace (env_keyID ex_env) ex_up_ns ex_drain_db) = Inr ex_drain_namespace"
proof -
  show "db_wf ex_drain_db"
    unfolding ex_drain_db_def by (intro db_wf_SaveItem db_wf_SaveNamespace db_wf_empty)
  have "item_of (snd (SaveNamespace 8 ex_drain_namespace empty_database)) = Map.empty"
    by (simp add: SaveNamespace_def ex_drain_namespace_def new_namespace_def namespace_to_row_def
        sql_uint64_def item_of_def empty_database_def lookup_row_def fun_eq_iff)
  then show "item_of ex_drain_db = [item_key ex_drain_item \<mapsto> ex_drain_item]"
    using SaveItem_item_of(1) [OF ex_drain_saved(2)]
    by (simp add: ex_drain_item_def new_item_def sql_now_def time_is_zero_def item_key_def)
  show "fst (GetNamespace (env_keyID ex_env) ex_up_ns ex_drain_db) = Inr ex_drain_namespace"
    by (simp add: ex_drain_db_def SaveNamespace_def SaveItem_def ex_drain_namespace_def new_namespace_def
        namespace_to_row_def ex_drain_item_def new_item_def item_to_row_def sql_uint64_def
        empty_database_def GetNamespace_def lookup_row_upsert namespace_pk_def scan_namespace_def
        scan_uint64_def sql_now_def time_is_zero_def)
qed

lemma ex_drain_queue: "fst (ListDirtyItems (env_keyID ex_env) ex_drain_db) = Inr [ex_drain_item]"
proof -
  obtain xs where xs: "ListDirtyItems (env_keyID ex_env) ex_drain_db = (Inr xs, ex_drain_db)"
    and mem: "\<And>i. i \<in> set xs \<longleftrightarrow>
      item_of ex_drain_db (env_keyID ex_env, it_NamespaceID i, it_ItemID i) = Some i \<and> it_Dirty i"
    using ListDirtyItems_exact [OF ex_drain_db(1)] by blast
  have "set xs = {ex_drain_item}"
    by (auto simp: mem ex_drain_db(2) ex_drain_fields(4) split: if_splits)
      (simp_all add: ex_drain_item_def new_item_def)
  moreover have "distinct xs" using queue_distinct [OF ex_drain_db(1) xs] by (simp add: distinct_map)
  ultimately have "xs = [ex_drain_item]"
    by (metis distinct_card length_0_conv length_Suc_conv list.set(1) list.set_intros(1) card_1_singleton_iff
        singletonD set_ConsD)
  with xs show ?thesis by simp
qed

lemma ex_drain_uploadable:
  "uploadable ex_drain_env ex_drain_view (decodes StringCodec) tok ex_drain_namespace ex_drain_state
     ex_drain_item"
proof -
  have item: "it_NamespaceID ex_drain_item = ex_up_ns" "it_Collection ex_drain_item = ''notes''"
    "it_Key ex_drain_item = ''a''" "it_ItemID ex_drain_item = ex_drain_id" "it_Dirty ex_drain_item"
    "\<not> it_Conflict ex_drain_item" "it_KeyID ex_drain_item = env_keyID ex_env"
    "it_Version ex_drain_item = 0"
    by (simp_all add: ex_drain_item_def new_item_def)
  have n: "ns_DEK ex_drain_namespace = ex_dek" "ns_NamespaceID ex_drain_namespace = ex_up_ns"
    by (simp_all add: ex_drain_namespace_def new_namespace_def)
  have view: "ex_drain_view = map_of"
    by (simp add: byte_view_def fun_eq_iff StringCodec_def codecFunc_def split: option.split)
  have backend: "conditional_backend MemoryValueBackend mem_SetIfCurrent map_of" ..
  have codec: "value_codec StringCodec" ..
  have quiet: "undisturbed ex_drain_env map_of"
    by (simp add: undisturbed_def ex_drain_env_def ex_app_env_def)
  have "managed_item ex_drain_env StringCodec NoMerge MemoryValueBackend map_of ex_drain_state ex_drain_item"
    using backend codec quiet
    by (auto simp: managed_item_def ex_drain_state_def ex_drain_db item ex_drain_collection_def
        StringCodec_def codecFunc_def)
  then obtain c where c: "synced_collection ex_drain_env c ex_drain_view (decodes StringCodec)"
    "map_of (st_collections ex_drain_state)
      (collectionRegistryKey (it_NamespaceID ex_drain_item) (it_Collection ex_drain_item)) = Some c"
    by (rule managed_item_synced)
  have "c = ex_drain_collection" using c(2) by (simp add: ex_drain_state_def item)
  moreover have "lists_view ex_drain_collection ex_drain_view"
    unfolding view
    by (auto simp: lists_view_def ex_drain_collection_def makeRegisteredCollection_def
        MemoryValueBackend_def mem_Keys_def mem_Snapshot_def reads_def bindM_def lift_result_def
        encode_strings dom_map_of_conv_image_fst)
  moreover have "accepts_upload ex_drain_env ex_drain_view tok ex_drain_namespace ex_drain_item"
    by (auto simp: accepts_upload_def ex_drain_env_def ex_app_env_def ret_def item upload_target_def)
  moreover have "encryptable ex_drain_env ex_drain_namespace ex_drain_item"
  proof -
    obtain i where i: "length i = 32" "ex_drain_id = hex_encode i" using ex_drain_id(2) by blast
    have "\<exists>aad. BuildItemAAD ex_up_ns ex_drain_id v = Inr aad" for v
    proof
      show "BuildItemAAD ex_up_ns ex_drain_id v = Inr (BuildItemAADFromBytes (replicate 16 (CHR 0x0A)) i v)"
        unfolding BuildItemAAD_accepts using i
        by (intro exI [of _ "replicate 16 (CHR 0x0A)"] exI [of _ i]) (simp add: ex_up_ns_def)
    qed
    then show ?thesis
      by (simp add: encryptable_def ex_drain_fields ex_sha256_length item n ex_dek_def NamespaceDEKLen_def)
  qed
  ultimately show ?thesis
    using c ex_drain_id(1)
    by (auto simp: uploadable_def item n ex_drain_fields view ex_drain_collection_def
        makeRegisteredCollection_def ex_drain_state_def ex_app_state_def MaxItemCiphertextSize_def
        aead_overhead_def storable_def)
qed

lemma ex_drain_ready:
  "flush_ready ex_drain_env ex_drain_view (decodes StringCodec) ex_drain_namespace [ex_drain_item]
     ex_drain_state"
proof -
  have view: "ex_drain_view = map_of"
    by (simp add: byte_view_def fun_eq_iff StringCodec_def codecFunc_def split: option.split)
  have "undisturbed ex_drain_env ex_drain_view"
    by (simp add: view undisturbed_def ex_drain_env_def ex_app_env_def)
  moreover have "reading_keeps ex_drain_collection ex_drain_view \<and> announces_keys ex_drain_collection"
    by (auto simp: reading_keeps_def announces_keys_def ex_drain_collection_def
        makeRegisteredCollection_def MemoryValueBackend_def mem_Keys_def mem_Snapshot_def reads_def
        bindM_def lift_result_def split: sum.split)
  ultimately show ?thesis
    using ex_drain_db ex_drain_queue ex_drain_uploadable
    by (simp add: flush_ready_def ex_drain_state_def ex_drain_fields ex_sha256_length
        ex_drain_namespace_def new_namespace_def ex_dek_def NamespaceDEKLen_def)
qed


end
