(* ===== verification/Client_Setup.thy ===== *)
theory Client_Setup
  imports Store_Operations Engine_World Go_Url
begin

text \<open>
  What a program does before it opens an engine: constructing the API client (\<open>New\<close>,
  \<open>APIError.Error\<close> in \<open>src/raw/client.go\<close>) and opening the SQLite store (\<open>Open\<close>,
  \<open>OpenInMemory\<close>, \<open>init\<close> in \<open>src/storage/sqlite/store.go\<close>); and closing both again (\<open>Close\<close>
  of \<open>src/bitboxsync/engine.go\<close>). The SQL driver is the record \<open>sql_driver\<close> and \<open>url.Parse\<close> an
  argument: it accepts more than the \<open>url_parse\<close> of \<open>Go_Url\<close>, such as IP literals.
\<close>

section \<open>The API client\<close>

text \<open>
  \<open>strings.TrimSpace(s) == ""\<close>: only characters of Unicode's White Space property, in UTF-8.
\<close>

definition ascii_spaces :: string where
  "ascii_spaces = [CHR 0x09, CHR 0x0A, CHR 0x0B, CHR 0x0C, CHR 0x0D, CHR 0x20]"

definition wide_spaces :: "string list" where
  "wide_spaces =
     [[CHR 0xC2, CHR 0x85], [CHR 0xC2, CHR 0xA0], [CHR 0xE1, CHR 0x9A, CHR 0x80],
      [CHR 0xE2, CHR 0x80, CHR 0xA8], [CHR 0xE2, CHR 0x80, CHR 0xA9],
      [CHR 0xE2, CHR 0x80, CHR 0xAF], [CHR 0xE2, CHR 0x81, CHR 0x9F],
      [CHR 0xE3, CHR 0x80, CHR 0x80]] @
     map (\<lambda>n. [CHR 0xE2, CHR 0x80, char_of n]) [0x80 ..< 0x8B :: nat]"

fun only_space :: "string \<Rightarrow> bool" where
  "only_space [] = True"
| "only_space (a # s) =
     (if a \<in> set ascii_spaces then only_space s
      else case s of
        [] \<Rightarrow> False
      | b # t \<Rightarrow>
          if [a, b] \<in> set wide_spaces then only_space t
          else (case t of [] \<Rightarrow> False | c # u \<Rightarrow> [a, b, c] \<in> set wide_spaces \<and> only_space u))"

text \<open>\<open>strings.TrimRight(s, "/")\<close>\<close>

definition trim_right_slashes :: "string \<Rightarrow> string" where
  "trim_right_slashes s = rev (dropWhile (\<lambda>c. c = CHR ''/'') (rev s))"

definition New :: "(string \<Rightarrow> err + 'u) \<Rightarrow> string \<Rightarrow> err + 'u" where
  "New parse baseURL =
     (if only_space baseURL then Inl (Errorf ''base URL is required'')
      else case parse (trim_right_slashes baseURL) of
        Inl e \<Rightarrow> Inl (Wrapf ''parse base URL'' e)
      | Inr parsed \<Rightarrow> Inr parsed)"

definition APIError_Error :: "int \<Rightarrow> string \<Rightarrow> string" where
  "APIError_Error statusCode message =
     (if message = [] then ''bitboxsync api error: status='' @ format_int statusCode
      else ''bitboxsync api error: status='' @ format_int statusCode @ '' message='' @ message)"

lemma New_slashes: "New parse (s @ ''/'') = New parse s" if "\<not> only_space s" "\<not> only_space (s @ ''/'')"
  using that by (simp add: New_def trim_right_slashes_def)

section \<open>The store\<close>

text \<open>The statements of \<open>init\<close>, in their order: pragmas, tables, indexes.\<close>

datatype init_stmt =
    Pragma string string
  | CreateTable string
  | CreateIndex string

definition init_stmts :: "init_stmt list" where
  "init_stmts =
     [Pragma ''journal_mode'' ''WAL'', Pragma ''foreign_keys'' ''ON'', Pragma ''busy_timeout'' ''5000'',
      CreateTable ''identity_states'', CreateTable ''namespaces'', CreateTable ''items'',
      CreateIndex ''idx_items_logical_key'', CreateIndex ''idx_items_dirty'']"

text \<open>
  The driver, by the data source name of a database: opening it, executing a statement,
  closing it, and the rows its three tables hold. The statements of \<open>init\<close> create what does
  not exist and change no row.
\<close>

record 'w sql_driver =
  sd_Open :: "string \<Rightarrow> ('w, unit) eff"
  sd_Exec :: "string \<Rightarrow> init_stmt \<Rightarrow> ('w, unit) eff"
  sd_Close :: "string \<Rightarrow> ('w, unit) eff"
  sd_tables :: "string \<Rightarrow> 'w \<Rightarrow> database"

definition Store_init :: "'w sql_driver \<Rightarrow> string \<Rightarrow> ('w, unit) eff" where
  "Store_init d path = forM init_stmts (sd_Exec d path)"

definition Store_Close :: "'w sql_driver \<Rightarrow> string \<Rightarrow> ('w, unit) eff" where
  "Store_Close d path = sd_Close d path"

definition Store_Open :: "'w sql_driver \<Rightarrow> string \<Rightarrow> ('w, database) eff" where
  "Store_Open d path =
     (if path = [] then raise (Errorf ''sqlite path is required'')
      else
        bindM (attempt (sd_Open d path)) (\<lambda>r.
        case r of
          Inl e \<Rightarrow> raise (Wrapf ''open sqlite database'' e)
        | Inr _ \<Rightarrow>
            bindM (attempt (Store_init d path)) (\<lambda>r.
            case r of
              Inl e \<Rightarrow> seqM (attempt (sd_Close d path)) (raise e)
            | Inr _ \<Rightarrow> reads (sd_tables d path))))"

text \<open>\<open>OpenInMemory\<close> numbers the databases of the process with a 64-bit counter.\<close>

definition in_memory_path :: "u64 \<Rightarrow> string" where
  "in_memory_path n =
     ''file:bitboxsync-'' @ dec_of_nat (unat n) @ ''?mode=memory&cache=shared''"

definition OpenInMemory :: "'w sql_driver \<Rightarrow> (u64 \<times> 'w, database) eff" where
  "OpenInMemory d = (\<lambda>(counter, w).
     let n = counter + 1; (r, w) = Store_Open d (in_memory_path n) w in (r, (n, w)))"

lemma in_memory_path_inject: "in_memory_path m = in_memory_path n \<longleftrightarrow> m = n"
proof
  assume "in_memory_path m = in_memory_path n"
  then have "dec_of_nat (unat m) = dec_of_nat (unat n)" by (simp add: in_memory_path_def)
  then have "Some (unat m) = Some (unat n)" by (metis dec_digits_value_dec_of_nat)
  then show "m = n" by (simp add: word_unat_eq_iff)
qed simp

lemma Store_Open_content:
  assumes "Store_Open d path w = (Inr db, w')"
  shows "path \<noteq> [] \<and> db = sd_tables d path w'"
  using assms
  by (auto simp: Store_Open_def succeeds bindM_def attempt_def reads_def seqM_def raise_def
      split: if_splits prod.splits sum.splits)

section \<open>Closing\<close>

text \<open>\<open>closeOnce\<close>: only the first call closes the store; it returns the store's error.\<close>

definition Engine_Close :: "'w sql_driver \<Rightarrow> string \<Rightarrow> ('w st, unit) eff" where
  "Engine_Close d path =
     bindM (reads st_closed) (\<lambda>closed.
     if closed then ret () else seqM Close (outside (Store_Close d path)))"

lemma Engine_Close_closed:
  "wp (Engine_Close d path) (\<lambda>_ t. st_closed t \<and> st_eventsClosed t) (\<lambda>_ t. st_closed t \<and> st_eventsClosed t) s"
  if "st_closed s = st_eventsClosed s"
  using that by (auto simp: Engine_Close_def Close_def wp split: prod.split sum.split)

end
