(* ===== verification/Demo_Process.thy ===== *)
theory Demo_Process
  imports Client_Setup Engine_Runs Identity_Keystore Snapshots
begin

text \<open>
  What the two demonstration programs share (\<open>src/cmd/demo/main.go\<close>,
  \<open>src/cmd/longpoll-demo/main.go\<close>): a process that runs two engines, Alice's and Bob's, over
  one world, with application values in memory backends, and background goroutines that run
  both engines between the calls of the main goroutine.

  Everything outside the repository is the record \<open>platform\<close>: environment variables, files, the
  clock, the random source, the SQL driver, the network, the primitives. Which background
  steps run between two calls of the main goroutine is the schedule \<open>pr_schedule\<close>, so a
  statement about every schedule is one about every interleaving of passes and calls.
\<close>

section \<open>The process\<close>

record 'w platform =
  pf_LookupEnv :: "string \<Rightarrow> string option"
  pf_TempPath :: "string \<Rightarrow> string"
  pf_Remove :: "string \<Rightarrow> 'w \<Rightarrow> 'w"
  pf_ParseURL :: "string \<Rightarrow> err + (http_request \<Rightarrow> ('w, http_response) eff)"
  pf_FormatTime :: "string \<Rightarrow> gotime \<Rightarrow> string"
  pf_FormatDuration :: "duration \<Rightarrow> string"
  pf_driver :: "'w sql_driver"
  pf_crypto :: crypto
  pf_now :: "'w \<Rightarrow> gotime \<times> 'w"
  pf_rand :: "nat \<Rightarrow> 'w \<Rightarrow> bytes \<times> 'w"
  pf_db_fault :: "'w \<Rightarrow> string option \<times> 'w"

datatype peer = Alice | Bob

text \<open>
  The goroutine of \<open>engine.Run\<close>: not started, before its first pass, in its loop (and whether
  the watch it started is still alive), or returned.
\<close>

datatype run_loop = NotStarted | Starting | Looping bool | Returned err

record 'w engine_proc =
  en_env :: "'w env"
  en_st :: "'w st"
  en_path :: string
  en_loop :: run_loop
  en_cancelled :: bool

text \<open>
  One step of a background goroutine: a round of the loop of \<open>Run\<close>, or one of its watch. The
  variables of the loops and what their \<open>select\<close>s picked are arguments: the variables only
  decide when the next timer fires, which the schedule decides here.
\<close>

datatype background =
    RunStep peer run_state wake
  | WatchStep peer run_state pick pick bool sleep_pick int

record 'w process =
  pr_world :: 'w
  pr_engines :: "peer \<Rightarrow> 'w engine_proc option"
  pr_schedule :: "background list list"
  pr_log :: "(string \<times> string list) list"

definition start_process :: "background list list \<Rightarrow> 'w \<Rightarrow> 'w process" where
  "start_process schedule w =
     \<lparr>pr_world = w, pr_engines = (\<lambda>_. None), pr_schedule = schedule, pr_log = []\<rparr>"

definition in_world :: "('w, 'a) eff \<Rightarrow> ('w process, 'a) eff" where
  "in_world m = (\<lambda>s. case m (pr_world s) of (r, w) \<Rightarrow> (r, s\<lparr>pr_world := w\<rparr>))"

definition log_Printf :: "string \<Rightarrow> string list \<Rightarrow> ('w process, unit) eff" where
  "log_Printf format args = writes (\<lambda>s. s\<lparr>pr_log := pr_log s @ [(format, args)]\<rparr>)"

text \<open>\<open>if err != nil { log.Fatalf(msg, err) }\<close>: the process exits, deferred calls do not run.\<close>

definition or_fatal :: "('s, 'a) eff \<Rightarrow> string \<Rightarrow> ('s, 'a) eff" where
  "or_fatal m msg =
     bindM (attempt m) (\<lambda>r. case r of Inl e \<Rightarrow> raise (Wrapf msg e) | Inr x \<Rightarrow> ret x)"

text \<open>A method of one engine. Before both are open no method is called.\<close>

definition on_engine ::
  "peer \<Rightarrow> ('w env \<Rightarrow> ('w st, 'a) eff) \<Rightarrow> ('w process, 'a) eff" where
  "on_engine p m = (\<lambda>s.
     case pr_engines s p of
       None \<Rightarrow> (Inl (Errorf ''nil engine''), s)
     | Some en \<Rightarrow>
         (case m (en_env en) ((en_st en)\<lparr>st_world := pr_world s\<rparr>) of (r, t) \<Rightarrow>
            (r, s\<lparr>pr_engines := (pr_engines s)(p \<mapsto> en\<lparr>en_st := t\<rparr>),
                  pr_world := st_world t\<rparr>)))"

definition update_engine ::
  "peer \<Rightarrow> ('w engine_proc \<Rightarrow> 'w engine_proc) \<Rightarrow> ('w process, unit) eff" where
  "update_engine p f = writes (\<lambda>s.
     case pr_engines s p of
       None \<Rightarrow> s | Some en \<Rightarrow> s\<lparr>pr_engines := (pr_engines s)(p \<mapsto> f en)\<rparr>)"

section \<open>Background goroutines\<close>

text \<open>A \<open>select\<close> only picks a channel that is ready.\<close>

definition wake_ready :: "'w engine_proc \<Rightarrow> wake \<Rightarrow> bool" where
  "wake_ready en w =
     (case w of
        TimerFired \<Rightarrow> True
      | WakeSync \<Rightarrow> st_wakeSync (en_st en)
      | LoginSucceeded \<Rightarrow> st_loginSucceededRun (en_st en)
      | SyncRequest _ \<Rightarrow> True
      | ContextDone _ \<Rightarrow> en_cancelled en
      | EngineClosed \<Rightarrow> st_closed (en_st en))"

text \<open>\<open>go func() { engine.Run(ctx) }()\<close>\<close>

definition go_Run :: "peer \<Rightarrow> ('w process, unit) eff" where
  "go_Run p = update_engine p (\<lambda>en. en\<lparr>en_loop := Starting\<rparr>)"

definition cancel :: "peer \<Rightarrow> ('w process, unit) eff" where
  "cancel p = update_engine p (\<lambda>en. en\<lparr>en_cancelled := True\<rparr>)"

text \<open>How the loop of \<open>Run\<close> goes on after a round: \<open>stopWatch\<close> is deferred.\<close>

definition after_round :: "bool \<Rightarrow> err + 'a \<Rightarrow> run_loop" where
  "after_round watching r = (case r of Inl e \<Rightarrow> Returned e | Inr _ \<Rightarrow> Looping watching)"

definition run_step :: "peer \<Rightarrow> run_state \<Rightarrow> wake \<Rightarrow> ('w process, unit) eff" where
  "run_step p rs w = (\<lambda>s.
     case pr_engines s p of
       None \<Rightarrow> (Inr (), s)
     | Some en \<Rightarrow>
         (case en_loop en of
            Starting \<Rightarrow>
              seqM (on_engine p (\<lambda>E. runSync E False (resetBackoff (env_cfg E))))
                (update_engine p (\<lambda>en. en\<lparr>en_loop :=
                   Looping (\<not> cfg_DisableNamespaceWatch (env_cfg (en_env en)))\<rparr>)) s
          | Looping watching \<Rightarrow>
              if wake_ready en w then
                bindM (attempt (on_engine p (\<lambda>E. runRound E rs w))) (\<lambda>r.
                update_engine p (\<lambda>en. en\<lparr>en_loop := after_round watching r\<rparr>)) s
              else (Inr (), s)
          | _ \<Rightarrow> (Inr (), s)))"

text \<open>The loop of \<open>Run\<close> answers what the watch requests, as in \<open>engine_call\<close>.\<close>

definition served_watchRound ::
  "'w env \<Rightarrow> run_state \<Rightarrow> pick \<Rightarrow> pick \<Rightarrow> bool \<Rightarrow> sleep_pick \<Rightarrow> int \<Rightarrow> ('w st, int option) eff" where
  "served_watchRound E rs sending waiting contextDone sleep failures =
     watchRound E
       (requestRunSync (\<lambda>nss. bindM (runRound E rs (SyncRequest nss)) (\<lambda>(_, answer).
          ret (case answer of None \<Rightarrow> Inr () | Some r \<Rightarrow> r))) sending waiting)
       contextDone sleep failures"

definition watch_step ::
  "peer \<Rightarrow> run_state \<Rightarrow> pick \<Rightarrow> pick \<Rightarrow> bool \<Rightarrow> sleep_pick \<Rightarrow> int \<Rightarrow> ('w process, unit) eff" where
  "watch_step p rs sending waiting contextDone sleep failures = (\<lambda>s.
     case pr_engines s p of
       None \<Rightarrow> (Inr (), s)
     | Some en \<Rightarrow>
         (case en_loop en of
            Looping True \<Rightarrow>
              bindM (attempt (on_engine p (\<lambda>E.
                 served_watchRound E rs sending waiting contextDone sleep failures))) (\<lambda>r.
              update_engine p (\<lambda>en. en\<lparr>en_loop :=
                 Looping (case r of Inr (Some _) \<Rightarrow> True | _ \<Rightarrow> False)\<rparr>)) s
          | _ \<Rightarrow> (Inr (), s)))"

fun background_step :: "background \<Rightarrow> ('w process, unit) eff" where
  "background_step (RunStep p rs w) = run_step p rs w"
| "background_step (WatchStep p rs sending waiting contextDone sleep failures) =
     watch_step p rs sending waiting contextDone sleep failures"

text \<open>Before a call of the main goroutine, the next batch of the schedule runs.\<close>

definition run_background :: "('w process, unit) eff" where
  "run_background = (\<lambda>s.
     case pr_schedule s of
       [] \<Rightarrow> (Inr (), s)
     | batch # rest \<Rightarrow> forM batch background_step (s\<lparr>pr_schedule := rest\<rparr>))"

definition main_call :: "('w process, 'a) eff \<Rightarrow> string \<Rightarrow> ('w process, 'a) eff" where
  "main_call m msg = or_fatal (seqM run_background m) msg"

section \<open>Helpers of the programs\<close>

definition env_or :: "'w platform \<Rightarrow> string \<Rightarrow> string \<Rightarrow> string" where
  "env_or P key fallback =
     (case pf_LookupEnv P key of
        Some val \<Rightarrow> if val \<noteq> [] then val else fallback
      | None \<Rightarrow> fallback)"

definition closeOnExit :: "string \<Rightarrow> ('w process, unit) eff \<Rightarrow> ('w process, unit) eff" where
  "closeOnExit name closer =
     bindM (attempt closer) (\<lambda>r.
     case r of Inl _ \<Rightarrow> log_Printf ''close %s: %v'' [name] | Inr _ \<Rightarrow> ret ())"

text \<open>
  A backend variable of the program is a component of the world that the closures of its
  collection act on. A Go map has Go strings as keys; \<open>go_map\<close> says so and is the identity on
  every map a program can hold.
\<close>

definition go_map :: "'t memory \<Rightarrow> 't memory" where
  "go_map m = filter (\<lambda>(k, v). go_string k) m"

definition focus ::
  "('w \<Rightarrow> 't memory) \<Rightarrow> ('t memory \<Rightarrow> 'w \<Rightarrow> 'w) \<Rightarrow> ('t memory, 'a) eff \<Rightarrow> ('w, 'a) eff" where
  "focus get put m = (\<lambda>w. case m (go_map (get w)) of (r, v) \<Rightarrow> (r, put v w))"

definition focus_backend ::
  "('w \<Rightarrow> 't memory) \<Rightarrow> ('t memory \<Rightarrow> 'w \<Rightarrow> 'w) \<Rightarrow> ('t memory, 't) ValueBackend \<Rightarrow>
   ('w, 't) ValueBackend" where
  "focus_backend get put b =
     \<lparr>vb_Keys = focus get put (vb_Keys b),
      vb_Snapshot = focus get put (vb_Snapshot b),
      vb_Get = (\<lambda>key. focus get put (vb_Get b key)),
      vb_Set = (\<lambda>key val. focus get put (vb_Set b key val)),
      vb_SetIfCurrent = map_option (\<lambda>setif key current found val.
        focus get put (setif key current found val)) (vb_SetIfCurrent b)\<rparr>"

text \<open>
  \<open>scopedMemoryBackend\<close> embeds the memory backend and overrides \<open>Keys\<close>: keys are announced
  before there are values for them, so the engine fetches them.
\<close>

definition scopedMemoryBackend :: "string list \<Rightarrow> ('t memory, 't) ValueBackend" where
  "scopedMemoryBackend keys = MemoryValueBackend\<lparr>vb_Keys := ret keys\<rparr>"

text \<open>\<open>bitboxsync.OpenCollection\<close> with the string codec, as both programs call it.\<close>

definition open_strings ::
  "peer \<Rightarrow> string \<Rightarrow> string \<Rightarrow> string MergeFunc \<Rightarrow> ('w, string) ValueBackend \<Rightarrow>
   ('w process, unit) eff" where
  "open_strings p namespaceID name merge backend =
     on_engine p (\<lambda>_. OpenCollection namespaceID name (Some StringCodec) StringCodec (Some merge)
       (Some backend) [])"

section \<open>Opening both engines\<close>

definition dummy_identity ::
  "'w platform \<Rightarrow> string \<Rightarrow> string \<Rightarrow> ('w process, 'w Identity) eff" where
  "dummy_identity P label msg =
     or_fatal (bindM (lift_result (NewDummyKeystore (pf_crypto P) label)) (\<lambda>d.
       ret (keystore_identity (pf_crypto P) d))) msg"

text \<open>The environment of an engine: \<open>Open\<close> fills in the configuration and the key ID.\<close>

definition engine_env ::
  "'w platform \<Rightarrow> (http_request \<Rightarrow> ('w, http_response) eff) \<Rightarrow> Config \<Rightarrow> 'w Identity \<Rightarrow>
   'w env" where
  "engine_env P client cfg identity =
     \<lparr>env_cfg = cfg, env_crypto = pf_crypto P, env_keyIDRaw = [], env_identity = identity,
      env_now = pf_now P, env_rand = pf_rand P, env_db_fault = pf_db_fault P,
      env_http = client\<rparr>"

definition open_engine ::
  "'w platform \<Rightarrow> (http_request \<Rightarrow> ('w, http_response) eff) \<Rightarrow> Config \<Rightarrow> peer \<Rightarrow> string \<Rightarrow>
   'w Identity \<Rightarrow> string \<Rightarrow> database \<Rightarrow> ('w process, unit) eff" where
  "open_engine P client cfg p name identity path db =
     bindM (attempt (in_world (Open cfg (engine_env P client cfg identity) db))) (\<lambda>r.
     case r of
       Inl e \<Rightarrow>
         seqM (closeOnExit (name @ '' sqlite store'') (in_world (Store_Close (pf_driver P) path)))
           (raise (Wrapf (''open '' @ name @ '' sync engine'') e))
     | Inr (E, s) \<Rightarrow>
         writes (\<lambda>pr. pr\<lparr>pr_engines := (pr_engines pr)(p \<mapsto>
           \<lparr>en_env = E, en_st = s, en_path = path, en_loop = NotStarted,
            en_cancelled = False\<rparr>)\<rparr>))"

definition open_engines ::
  "'w platform \<Rightarrow> (http_request \<Rightarrow> ('w, http_response) eff) \<Rightarrow> Config \<Rightarrow> string \<Rightarrow> string \<Rightarrow>
   string \<Rightarrow> string \<Rightarrow> ('w process, unit) eff" where
  "open_engines P client cfg alicePath bobPath aliceLabel bobLabel =
     bindM (or_fatal (in_world (Store_Open (pf_driver P) alicePath)) ''open alice sqlite store'')
       (\<lambda>aliceStore.
     bindM (or_fatal (in_world (Store_Open (pf_driver P) bobPath)) ''open bob sqlite store'')
       (\<lambda>bobStore.
     bindM (dummy_identity P aliceLabel ''create alice identity'') (\<lambda>aliceIdentity.
     bindM (dummy_identity P bobLabel ''create bob identity'') (\<lambda>bobIdentity.
     seqM (open_engine P client cfg Alice ''alice'' aliceIdentity alicePath aliceStore)
          (open_engine P client cfg Bob ''bob'' bobIdentity bobPath bobStore)))))"

definition close_engine :: "'w platform \<Rightarrow> peer \<Rightarrow> string \<Rightarrow> ('w process, unit) eff" where
  "close_engine P p name =
     closeOnExit name (\<lambda>s.
       case pr_engines s p of
         None \<Rightarrow> (Inr (), s)
       | Some en \<Rightarrow> on_engine p (\<lambda>_. Engine_Close (pf_driver P) (en_path en)) s)"

section \<open>Sharing a namespace\<close>

text \<open>
  The exchange both programs run through: Alice creates an invite, Bob scans it and asks to
  join, Alice finds exactly one request and approves it, Bob joins.
\<close>

definition invite_bob :: "string \<Rightarrow> string \<Rightarrow> ('w process, unit) eff" where
  "invite_bob publicOrigin shared =
     bindM (main_call (on_engine Alice (\<lambda>E. CreateInvite E shared
         \<lparr>io_ServerOrigin = publicOrigin, io_InviteID = [], io_InviteSecret = [],
          io_TTL = 10 * time_Minute, io_MaxAccepted = 0\<rparr>)) ''create namespace invite'') (\<lambda>invite.
     bindM (or_fatal (lift_result (InviteURI invite)) ''encode namespace invite'') (\<lambda>inviteURI.
     bindM (or_fatal (lift_result (ParseInviteURI inviteURI)) ''parse namespace invite'')
       (\<lambda>scannedInvite.
     seqM (main_call (on_engine Bob (\<lambda>E. SubmitJoinRequest E scannedInvite
         \<lparr>jo_TTL = 0, jo_ExpiresAt = 0\<rparr>)) ''submit bob join request'')
     (bindM (main_call (on_engine Alice (\<lambda>E. JoinRequests E shared)) ''list join requests'')
       (\<lambda>joinRequests.
     seqM (guardM (length joinRequests = 1) (Errorf ''expected 1 join request, got %d''))
     (main_call (on_engine Alice (\<lambda>E. ApproveJoinRequest E shared invite (joinRequests ! 0)))
       ''approve bob join request''))))))"

end
