(* ===== verification/Demo.thy ===== *)
theory Demo
  imports Demo_Process
begin

text \<open>
  The end-to-end demonstration, \<open>src/cmd/demo/main.go\<close>: \<open>main\<close> as one function on the process,
  cut into the parts of the program. The five memory backends that \<open>main\<close> creates are
  components of the world; \<open>dw_rest\<close> is everything else.
\<close>

record 'n demo_world =
  dw_aliceAppNotes :: "string memory"
  dw_sharedNotes :: "string memory"
  dw_bobShared :: "string memory"
  dw_aliceConflict :: "string memory"
  dw_bobConflict :: "string memory"
  dw_rest :: 'n

definition aliceAppNotes :: "('n demo_world, string) ValueBackend" where
  "aliceAppNotes =
     focus_backend dw_aliceAppNotes (\<lambda>m. dw_aliceAppNotes_update (\<lambda>_. m)) MemoryValueBackend"

definition sharedNotesBackend :: "('n demo_world, string) ValueBackend" where
  "sharedNotesBackend =
     focus_backend dw_sharedNotes (\<lambda>m. dw_sharedNotes_update (\<lambda>_. m)) MemoryValueBackend"

definition bobSharedBackend :: "('n demo_world, string) ValueBackend" where
  "bobSharedBackend =
     focus_backend dw_bobShared (\<lambda>m. dw_bobShared_update (\<lambda>_. m))
       (scopedMemoryBackend [''shared:note''])"

definition aliceConflictBackend :: "('n demo_world, string) ValueBackend" where
  "aliceConflictBackend =
     focus_backend dw_aliceConflict (\<lambda>m. dw_aliceConflict_update (\<lambda>_. m)) MemoryValueBackend"

definition bobConflictBackend :: "('n demo_world, string) ValueBackend" where
  "bobConflictBackend =
     focus_backend dw_bobConflict (\<lambda>m. dw_bobConflict_update (\<lambda>_. m))
       (scopedMemoryBackend [''same-key''])"

text \<open>The configuration both engines get: a poll interval, everything else by default.\<close>

definition demo_config :: Config where
  "demo_config =
     \<lparr>cfg_Client = True, cfg_Identity = True, cfg_Store = True,
      cfg_PollInterval = 5 * time_Minute, cfg_IdlePolling = False, cfg_MaxPollInterval = 0,
      cfg_DisableNamespaceWatch = False, cfg_RefreshSkew = 0, cfg_EventBuffer = 0,
      cfg_InviteTTL = 0\<rparr>"

section \<open>The parts of main\<close>

definition demo_setup :: "'n demo_world platform \<Rightarrow> ('n demo_world process, unit) eff" where
  "demo_setup P =
     (let baseURL = env_or P ''BITBOXSYNC_BASE_URL'' ''http://localhost:8090''
      in bindM (or_fatal (lift_result (New (pf_ParseURL P) baseURL)) ''create raw client'')
           (\<lambda>client.
         let aliceStorePath = pf_TempPath P ''bitboxsync-demo-alice.sqlite'';
             bobStorePath = pf_TempPath P ''bitboxsync-demo-bob.sqlite''
         in seqM (in_world (writes (pf_Remove P aliceStorePath)))
              (seqM (in_world (writes (pf_Remove P bobStorePath)))
              (open_engines P client demo_config aliceStorePath bobStorePath
                 ''demo-alice'' ''demo-bob''))))"

definition demo_defaults :: "('n demo_world process, string) eff" where
  "demo_defaults =
     bindM (main_call (on_engine Alice DefaultNamespace) ''alice default namespace'')
       (\<lambda>aliceDefault.
     bindM (main_call (on_engine Bob DefaultNamespace) ''bob default namespace'') (\<lambda>bobDefault.
     seqM (log_Printf ''alice default namespace: %s'' [aliceDefault])
     (seqM (log_Printf ''bob default namespace: %s'' [bobDefault])
     (ret aliceDefault))))"

definition demo_notes :: "string \<Rightarrow> ('n demo_world process, unit) eff" where
  "demo_notes aliceDefault =
     seqM (in_world (writes (dw_aliceAppNotes_update (\<lambda>_.
       NewMemoryValueBackend [(''account:primary:label'', ''Alice savings'')]))))
     (seqM (main_call (open_strings Alice aliceDefault ''notes'' PreferLocal aliceAppNotes)
       ''open alice notes collection'')
     (bindM (main_call (in_world (vb_Get aliceAppNotes ''account:primary:label''))
       ''alice inspect preexisting app note'') (\<lambda>recordValue.
     seqM (log_Printf ''alice preexisting app note: %s'' [recordValue])
     (seqM (main_call (in_world (vb_Set aliceAppNotes ''account:secondary:label'' ''Alice checking''))
       ''alice write app note'')
     (seqM (go_Run Alice)
     (seqM (go_Run Bob)
     (seqM (main_call (on_engine Alice SyncNow) ''alice sync default namespace'')
     (bindM (main_call (in_world (vb_Get aliceAppNotes ''account:primary:label''))
       ''alice read default note'') (\<lambda>aliceValue.
     log_Printf ''alice default item: %s'' [aliceValue])))))))))"

definition demo_share :: "string \<Rightarrow> ('n demo_world process, string \<times> string) eff" where
  "demo_share publicOrigin =
     bindM (main_call (on_engine Alice CreateSharedNamespace) ''create shared namespace'')
       (\<lambda>shared.
     seqM (log_Printf ''shared namespace created: %s'' [shared])
     (seqM (invite_bob publicOrigin shared)
     (seqM (log_Printf ''alice approved bob for shared namespace'' [])
     (bindM (main_call (on_engine Bob (\<lambda>E. JoinNamespace E shared)) ''bob join shared namespace'')
       (\<lambda>bobShared.
     ret (shared, bobShared))))))"

definition demo_drafts :: "string \<Rightarrow> string \<Rightarrow> ('n demo_world process, unit) eff" where
  "demo_drafts shared bobShared =
     seqM (in_world (writes (dw_sharedNotes_update (\<lambda>_. NewMemoryValueBackend []))))
     (seqM (main_call (open_strings Alice shared ''drafts'' PreferLocal sharedNotesBackend)
       ''open alice shared drafts collection'')
     (seqM (main_call (in_world (vb_Set sharedNotesBackend ''shared:note''
       ''Shared multisig draft metadata'')) ''write shared note'')
     (seqM (main_call (on_engine Alice SyncNow) ''sync shared namespace from alice'')
     (seqM (in_world (writes (dw_bobShared_update (\<lambda>_. NewMemoryValueBackend []))))
     (seqM (main_call (open_strings Bob bobShared ''drafts'' PreferLocal bobSharedBackend)
       ''open bob shared drafts collection'')
     (seqM (main_call (on_engine Bob SyncNow) ''sync shared namespace from bob'')
     (bindM (main_call (in_world (vb_Get bobSharedBackend ''shared:note'')) ''bob read shared note'')
       (\<lambda>sharedValue.
     log_Printf ''bob read shared note: %s'' [sharedValue]))))))))"

definition demo_conflict :: "string \<Rightarrow> string \<Rightarrow> ('n demo_world process, unit) eff" where
  "demo_conflict shared bobShared =
     seqM (in_world (writes (dw_aliceConflict_update (\<lambda>_. NewMemoryValueBackend []))))
     (seqM (main_call (open_strings Alice shared ''conflict-demo'' NoMerge aliceConflictBackend)
       ''open alice conflict collection'')
     (seqM (in_world (writes (dw_bobConflict_update (\<lambda>_. NewMemoryValueBackend []))))
     (seqM (main_call (open_strings Bob bobShared ''conflict-demo'' NoMerge bobConflictBackend)
       ''open bob conflict collection'')
     (seqM (main_call (in_world (vb_Set aliceConflictBackend ''same-key'' ''base value''))
       ''seed conflict base value'')
     (seqM (main_call (on_engine Alice SyncNow) ''sync conflict base value from alice'')
     (seqM (main_call (on_engine Bob SyncNow) ''bob sync conflict base value'')
     (bindM (main_call (in_world (vb_Get bobConflictBackend ''same-key''))
       ''bob read conflict base value'') (\<lambda>baseValue.
     log_Printf ''bob fetched shared base value before conflict: %s'' [baseValue]))))))))"

definition demo_resolve :: "string \<Rightarrow> ('n demo_world process, unit) eff" where
  "demo_resolve bobShared =
     seqM (main_call (in_world (vb_Set aliceConflictBackend ''same-key'' ''alice local edit''))
       ''alice write conflicting edit'')
     (seqM (main_call (in_world (vb_Set bobConflictBackend ''same-key'' ''bob local edit''))
       ''bob write conflicting edit'')
     (seqM (main_call (on_engine Alice SyncNow) ''alice sync conflicting edit'')
     (seqM (main_call (on_engine Bob SyncNow) ''bob sync conflicting edit'')
     (seqM (log_Printf ''conflict detected on same key; resolving with an explicit value'' [])
     (seqM (main_call (on_engine Bob (\<lambda>E. ResolveConflictWithValue E bobShared ''conflict-demo''
         bobConflictBackend ''same-key'' ''alice and bob resolved this together''))
       ''resolve conflict with merged value'')
     (seqM (main_call (on_engine Bob SyncNow) ''bob sync resolved conflict'')
     (seqM (main_call (on_engine Alice SyncNow) ''alice fetch resolved conflict'')
     (bindM (main_call (in_world (vb_Get aliceConflictBackend ''same-key''))
       ''alice read resolved conflict value'') (\<lambda>resolvedValue.
     log_Printf ''resolved shared value after conflict handling: %s'' [resolvedValue])))))))))"

definition demo_finish :: "('n demo_world process, unit) eff" where
  "demo_finish =
     bindM (main_call (on_engine Bob Engine_ListNamespaces) ''list bob namespaces'') (\<lambda>nss.
     seqM (log_Printf ''bob sees %d namespaces'' [dec_of_nat (length nss)])
     (main_call (on_engine Alice SyncNow) ''alice sync''))"

text \<open>The deferred calls of a \<open>main\<close> that returns, last deferred first.\<close>

definition demo_deferred :: "'n demo_world platform \<Rightarrow> ('n demo_world process, unit) eff" where
  "demo_deferred P =
     seqM (cancel Bob)
     (seqM (cancel Alice)
     (seqM run_background
     (seqM (close_engine P Bob ''bob sync engine'')
     (seqM run_background
     (close_engine P Alice ''alice sync engine'')))))"

definition demo_main :: "'n demo_world platform \<Rightarrow> ('n demo_world process, unit) eff" where
  "demo_main P =
     seqM (demo_setup P)
     (bindM demo_defaults (\<lambda>aliceDefault.
     seqM (demo_notes aliceDefault)
     (bindM (demo_share (env_or P ''BITBOXSYNC_PUBLIC_ORIGIN'' ''https://sync.example''))
       (\<lambda>(shared, bobShared).
     seqM (demo_drafts shared bobShared)
     (seqM (demo_conflict shared bobShared)
     (seqM (demo_resolve bobShared)
     (seqM demo_finish
     (demo_deferred P))))))))"

end
