(* ===== verification/Longpoll_Demo.thy ===== *)
theory Longpoll_Demo
  imports Demo_Process "HOL-Library.Stream"
begin

text \<open>
  The long-poll demonstration, \<open>src/cmd/longpoll-demo/main.go\<close>. Up to the start of the engines
  it is a function on the process. From there on it is six goroutines (\<open>main\<close>, the loop of
  \<open>Run\<close> with its watch for each engine, the writer and the monitor) that communicate over
  channels: a state machine whose steps are the communications and calls of one goroutine.

  The channels \<open>errs\<close> and \<open>received\<close> are bounded queues. The event channel of an engine is its
  log with the number of events read so far.
\<close>

record 'n longpoll_world =
  lw_aliceBackend :: "string memory"
  lw_bobBackend :: "string memory"
  lw_rest :: 'n

definition collectionName :: string where "collectionName = ''longpoll''"
definition writeDelay :: duration where "writeDelay = 3 * nanos_per_second"
definition pollInterval :: duration where "pollInterval = 5 * time_Minute"

definition itemKeys :: "string list" where
  "itemKeys = [''stream:item:1'', ''stream:item:2'', ''stream:item:3'', ''stream:item:4'',
     ''stream:item:5'']"

record receivedItem =
  ri_key :: string
  ri_value :: string

definition aliceBackend :: "('n longpoll_world, string) ValueBackend" where
  "aliceBackend =
     focus_backend lw_aliceBackend (\<lambda>m. lw_aliceBackend_update (\<lambda>_. m)) MemoryValueBackend"

definition bobBackend :: "('n longpoll_world, string) ValueBackend" where
  "bobBackend =
     focus_backend lw_bobBackend (\<lambda>m. lw_bobBackend_update (\<lambda>_. m)) (scopedMemoryBackend itemKeys)"

definition longpoll_config :: Config where
  "longpoll_config =
     \<lparr>cfg_Client = True, cfg_Identity = True, cfg_Store = True,
      cfg_PollInterval = pollInterval, cfg_IdlePolling = False, cfg_MaxPollInterval = 0,
      cfg_DisableNamespaceWatch = False, cfg_RefreshSkew = 0, cfg_EventBuffer = 128,
      cfg_InviteTTL = 0\<rparr>"

definition demoStorePath :: "'w platform \<Rightarrow> string \<Rightarrow> string \<Rightarrow> string" where
  "demoStorePath P name runID =
     pf_TempPath P (''bitboxsync-longpoll-'' @ name @ ''-'' @ runID @ ''.sqlite'')"

definition cleanupStoreFiles :: "'w platform \<Rightarrow> string \<Rightarrow> ('w process, unit) eff" where
  "cleanupStoreFiles P path =
     in_world (writes (\<lambda>w. pf_Remove P (path @ ''-wal'')
       (pf_Remove P (path @ ''-shm'') (pf_Remove P path w))))"

section \<open>Up to the start of the engines\<close>

text \<open>The run ID is returned for the deferred calls.\<close>

definition longpoll_setup ::
  "'n longpoll_world platform \<Rightarrow> ('n longpoll_world process, string) eff" where
  "longpoll_setup P =
     (let baseURL = env_or P ''BITBOXSYNC_BASE_URL'' ''http://localhost:8090''
      in bindM (or_fatal (lift_result (New (pf_ParseURL P) baseURL)) ''create raw client'')
           (\<lambda>client.
         bindM (in_world (\<lambda>w. case pf_now P w of (t, w) \<Rightarrow> (Inr t, w))) (\<lambda>now.
         let runID = pf_FormatTime P ''20060102T150405.000000000'' now
         in seqM (open_engines P client longpoll_config (demoStorePath P ''alice'' runID)
                    (demoStorePath P ''bob'' runID) (''longpoll-demo-alice-'' @ runID)
                    (''longpoll-demo-bob-'' @ runID))
              (ret runID))))"

definition longpoll_share :: "string \<Rightarrow> ('n longpoll_world process, string \<times> string) eff" where
  "longpoll_share publicOrigin =
     bindM (main_call (on_engine Alice DefaultNamespace) ''alice default namespace'')
       (\<lambda>aliceDefault.
     bindM (main_call (on_engine Bob DefaultNamespace) ''bob default namespace'') (\<lambda>bobDefault.
     seqM (log_Printf ''default namespaces ready: alice=%s bob=%s'' [aliceDefault, bobDefault])
     (bindM (main_call (on_engine Alice CreateSharedNamespace) ''create shared namespace'')
       (\<lambda>shared.
     seqM (invite_bob publicOrigin shared)
     (bindM (main_call (on_engine Bob (\<lambda>E. JoinNamespace E shared)) ''bob join shared namespace'')
       (\<lambda>bobShared.
     seqM (log_Printf ''shared namespace ready: %s'' [shared])
     (ret (shared, bobShared))))))))"

definition longpoll_collections ::
  "string \<Rightarrow> string \<Rightarrow> ('n longpoll_world process, unit) eff" where
  "longpoll_collections shared bobShared =
     seqM (in_world (writes (lw_aliceBackend_update (\<lambda>_. NewMemoryValueBackend []))))
     (seqM (main_call (open_strings Alice shared collectionName PreferLocal aliceBackend)
       ''open alice collection'')
     (seqM (in_world (writes (lw_bobBackend_update (\<lambda>_. NewMemoryValueBackend []))))
     (main_call (open_strings Bob bobShared collectionName PreferLocal bobBackend)
       ''open bob collection'')))"

definition longpoll_start ::
  "'n longpoll_world platform \<Rightarrow> ('n longpoll_world process, string) eff" where
  "longpoll_start P =
     bindM (longpoll_setup P) (\<lambda>runID.
     bindM (longpoll_share (env_or P ''BITBOXSYNC_PUBLIC_ORIGIN'' ''https://sync.example''))
       (\<lambda>(shared, bobShared).
     seqM (longpoll_collections shared bobShared)
     (seqM (go_Run Alice) (seqM (go_Run Bob) (ret runID)))))"

section \<open>Single decisions of the goroutines\<close>

text \<open>
  \<open>waitForInitialSync\<close>: what one event decides, and the loop over the events of the channel.
  No answer means that it waits for more.
\<close>

definition initial_sync_verdict :: "string \<Rightarrow> Event \<Rightarrow> (err + unit) option" where
  "initial_sync_verdict name event =
     (case ev_Type event of
        EventSyncFinished \<Rightarrow> Some (Inr ())
      | EventSyncFailed \<Rightarrow>
          Some (Inl (case ev_Err event of
             None \<Rightarrow> Errorf (name @ '' initial sync failed'')
           | Some e \<Rightarrow> Wrapf (name @ '' initial sync failed'') e))
      | _ \<Rightarrow> None)"

fun waitForInitialSync :: "string \<Rightarrow> Event list \<Rightarrow> (err + unit) option" where
  "waitForInitialSync name [] = None"
| "waitForInitialSync name (event # rest) =
     (case initial_sync_verdict name event of
        Some verdict \<Rightarrow> Some verdict
      | None \<Rightarrow> waitForInitialSync name rest)"

lemma waitForInitialSync_success:
  "waitForInitialSync name events = Some (Inr ()) \<longleftrightarrow>
     map_option ev_Type (find (\<lambda>e. ev_Type e \<in> {EventSyncFinished, EventSyncFailed}) events) =
       Some EventSyncFinished"
  by (induction events)
    (auto simp: initial_sync_verdict_def split: EventType.splits option.splits)

text \<open>\<open>make(chan error, 4)\<close> and the non-blocking send on it.\<close>

definition errs_capacity :: nat where "errs_capacity = 4"

definition sendErr :: "err \<Rightarrow> err list \<Rightarrow> err list" where
  "sendErr e errs = (if length errs < errs_capacity then errs @ [e] else errs)"

text \<open>\<open>errors.Is(err, context.Canceled)\<close>: the error with this text.\<close>

fun is_canceled :: "err \<Rightarrow> bool" where
  "is_canceled (Sentinel _) = False"
| "is_canceled (Errorf m) = (m = ''context canceled'')"
| "is_canceled (Wrapf _ e) = is_canceled e"
| "is_canceled (APIError _ _) = False"
| "is_canceled (PermanentUpload e) = is_canceled e"

definition runEngine_reports :: "string \<Rightarrow> err \<Rightarrow> err list \<Rightarrow> err list" where
  "runEngine_reports name e errs =
     (if \<not> is_canceled e \<and> \<not> errors_is ErrClosed e then sendErr (Wrapf (name @ '' run'') e) errs
      else errs)"

text \<open>The receive loop of \<open>main\<close>: what its \<open>select\<close> picks, one iteration, and the loop.\<close>

datatype receive_pick = ItemReceived receivedItem | ErrReceived err | TimedOut

definition receive_step :: "string list \<Rightarrow> receive_pick \<Rightarrow> err + string list" where
  "receive_step seen p =
     (case p of
        ItemReceived item \<Rightarrow>
          Inr (if ri_key item \<in> set seen then seen else seen @ [ri_key item])
      | ErrReceived e \<Rightarrow> Inl (Wrapf ''demo error'' e)
      | TimedOut \<Rightarrow> Inl (Errorf ''timed out after receiving %d/%d items''))"

partial_function (option) receiveLoop ::
  "string list \<Rightarrow> receive_pick stream \<Rightarrow> ((err + string list) \<times> receive_pick stream) option" where
  "receiveLoop seen picks =
     (if length seen < length itemKeys then
        (case receive_step seen (shd picks) of
           Inl e \<Rightarrow> Some (Inl e, stl picks)
         | Inr seen \<Rightarrow> receiveLoop seen (stl picks))
      else Some (Inr seen, picks))"

text \<open>The loop of \<open>monitorBob\<close> on one event: what it does next.\<close>

datatype monitor_next =
    MonitorIgnores
  | MonitorLogsWatchFailure
  | MonitorFails err
  | MonitorReads string

definition monitor_event :: "Event \<Rightarrow> monitor_next" where
  "monitor_event event =
     (case ev_Type event of
        EventNamespaceWatchFailed \<Rightarrow> MonitorLogsWatchFailure
      | EventSyncFailed \<Rightarrow>
          MonitorFails (case ev_Err event of
             None \<Rightarrow> Errorf ''bob sync failed'' | Some e \<Rightarrow> Wrapf ''bob sync failed'' e)
      | EventItemDownloaded \<Rightarrow>
          if ev_Collection event \<noteq> collectionName then MonitorIgnores
          else MonitorReads (ev_Key event)
      | _ \<Rightarrow> MonitorIgnores)"

section \<open>The goroutines\<close>

text \<open>
  Where each goroutine stands. \<open>main\<close> waits for the first pass of Alice, then of Bob, receives,
  stops the engines, and has exited with an error (\<open>log.Fatalf\<close>) or normally.
\<close>

datatype main_phase =
    WaitingFor peer
  | Receiving "string list"
  | Stopping
  | Exited "err option"

text \<open>
  The writer is before the \<open>i\<close>-th key (counted from 0), has set its value and calls
  \<open>SyncNow\<close>, or has returned. The monitor selects, sends on \<open>received\<close>, or has returned.
\<close>

datatype writer_phase = WriterNotStarted | WriterAt nat | WriterSyncs nat | WriterReturned

datatype monitor_phase = MonitorNotStarted | Monitoring | Sending receivedItem | MonitorReturned

record 'n longpoll =
  lp_proc :: "'n longpoll_world process"
  lp_runID :: string
  lp_read :: "peer \<Rightarrow> nat"
  lp_done :: "peer \<Rightarrow> bool"
  lp_errs :: "err list"
  lp_received :: "receivedItem list"
  lp_sentTimes :: "(string \<times> gotime) list"
  lp_main :: main_phase
  lp_writer :: writer_phase
  lp_monitor :: monitor_phase

definition received_capacity :: nat where "received_capacity = length itemKeys"

definition start_longpoll ::
  "'n longpoll_world process \<Rightarrow> string \<Rightarrow> 'n longpoll" where
  "start_longpoll proc runID =
     \<lparr>lp_proc = proc, lp_runID = runID, lp_read = (\<lambda>_. 0), lp_done = (\<lambda>_. False), lp_errs = [],
      lp_received = [], lp_sentTimes = [], lp_main = WaitingFor Alice,
      lp_writer = WriterNotStarted, lp_monitor = MonitorNotStarted\<rparr>"

definition peer_name :: "peer \<Rightarrow> string" where
  "peer_name p = (case p of Alice \<Rightarrow> ''alice'' | Bob \<Rightarrow> ''bob'')"

definition in_proc :: "('n longpoll_world process, 'a) eff \<Rightarrow> ('n longpoll, 'a) eff" where
  "in_proc m = (\<lambda>s. case m (lp_proc s) of (r, proc) \<Rightarrow> (r, s\<lparr>lp_proc := proc\<rparr>))"

definition engine_events :: "peer \<Rightarrow> 'n longpoll \<Rightarrow> Event list" where
  "engine_events p s =
     (case pr_engines (lp_proc s) p of None \<Rightarrow> [] | Some en \<Rightarrow> st_events (en_st en))"

definition events_closed :: "peer \<Rightarrow> 'n longpoll \<Rightarrow> bool" where
  "events_closed p s =
     (case pr_engines (lp_proc s) p of None \<Rightarrow> False | Some en \<Rightarrow> st_eventsClosed (en_st en))"

text \<open>
  \<open>event, ok := <-engine.Events()\<close>: the next unread event, a closed channel (\<open>Some None\<close>), or
  nothing to receive yet.
\<close>

definition receive_event :: "peer \<Rightarrow> 'n longpoll \<Rightarrow> Event option option" where
  "receive_event p s =
     (if lp_read s p < length (engine_events p s)
      then Some (Some (engine_events p s ! lp_read s p))
      else if events_closed p s then Some None
      else None)"

definition event_read :: "peer \<Rightarrow> 'n longpoll \<Rightarrow> 'n longpoll" where
  "event_read p s = s\<lparr>lp_read := (lp_read s)(p := Suc (lp_read s p))\<rparr>"

definition exits :: "err option \<Rightarrow> 'n longpoll \<Rightarrow> 'n longpoll" where
  "exits e s = s\<lparr>lp_main := Exited e\<rparr>"

definition report :: "err \<Rightarrow> 'n longpoll \<Rightarrow> 'n longpoll" where
  "report e s = s\<lparr>lp_errs := sendErr e (lp_errs s)\<rparr>"

subsection \<open>main\<close>

definition wait_failed :: "peer \<Rightarrow> err \<Rightarrow> 'n longpoll \<Rightarrow> 'n longpoll" where
  "wait_failed p e = exits (Some (Wrapf (''wait for '' @ peer_name p @ '' initial sync'') e))"

text \<open>After Bob's first pass \<open>main\<close> starts the monitor and the writer and arms its timer.\<close>

definition initial_sync_done :: "peer \<Rightarrow> 'n longpoll \<Rightarrow> 'n longpoll" where
  "initial_sync_done p s =
     (let s = snd (in_proc (log_Printf ''%s initial sync finished'' [peer_name p]) s)
      in case p of
           Alice \<Rightarrow> s\<lparr>lp_main := WaitingFor Bob\<rparr>
         | Bob \<Rightarrow>
             s\<lparr>lp_main := Receiving [], lp_monitor := Monitoring, lp_writer := WriterAt 0\<rparr>)"

definition main_takes_event :: "peer \<Rightarrow> 'n longpoll \<Rightarrow> 'n longpoll" where
  "main_takes_event p s =
     (case receive_event p s of
        None \<Rightarrow> s
      | Some None \<Rightarrow> wait_failed p (Sentinel ErrClosed) s
      | Some (Some event) \<Rightarrow>
          (case initial_sync_verdict (peer_name p) event of
             None \<Rightarrow> event_read p s
           | Some (Inr _) \<Rightarrow> initial_sync_done p (event_read p s)
           | Some (Inl e) \<Rightarrow> wait_failed p e (event_read p s)))"

definition main_picks :: "receive_pick \<Rightarrow> 'n longpoll \<Rightarrow> 'n longpoll option" where
  "main_picks p s =
     (case p of
        ItemReceived item \<Rightarrow>
          (case lp_received s of
             [] \<Rightarrow> None
           | first # rest \<Rightarrow> if first = item then Some (s\<lparr>lp_received := rest\<rparr>) else None)
      | ErrReceived e \<Rightarrow>
          (case lp_errs s of
             [] \<Rightarrow> None
           | first # rest \<Rightarrow> if first = e then Some (s\<lparr>lp_errs := rest\<rparr>) else None)
      | TimedOut \<Rightarrow> Some s)"

text \<open>One iteration of the receive loop: its condition, then the \<open>select\<close>.\<close>

definition main_receives :: "receive_pick \<Rightarrow> string list \<Rightarrow> 'n longpoll \<Rightarrow> 'n longpoll" where
  "main_receives p seen s =
     (if length seen < length itemKeys then
        (case main_picks p s of
           None \<Rightarrow> s
         | Some s \<Rightarrow>
             (case receive_step seen p of
                Inl e \<Rightarrow> exits (Some e) s
              | Inr seen \<Rightarrow> s\<lparr>lp_main := Receiving seen\<rparr>))
      else
        (snd (in_proc (seqM (cancel Alice) (cancel Bob)) s))\<lparr>lp_main := Stopping\<rparr>)"

text \<open>\<open>waitDone\<close> ends when the engine's goroutine is done or after five seconds.\<close>

definition waitDone :: "peer \<Rightarrow> 'n longpoll \<Rightarrow> 'n longpoll" where
  "waitDone p s =
     (if lp_done s p then s
      else snd (in_proc (log_Printf ''%s Run did not stop within 5s'' [peer_name p]) s))"

text \<open>The end of \<open>main\<close> and its deferred calls.\<close>

definition main_returns :: "'n longpoll_world platform \<Rightarrow> 'n longpoll \<Rightarrow> 'n longpoll" where
  "main_returns P s =
     (let s = waitDone Bob (waitDone Alice s)
      in exits None (snd (in_proc
           (seqM (close_engine P Bob ''bob sync engine'')
           (seqM (close_engine P Alice ''alice sync engine'')
           (seqM (cleanupStoreFiles P (demoStorePath P ''bob'' (lp_runID s)))
           (cleanupStoreFiles P (demoStorePath P ''alice'' (lp_runID s)))))) s)))"

subsection \<open>The writer\<close>

definition world_now :: "'w platform \<Rightarrow> ('w process, gotime) eff" where
  "world_now P = in_world (\<lambda>w. case pf_now P w of (t, w) \<Rightarrow> (Inr t, w))"

text \<open>
  The writer wakes for the key with index \<open>i\<close>: before all but the first it slept, and returns
  if its context is done.
\<close>

definition writer_wakes ::
  "'n longpoll_world platform \<Rightarrow> bool \<Rightarrow> nat \<Rightarrow> 'n longpoll \<Rightarrow> 'n longpoll" where
  "writer_wakes P cancelled i s =
     (if length itemKeys \<le> i \<or> 0 < i \<and> cancelled then s\<lparr>lp_writer := WriterReturned\<rparr>
      else
        let key = itemKeys ! i
        in case in_proc (bindM (world_now P) (\<lambda>now.
                bindM (world_now P) (\<lambda>sentAt.
                let val = ''alice value '' @ dec_of_nat (i + 1) @ '' at '' @
                      pf_FormatTime P ''RFC3339Nano'' now
                in seqM (log_Printf ''alice wrote %s=%q'' [key, val])
                     (bindM (attempt (in_world (vb_Set aliceBackend key val))) (\<lambda>r.
                      ret (sentAt, r)))))) s of
             (Inl e, s) \<Rightarrow> s
           | (Inr (sentAt, r), s) \<Rightarrow>
               let s = s\<lparr>lp_sentTimes := AList.update key sentAt (lp_sentTimes s)\<rparr>
               in (case r of
                     Inl e \<Rightarrow> (report (Wrapf ''alice write %s'' e) s)\<lparr>lp_writer := WriterReturned\<rparr>
                   | Inr _ \<Rightarrow> s\<lparr>lp_writer := WriterSyncs i\<rparr>))"

definition writer_syncs :: "nat \<Rightarrow> 'n longpoll \<Rightarrow> 'n longpoll" where
  "writer_syncs i s =
     (case in_proc (on_engine Alice SyncNow) s of
        (Inl e, s) \<Rightarrow> (report (Wrapf ''alice sync %s'' e) s)\<lparr>lp_writer := WriterReturned\<rparr>
      | (Inr _, s) \<Rightarrow> s\<lparr>lp_writer := WriterAt (Suc i)\<rparr>)"

subsection \<open>The monitor\<close>

definition monitor_reads ::
  "'n longpoll_world platform \<Rightarrow> string \<Rightarrow> 'n longpoll \<Rightarrow> 'n longpoll" where
  "monitor_reads P key s =
     (case in_proc (in_world (vb_Get bobBackend key)) s of
        (Inl e, s) \<Rightarrow> (report (Wrapf ''bob read %s'' e) s)\<lparr>lp_monitor := MonitorReturned\<rparr>
      | (Inr val, s) \<Rightarrow>
          (case (case map_of (lp_sentTimes s) key of
                   None \<Rightarrow> (Inr ''unknown latency'', s)
                 | Some sentAt \<Rightarrow> in_proc (bindM (world_now P) (\<lambda>now.
                     ret (pf_FormatDuration P (now - sentAt)))) s) of
             (Inl e, s) \<Rightarrow> s
           | (Inr elapsed, s) \<Rightarrow>
               (snd (in_proc (log_Printf ''bob received %s=%q after %s'' [key, val, elapsed]) s))
                 \<lparr>lp_monitor := Sending \<lparr>ri_key = key, ri_value = val\<rparr>\<rparr>))"

definition monitor_takes_event ::
  "'n longpoll_world platform \<Rightarrow> 'n longpoll \<Rightarrow> 'n longpoll" where
  "monitor_takes_event P s =
     (case receive_event Bob s of
        None \<Rightarrow> s
      | Some None \<Rightarrow> s\<lparr>lp_monitor := MonitorReturned\<rparr>
      | Some (Some event) \<Rightarrow>
          let s = event_read Bob s
          in (case monitor_event event of
                MonitorIgnores \<Rightarrow> s
              | MonitorLogsWatchFailure \<Rightarrow>
                  snd (in_proc (log_Printf ''bob namespace watch warning: %v'' []) s)
              | MonitorFails e \<Rightarrow> (report e s)\<lparr>lp_monitor := MonitorReturned\<rparr>
              | MonitorReads key \<Rightarrow> monitor_reads P key s))"

text \<open>The send on \<open>received\<close> blocks while the channel is full.\<close>

definition monitor_sends :: "receivedItem \<Rightarrow> 'n longpoll \<Rightarrow> 'n longpoll" where
  "monitor_sends item s =
     (if length (lp_received s) < received_capacity
      then s\<lparr>lp_received := lp_received s @ [item], lp_monitor := Monitoring\<rparr>
      else s)"

subsection \<open>Steps\<close>

datatype action =
    EngineRuns background
  | EngineReturns peer
  | MainTakesEvent
  | MainWaitTimesOut err
  | MainReceives receive_pick
  | MainReturns
  | WriterWakes bool
  | WriterCallsSync
  | MonitorTakesEvent
  | MonitorSends
  | MonitorCancelled

text \<open>The goroutine of \<open>runEngine\<close> after \<open>Run\<close> has returned.\<close>

definition engine_returns :: "peer \<Rightarrow> 'n longpoll \<Rightarrow> 'n longpoll" where
  "engine_returns p s =
     (case pr_engines (lp_proc s) p of
        None \<Rightarrow> s
      | Some en \<Rightarrow>
          (case en_loop en of
             Returned e \<Rightarrow>
               if lp_done s p then s
               else s\<lparr>lp_errs := runEngine_reports (peer_name p) e (lp_errs s),
                      lp_done := (lp_done s)(p := True)\<rparr>
           | _ \<Rightarrow> s))"

text \<open>The context of \<open>main\<close> is cancelled by a deferred call, when \<open>main\<close> is about to exit.\<close>

definition main_exited :: "'n longpoll \<Rightarrow> bool" where
  "main_exited s \<longleftrightarrow> (\<exists>e. lp_main s = Exited e)"

definition longpoll_step ::
  "'n longpoll_world platform \<Rightarrow> action \<Rightarrow> 'n longpoll \<Rightarrow> 'n longpoll" where
  "longpoll_step P a s =
     (case a of
        EngineRuns b \<Rightarrow> snd (in_proc (background_step b) s)
      | EngineReturns p \<Rightarrow> engine_returns p s
      | MainTakesEvent \<Rightarrow>
          (case lp_main s of WaitingFor p \<Rightarrow> main_takes_event p s | _ \<Rightarrow> s)
      | MainWaitTimesOut e \<Rightarrow> (case lp_main s of WaitingFor p \<Rightarrow> wait_failed p e s | _ \<Rightarrow> s)
      | MainReceives p \<Rightarrow> (case lp_main s of Receiving seen \<Rightarrow> main_receives p seen s | _ \<Rightarrow> s)
      | MainReturns \<Rightarrow> (case lp_main s of Stopping \<Rightarrow> main_returns P s | _ \<Rightarrow> s)
      | WriterWakes cancelled \<Rightarrow>
          (case lp_writer s of
             WriterAt i \<Rightarrow> if cancelled \<longrightarrow> main_exited s then writer_wakes P cancelled i s else s
           | _ \<Rightarrow> s)
      | WriterCallsSync \<Rightarrow> (case lp_writer s of WriterSyncs i \<Rightarrow> writer_syncs i s | _ \<Rightarrow> s)
      | MonitorTakesEvent \<Rightarrow>
          (case lp_monitor s of Monitoring \<Rightarrow> monitor_takes_event P s | _ \<Rightarrow> s)
      | MonitorSends \<Rightarrow> (case lp_monitor s of Sending item \<Rightarrow> monitor_sends item s | _ \<Rightarrow> s)
      | MonitorCancelled \<Rightarrow>
          (case lp_monitor s of
             Monitoring \<Rightarrow> if main_exited s then s\<lparr>lp_monitor := MonitorReturned\<rparr> else s
           | _ \<Rightarrow> s))"

inductive longpoll_reaches ::
  "'n longpoll_world platform \<Rightarrow> 'n longpoll \<Rightarrow> 'n longpoll \<Rightarrow> bool"
  for P :: "'n longpoll_world platform" and s :: "'n longpoll" where
  Start: "longpoll_reaches P s s"
| Step: "longpoll_reaches P s t \<Longrightarrow> longpoll_reaches P s (longpoll_step P a t)"

definition longpoll_run ::
  "'n longpoll_world platform \<Rightarrow> action list \<Rightarrow> 'n longpoll \<Rightarrow> 'n longpoll" where
  "longpoll_run P actions s = fold (longpoll_step P) actions s"

lemma longpoll_run_reaches: "longpoll_reaches P s (longpoll_run P actions s)"
proof (induction actions rule: rev_induct)
  case Nil
  then show ?case by (simp add: longpoll_run_def longpoll_reaches.Start)
next
  case (snoc a actions)
  then show ?case by (simp add: longpoll_run_def longpoll_reaches.Step)
qed

end
