(* ===== verification/Demo_Runs.thy ===== *)
theory Demo_Runs
  imports Demo Longpoll_Demo
begin

text \<open>
  The composition of two engines: whatever the main goroutine and the background goroutines of
  a demonstration program do, each engine only ever moves by its own calls and by changes of
  the shared world. \<open>process_step\<close> is that relation between two states of the process; every
  part of both programs stays in it, so what is known of all histories of one engine
  (\<open>reaches\<close>) holds for both engines of the programs.
\<close>

lemma reaches_trans: "reaches E t u \<Longrightarrow> reaches E s t \<Longrightarrow> reaches E s u"
  by (induction rule: reaches.induct) (auto intro: reaches.Call)

lemma reaches_call: "engine_call E s t \<Longrightarrow> reaches E s t"
  by (rule reaches.Call [OF reaches.Start])

lemma reaches_world: "reaches E s (s\<lparr>st_world := w\<rparr>)"
  by (rule reaches_call) (rule engine_call.World)

definition process_step :: "'w process \<Rightarrow> 'w process \<Rightarrow> bool" where
  "process_step s t \<longleftrightarrow>
     (\<forall>p. case pr_engines s p of
            None \<Rightarrow> pr_engines t p = None
          | Some en \<Rightarrow> \<exists>en'. pr_engines t p = Some en' \<and> en_env en' = en_env en \<and>
              reaches (en_env en) (en_st en) (en_st en'))"

lemma process_stepD:
  assumes "process_step s t" and "pr_engines s p = Some en"
  obtains en' where "pr_engines t p = Some en'" and "en_env en' = en_env en"
    and "reaches (en_env en) (en_st en) (en_st en')"
  using assms(1) [unfolded process_step_def, rule_format, of p] assms(2) by auto

lemma process_step_None: "process_step s t \<Longrightarrow> pr_engines s p = None \<Longrightarrow> pr_engines t p = None"
  by (auto simp: process_step_def dest: spec [where x = p])

lemma process_step_same: "pr_engines t = pr_engines s \<Longrightarrow> process_step s t"
  by (simp add: process_step_def reaches.Start split: option.split)

lemma process_step_trans:
  assumes "process_step s t" and "process_step t u"
  shows "process_step s u"
  unfolding process_step_def
proof
  fix p
  show "case pr_engines s p of
            None \<Rightarrow> pr_engines u p = None
          | Some en \<Rightarrow> \<exists>en'. pr_engines u p = Some en' \<and> en_env en' = en_env en \<and>
              reaches (en_env en) (en_st en) (en_st en')"
  proof (cases "pr_engines s p")
    case None
    then show ?thesis using assms by (simp add: process_step_None)
  next
    case (Some en)
    obtain en' where t: "pr_engines t p = Some en'" "en_env en' = en_env en"
      "reaches (en_env en) (en_st en) (en_st en')" using process_stepD [OF assms(1) Some] .
    obtain en'' where u: "pr_engines u p = Some en''" "en_env en'' = en_env en'"
      "reaches (en_env en') (en_st en') (en_st en'')" using process_stepD [OF assms(2) t(1)] .
    show ?thesis using Some t u by (simp add: reaches_trans)
  qed
qed

interpretation process: step_relation process_step
  by unfold_locales (simp add: process_step_same, fact process_step_trans)

named_theorems process_calls

lemma stays_in_world [process_calls]: "stays process_step (in_world m)"
  by (auto simp: stays_def in_world_def intro: process_step_same split: prod.split)

lemma stays_log_Printf [process_calls]: "stays process_step (log_Printf f args)"
  by (simp add: stays_def log_Printf_def writes_def process_step_same)

lemma stays_update_engine [process_calls]:
  assumes "\<And>en. en_env (f en) = en_env en" and "\<And>en. en_st (f en) = en_st en"
  shows "stays process_step (update_engine p f)"
  using assms
  by (auto simp: stays_def update_engine_def writes_def process_step_def reaches.Start
      split: option.split)

lemma stays_on_engine:
  assumes "\<And>E s. reaches E s (snd (m E s))"
  shows "stays process_step (on_engine p m)"
proof (rule staysI)
  fix s
  show "process_step s (snd (on_engine p m s))"
  proof (cases "pr_engines s p")
    case None
    then show ?thesis by (simp add: on_engine_def process_step_same)
  next
    case (Some en)
    let ?s = "(en_st en)\<lparr>st_world := pr_world s\<rparr>"
    obtain r t where m: "m (en_env en) ?s = (r, t)" by fastforce
    have "reaches (en_env en) (en_st en) t"
      using reaches_trans [OF assms reaches_world, of "en_env en" "en_st en" "pr_world s"] m by simp
    then show ?thesis
      using Some m by (simp add: on_engine_def process_step_def reaches.Start split: option.split)
  qed
qed

lemma stays_call: "(\<And>E s. engine_call E s (snd (m E s))) \<Longrightarrow> stays process_step (on_engine p m)"
  by (intro stays_on_engine reaches_call)

lemma stays_calls [process_calls]:
  "stays process_step (on_engine p SyncNow)"
  "stays process_step (on_engine p DefaultNamespace)"
  "stays process_step (on_engine p CreateSharedNamespace)"
  "stays process_step (on_engine p Engine_ListNamespaces)"
  "stays process_step (on_engine p (\<lambda>E. JoinNamespace E n))"
  "stays process_step (on_engine p (\<lambda>E. CreateInvite E n io))"
  "stays process_step (on_engine p (\<lambda>E. SubmitJoinRequest E tok jo))"
  "stays process_step (on_engine p (\<lambda>E. JoinRequests E n))"
  "stays process_step (on_engine p (\<lambda>E. ApproveJoinRequest E n tok entry))"
  "stays process_step (on_engine p (\<lambda>E. ResolveConflictWithValue E n c b key (v :: string)))"
  "stays process_step (on_engine p (\<lambda>E. runRound E rs w))"
  by (rule stays_call, rule engine_call.intros)+

lemma stays_served_watch [process_calls]:
  "stays process_step (on_engine p (\<lambda>E. served_watchRound E rs sending waiting ctx sleep n))"
  unfolding served_watchRound_def by (rule stays_call) (rule engine_call.WatchRound)

lemma stays_first_sync [process_calls]:
  "stays process_step (on_engine p (\<lambda>E. runSync E False (resetBackoff (env_cfg E))))"
proof (rule stays_call)
  fix E :: "'w env" and s
  have "snd (runRound E (resetBackoff (env_cfg E)) TimerFired s) =
      snd (runSync E False (resetBackoff (env_cfg E)) s)"
    by (auto simp: runRound_def bindM_def ret_def split: prod.split sum.split)
  then show "engine_call E s (snd (runSync E False (resetBackoff (env_cfg E)) s))"
    using engine_call.RunRound [of E s "resetBackoff (env_cfg E)" TimerFired] by simp
qed

lemma stays_Engine_Close [process_calls]:
  fixes d :: "'w sql_driver"
  shows "stays process_step (on_engine p (\<lambda>_. Engine_Close d path))"
proof (rule stays_on_engine)
  fix E :: "'w env" and s :: "'w st"
  have "reaches E s (snd (outside m (snd (Close s))))" for m :: "('w, unit) eff"
    using reaches_trans [OF reaches_world reaches_call [OF engine_call.Close], of E s]
    by (simp add: outside_def split: prod.split)
  then show "reaches E s (snd (Engine_Close d path s))"
    by (cases "st_closed s")
      (simp_all add: Engine_Close_def reads_def seqM_def bindM_def ret_def reaches.Start
        Close_def writes_def)
qed

section \<open>Collections of the programs\<close>

lemma go_map_id: "(\<And>k v. (k, v) \<in> set m \<Longrightarrow> go_string k) \<Longrightarrow> go_map m = m"
  by (auto simp: go_map_def filter_id_conv)

definition string_collection ::
  "string \<Rightarrow> string \<Rightarrow> string MergeFunc \<Rightarrow> ('w, string) ValueBackend \<Rightarrow> 'w registeredCollection" where
  "string_collection n name merge b = makeRegisteredCollection n name StringCodec merge b []"

lemma go_collection_memory:
  assumes "go_string name"
  shows "go_collection (string_collection n name merge (focus_backend get put MemoryValueBackend))"
  using assms
  by (auto simp: go_collection_def string_collection_def makeRegisteredCollection_def
      focus_backend_def focus_def MemoryValueBackend_def mem_Keys_def mem_Snapshot_def reads_def
      bindM_def lift_result_def encode_strings go_map_def)

lemma go_collection_scoped:
  assumes "go_string name" and "\<forall>k \<in> set keys. go_string k"
  shows "go_collection
    (string_collection n name merge (focus_backend get put (scopedMemoryBackend keys)))"
  using assms
  by (auto simp: go_collection_def string_collection_def makeRegisteredCollection_def
      focus_backend_def focus_def MemoryValueBackend_def scopedMemoryBackend_def mem_Snapshot_def
      reads_def ret_def bindM_def lift_result_def encode_strings go_map_def)

lemma stays_open_strings:
  assumes "go_collection (string_collection n name merge b)"
  shows "stays process_step (open_strings p n name merge b)"
  unfolding open_strings_def
  by (rule stays_call)
    (use engine_call.Register [OF assms] in
      \<open>simp add: OpenCollection_def string_collection_def\<close>)

lemmas backends =
  aliceAppNotes_def sharedNotesBackend_def bobSharedBackend_def aliceConflictBackend_def
  bobConflictBackend_def aliceBackend_def bobBackend_def

lemma stays_collections [process_calls]:
  "stays process_step (open_strings p n ''notes'' merge aliceAppNotes)"
  "stays process_step (open_strings p n ''drafts'' merge sharedNotesBackend)"
  "stays process_step (open_strings p n ''drafts'' merge bobSharedBackend)"
  "stays process_step (open_strings p n ''conflict-demo'' merge aliceConflictBackend)"
  "stays process_step (open_strings p n ''conflict-demo'' merge bobConflictBackend)"
  "stays process_step (open_strings p n collectionName merge aliceBackend)"
  "stays process_step (open_strings p n collectionName merge bobBackend)"
  unfolding backends
  by (rule stays_open_strings, rule go_collection_memory go_collection_scoped;
      simp add: go_string_def itemKeys_def collectionName_def)+

section \<open>Steps of the process\<close>

lemma stays_or_fatal [process_calls]: "stays process_step m \<Longrightarrow> stays process_step (or_fatal m msg)"
  unfolding or_fatal_def by (intro process.combinators)

lemma stays_closeOnExit [process_calls]:
  "stays process_step m \<Longrightarrow> stays process_step (closeOnExit name m)"
  unfolding closeOnExit_def by (intro process.combinators process_calls)

lemma stays_close_engine [process_calls]: "stays process_step (close_engine P p name)"
  unfolding close_engine_def
  by (rule stays_closeOnExit, rule staysI)
    (auto intro: staysD [OF stays_Engine_Close] simp: process.R_refl split: option.split)

lemma stays_go_Run [process_calls]:
  "stays process_step (go_Run p)" "stays process_step (cancel p)"
  unfolding go_Run_def cancel_def by (simp_all add: process_calls)

lemma stays_run_step: "stays process_step (run_step p rs w)"
proof (rule staysI)
  fix s :: "'w process"
  have first: "stays process_step (seqM (on_engine p (\<lambda>E. runSync E False (resetBackoff (env_cfg E))))
      (update_engine p (\<lambda>en. en\<lparr>en_loop := l en\<rparr>)))" for l :: "'w engine_proc \<Rightarrow> run_loop"
    by (intro process.combinators process_calls) simp_all
  have round: "stays process_step (bindM (attempt (on_engine p (\<lambda>E. runRound E rs w))) (\<lambda>r.
      update_engine p (\<lambda>en. en\<lparr>en_loop := after_round watching r\<rparr>)))" for watching
    by (intro process.combinators process_calls) simp_all
  show "process_step s (snd (run_step p rs w s))"
    using staysD [OF first] staysD [OF round]
    by (auto simp: run_step_def process.R_refl split: option.split run_loop.split)
qed

lemma stays_watch_step: "stays process_step (watch_step p rs sending waiting ctx sleep n)"
proof (rule staysI)
  fix s :: "'w process"
  have "stays process_step (bindM (attempt (on_engine p (\<lambda>E.
      served_watchRound E rs sending waiting ctx sleep n))) (\<lambda>r.
      update_engine p (\<lambda>en. en\<lparr>en_loop :=
        Looping (case r of Inr (Some _) \<Rightarrow> True | _ \<Rightarrow> False)\<rparr>)))"
    by (intro process.combinators process_calls) simp_all
  from staysD [OF this]
  show "process_step s (snd (watch_step p rs sending waiting ctx sleep n s))"
    by (auto simp: watch_step_def process.R_refl split: option.split run_loop.split bool.split)
qed

lemma stays_background_step [process_calls]: "stays process_step (background_step b)"
  by (cases b) (simp_all add: stays_run_step stays_watch_step)

lemma stays_background [process_calls]: "stays process_step run_background"
proof (rule staysI)
  fix s :: "'w process"
  have "stays process_step (forM batch background_step)" for batch
    by (intro process.forM process_calls)
  then have batches: "process_step (s\<lparr>pr_schedule := rest\<rparr>)
      (snd (forM batch background_step (s\<lparr>pr_schedule := rest\<rparr>)))" for batch rest
    by (rule staysD)
  have "process_step s (snd (forM batch background_step (s\<lparr>pr_schedule := rest\<rparr>)))" for batch rest
    by (rule process_step_trans [OF process_step_same batches]) simp
  then show "process_step s (snd (run_background s))"
    by (simp add: run_background_def process.R_refl split: list.split)
qed

lemma stays_main_call [process_calls]:
  "stays process_step m \<Longrightarrow> stays process_step (main_call m msg)"
  unfolding main_call_def by (intro process.combinators process_calls)

lemma stays_invite_bob [process_calls]: "stays process_step (invite_bob origin shared)"
  unfolding invite_bob_def by (intro process.combinators process_calls)

section \<open>The parts of the programs\<close>

lemma stays_demo [process_calls]:
  "stays process_step demo_defaults" "stays process_step (demo_notes n)"
  "stays process_step (demo_share origin)" "stays process_step (demo_drafts n m)"
  "stays process_step (demo_conflict n m)" "stays process_step (demo_resolve m)"
  "stays process_step demo_finish" "stays process_step (demo_deferred P)"
  unfolding demo_defaults_def demo_notes_def demo_share_def demo_drafts_def demo_conflict_def
    demo_resolve_def demo_finish_def demo_deferred_def
  by (intro process.combinators process_calls)+

lemma stays_longpoll [process_calls]:
  "stays process_step (longpoll_share origin)" "stays process_step (longpoll_collections n m)"
  "stays process_step (cleanupStoreFiles P path)" "stays process_step (world_now P)"
  unfolding longpoll_share_def longpoll_collections_def cleanupStoreFiles_def world_now_def
  by (intro process.combinators process_calls)+

end
