(* ===== verification/Demo_Soundness.thy ===== *)
theory Demo_Soundness
  imports Demo_Runs
begin

text \<open>
  Both engines of both demonstration programs are in states of their histories, whatever the
  schedule of the background goroutines and whatever the world answers: \<open>sound_process\<close> holds
  from the start and is kept by opening, by every part of the programs and by every step of
  the goroutines of the long-poll program.
\<close>

section \<open>Two engines over one world\<close>

text \<open>
  What is assumed of the platform: the primitives as in \<open>crypto_ok\<close>, and that a database file
  holds what an engine stored there (a new file holds nothing).
\<close>

definition platform_ok :: "'w platform \<Rightarrow> bool" where
  "platform_ok P \<longleftrightarrow> crypto_ok (pf_crypto P) \<and>
     (\<forall>path w. db_wf (sd_tables (pf_driver P) path w) \<and>
        (\<forall>E :: 'w env. env_crypto E = pf_crypto P \<longrightarrow>
           items_ok E (sd_tables (pf_driver P) path w)))"

text \<open>Each engine was opened on a consistent database and has only made engine calls since.\<close>

definition sound_engine :: "'w platform \<Rightarrow> 'w engine_proc \<Rightarrow> bool" where
  "sound_engine P en \<longleftrightarrow>
     (\<exists>cfg E db w s. fst (Open cfg E db w) = Inr (en_env en, s) \<and> env_crypto E = pf_crypto P \<and>
        db_wf db \<and> items_ok (en_env en) db \<and> reaches (en_env en) s (en_st en))"

definition sound_process :: "'w platform \<Rightarrow> 'w process \<Rightarrow> bool" where
  "sound_process P s \<longleftrightarrow> (\<forall>p en. pr_engines s p = Some en \<longrightarrow> sound_engine P en)"

lemma sound_engine_ok:
  assumes "platform_ok P" and "sound_engine P en"
  shows "engine_ok (en_env en) (en_st en) \<and> config_ok (env_cfg (en_env en))"
proof -
  obtain cfg E db w s where o: "fst (Open cfg E db w) = Inr (en_env en, s)"
    "env_crypto E = pf_crypto P" "db_wf db" "items_ok (en_env en) db"
    and r: "reaches (en_env en) s (en_st en)"
    using assms(2) by (auto simp: sound_engine_def)
  have "engine_ok (en_env en) s \<and> config_ok (env_cfg (en_env en))"
    using Open_ok [OF o(1,3) _ o(4)] o(2) assms(1) by (simp add: platform_ok_def)
  then show ?thesis using reaches_ok [OF r] by simp
qed

lemma sound_process_step:
  assumes "process_step s t" and "sound_process P s"
  shows "sound_process P t"
  unfolding sound_process_def
proof (intro allI impI)
  fix p en'
  assume t: "pr_engines t p = Some en'"
  then obtain en where s: "pr_engines s p = Some en"
    using process_step_None [OF assms(1)] by fastforce
  obtain en'' where "pr_engines t p = Some en''" "en_env en'' = en_env en"
    "reaches (en_env en) (en_st en) (en_st en'')" using process_stepD [OF assms(1) s] .
  with t have en': "en_env en' = en_env en" "reaches (en_env en) (en_st en) (en_st en')" by simp_all
  have "sound_engine P en" using assms(2) s by (simp add: sound_process_def)
  then show "sound_engine P en'"
    unfolding sound_engine_def en'(1) by (blast intro: reaches_trans [OF en'(2)])
qed

interpretation soundness: step_relation "\<lambda>s t. sound_process P s \<longrightarrow> sound_process P t" for P
  by unfold_locales auto

lemma stays_sound:
  "stays process_step m \<Longrightarrow> stays (\<lambda>s t. sound_process P s \<longrightarrow> sound_process P t) m"
  by (simp add: stays_def) (blast intro: sound_process_step)

lemma Open_crypto: "fst (Open cfg E db w) = Inr (E', s) \<Longrightarrow> env_crypto E' = env_crypto E"
  by (auto simp: Open_def Let_def split: sum.splits prod.splits if_splits)

lemma stays_open_engine:
  fixes P :: "'w platform"
  assumes "platform_ok P" and "\<exists>path w. db = sd_tables (pf_driver P) path w"
  shows "stays (\<lambda>s t. sound_process P s \<longrightarrow> sound_process P t)
    (open_engine P client cfg p name identity path db)"
proof (rule staysI, rule impI)
  fix s :: "'w process"
  assume s: "sound_process P s"
  let ?E = "engine_env P client cfg identity"
  obtain r w where o: "Open cfg ?E db (pr_world s) = (r, w)" by fastforce
  let ?s = "s\<lparr>pr_world := w\<rparr>"
  have sw: "sound_process P ?s" using s by (simp add: sound_process_def)
  show "sound_process P (snd (open_engine P client cfg p name identity path db s))"
  proof (cases r)
    case (Inl e)
    have "stays process_step (seqM (closeOnExit n (in_world m)) (raise e))" for n e
      and m :: "('w, unit) eff"
      by (intro process.combinators process_calls)
    from sound_process_step [OF staysD [OF this] sw] show ?thesis
      using o Inl by (simp add: open_engine_def bindM_def attempt_def in_world_def)
  next
    case (Inr x)
    obtain E s0 where x: "x = (E, s0)" by fastforce
    with o Inr have op: "fst (Open cfg ?E db (pr_world s)) = Inr (E, s0)" by simp
    then have crypto: "env_crypto E = pf_crypto P" by (simp add: Open_crypto engine_env_def)
    then have "db_wf db" "items_ok E db" using assms by (auto simp: platform_ok_def)
    then have "sound_engine P \<lparr>en_env = E, en_st = s0, en_path = path, en_loop = NotStarted,
        en_cancelled = False\<rparr>"
      unfolding sound_engine_def
      by (intro exI [of _ cfg] exI [of _ ?E] exI [of _ db] exI [of _ "pr_world s"] exI [of _ s0])
        (use op in \<open>simp add: engine_env_def reaches.Start\<close>)
    then show ?thesis
      using o Inr x sw
      by (simp add: open_engine_def bindM_def attempt_def in_world_def writes_def sound_process_def)
  qed
qed

lemma returns_Store_Open:
  "returns (\<lambda>db. \<exists>path w. db = sd_tables (pf_driver P) path w)
     (or_fatal (in_world (Store_Open (pf_driver P) path)) msg)"
  by (auto simp: returns_def or_fatal_def in_world_def wp_def bindM_def attempt_def ret_def
      raise_def split: prod.splits sum.splits dest!: Store_Open_content)

lemma stays_open_engines:
  assumes "platform_ok P"
  shows "stays (\<lambda>s t. sound_process P s \<longrightarrow> sound_process P t)
    (open_engines P client cfg alicePath bobPath aliceLabel bobLabel)"
proof -
  have "stays process_step (dummy_identity P label msg)" for label msg
    unfolding dummy_identity_def by (intro process.combinators process_calls)
  note identity = stays_sound [OF this]
  note store = stays_bindM_result [OF soundness.step_relation_axioms stays_sound returns_Store_Open,
      OF stays_or_fatal [OF stays_in_world]]
  show ?thesis
    unfolding open_engines_def
    by (intro store soundness.bindM soundness.seqM identity stays_open_engine assms)
qed

lemma stays_demo_setup:
  assumes "platform_ok P"
  shows "stays (\<lambda>s t. sound_process P s \<longrightarrow> sound_process P t) (demo_setup P)"
  unfolding demo_setup_def Let_def
  by (intro soundness.bindM soundness.seqM stays_open_engines assms stays_sound process.combinators
      process_calls)

lemma stays_demo_main:
  assumes "platform_ok P"
  shows "stays (\<lambda>s t. sound_process P s \<longrightarrow> sound_process P t) (demo_main P)"
  unfolding demo_main_def
  by (intro soundness.bindM soundness.seqM soundness.case_prodM stays_demo_setup assms stays_sound
      process_calls)

lemma stays_longpoll_setup:
  assumes "platform_ok P"
  shows "stays (\<lambda>s t. sound_process P s \<longrightarrow> sound_process P t) (longpoll_setup P)"
  unfolding longpoll_setup_def Let_def
  by (intro soundness.bindM soundness.seqM stays_open_engines assms stays_sound process.combinators
      process_calls)

lemma stays_longpoll_start:
  assumes "platform_ok P"
  shows "stays (\<lambda>s t. sound_process P s \<longrightarrow> sound_process P t) (longpoll_start P)"
  unfolding longpoll_start_def
  by (intro soundness.bindM soundness.seqM soundness.case_prodM stays_longpoll_setup assms
      stays_sound process.ret process_calls)

lemma sound_start: "sound_process P (start_process schedule w)"
  by (simp add: sound_process_def start_process_def)

section \<open>Steps of the long-poll program\<close>

lemma lp_proc_simps [simp]:
  "lp_proc (exits r s) = lp_proc s" "lp_proc (report e s) = lp_proc s"
  "lp_proc (event_read p s) = lp_proc s" "lp_proc (wait_failed p e s) = lp_proc s"
  "lp_proc (snd (in_proc m s)) = snd (m (lp_proc s))"
  by (simp_all add: exits_def report_def event_read_def wait_failed_def in_proc_def
      split: prod.split)

lemma in_proc_result: "in_proc m s = (r, t) \<Longrightarrow> lp_proc t = snd (m (lp_proc s))"
  by (auto simp: in_proc_def split: prod.splits)

lemma step_log: "process_step s (snd (log_Printf f args s))"
  by (rule staysD [OF stays_log_Printf])

lemma step_main_takes_event: "process_step (lp_proc s) (lp_proc (main_takes_event p s))"
  by (auto simp: main_takes_event_def initial_sync_done_def Let_def process.R_refl step_log
      split: option.split sum.split peer.split)

lemma step_main_receives: "process_step (lp_proc s) (lp_proc (main_receives p seen s))"
proof -
  have "stays process_step (seqM (cancel Alice) (cancel Bob) :: ('n longpoll_world process, unit) eff)"
    by (intro process.combinators process_calls)
  then have "process_step (lp_proc s) (snd (seqM (cancel Alice) (cancel Bob) (lp_proc s)))"
    by (rule staysD)
  then show ?thesis
    by (auto simp: main_receives_def main_picks_def process.R_refl
        split: option.split sum.split receive_pick.split list.split)
qed

lemma step_waitDone: "process_step (lp_proc s) (lp_proc (waitDone p s))"
  by (simp add: waitDone_def process.R_refl step_log)

lemma step_main_returns: "process_step (lp_proc s) (lp_proc (main_returns P s))"
proof -
  let ?t = "waitDone Bob (waitDone Alice s)"
  have "stays process_step
      (seqM (close_engine P Bob ''bob sync engine'')
      (seqM (close_engine P Alice ''alice sync engine'')
      (seqM (cleanupStoreFiles P bob) (cleanupStoreFiles P alice))))" for bob alice
    by (intro process.combinators process_calls)
  from staysD [OF this] have "process_step (lp_proc ?t) (lp_proc (main_returns P s))"
    by (simp add: main_returns_def Let_def)
  then show ?thesis
    by (blast intro: process_step_trans step_waitDone)
qed

lemma step_writer_wakes: "process_step (lp_proc s) (lp_proc (writer_wakes P cancelled i s))"
proof -
  let ?m = "bindM (world_now P) (\<lambda>now.
                bindM (world_now P) (\<lambda>sentAt.
                let val = ''alice value '' @ dec_of_nat (i + 1) @ '' at '' @
                      pf_FormatTime P ''RFC3339Nano'' now
                in seqM (log_Printf ''alice wrote %s=%q'' [itemKeys ! i, val])
                     (bindM (attempt (in_world (vb_Set aliceBackend (itemKeys ! i) val))) (\<lambda>r.
                      ret (sentAt, r)))))"
  obtain r t where m: "in_proc ?m s = (r, t)" by fastforce
  have "stays process_step ?m" unfolding Let_def by (intro process.combinators process_calls)
  from staysD [OF this, of "lp_proc s"] have "process_step (lp_proc s) (lp_proc t)"
    by (simp add: in_proc_result [OF m])
  then show ?thesis
    using m by (auto simp: writer_wakes_def Let_def process.R_refl split: sum.split)
qed

lemma step_writer_syncs: "process_step (lp_proc s) (lp_proc (writer_syncs i s))"
proof -
  obtain r t where m: "in_proc (on_engine Alice SyncNow) s = (r, t)" by fastforce
  have "process_step (lp_proc s) (lp_proc t)"
    unfolding in_proc_result [OF m] by (rule staysD) (intro process_calls)
  then show ?thesis using m by (simp add: writer_syncs_def split: sum.split)
qed

lemma step_monitor_reads: "process_step (lp_proc s) (lp_proc (monitor_reads P key s))"
proof -
  let ?now = "\<lambda>sentAt. bindM (world_now P) (\<lambda>now. ret (pf_FormatDuration P (now - sentAt)))"
  obtain r t where m: "in_proc (in_world (vb_Get bobBackend key)) s = (r, t)" by fastforce
  have t: "process_step (lp_proc s) (lp_proc t)"
    unfolding in_proc_result [OF m] by (rule staysD) (intro process_calls)
  have now: "process_step (lp_proc s) (lp_proc u)" if "in_proc (?now sentAt) t = (q, u)" for sentAt q u
  proof -
    have "stays process_step (?now sentAt)" by (intro process.combinators process_calls)
    from staysD [OF this] show ?thesis
      unfolding in_proc_result [OF that] by (rule process_step_trans [OF t])
  qed
  show ?thesis
    using m t now
    by (auto simp: monitor_reads_def split: sum.split option.split prod.split
        intro: process_step_trans [OF _ step_log])
qed

lemma step_monitor_takes_event:
  "process_step (lp_proc s) (lp_proc (monitor_takes_event P s))"
  using step_monitor_reads [of "event_read Bob s" P]
  by (auto simp: monitor_takes_event_def Let_def process.R_refl step_log
      split: option.split monitor_next.split)

theorem step_longpoll: "process_step (lp_proc s) (lp_proc (longpoll_step P a s))"
proof (cases a)
  case (EngineRuns b)
  then show ?thesis using staysD [OF stays_background_step] by (simp add: longpoll_step_def)
next
  case (EngineReturns p)
  then show ?thesis
    by (simp add: longpoll_step_def engine_returns_def process.R_refl split: option.split run_loop.split)
qed (auto simp: longpoll_step_def process.R_refl step_main_takes_event step_main_receives
    step_main_returns step_writer_wakes step_writer_syncs step_monitor_takes_event monitor_sends_def
    split: main_phase.split writer_phase.split monitor_phase.split)

lemma reaches_process_step:
  "longpoll_reaches P s t \<Longrightarrow> process_step (lp_proc s) (lp_proc t)"
  by (induction rule: longpoll_reaches.induct)
    (auto intro: process.R_refl process_step_trans step_longpoll)

end
