(* ===== verification/Longpoll_Invariant.thy ===== *)
theory Longpoll_Invariant
  imports Demo_Soundness
begin

text \<open>
  The invariant of the goroutines of the long-poll program (\<open>longpoll_inv\<close>): the bounded channels
  keep to their capacities, and every key that the monitor holds, that is in the channel
  \<open>received\<close>, or that \<open>main\<close> has seen was downloaded by Bob's engine. One lemma per goroutine
  step; \<open>longpoll_inv_proc\<close> is the part they share.
\<close>

section \<open>The invariant\<close>

definition engines_ok :: "'w process \<Rightarrow> bool" where
  "engines_ok s \<longleftrightarrow> (\<forall>p en. pr_engines s p = Some en \<longrightarrow> engine_ok (en_env en) (en_st en))"

definition downloaded_keys :: "'n longpoll \<Rightarrow> string set" where
  "downloaded_keys s =
     {ev_Key e | e. e \<in> set (engine_events Bob s) \<and> ev_Type e = EventItemDownloaded \<and>
        ev_Collection e = collectionName}"

lemma engines_ok_step:
  assumes "process_step (lp_proc s) (lp_proc t)" and "engines_ok (lp_proc s)"
  shows "engines_ok (lp_proc t)" and "set (engine_events p s) \<subseteq> set (engine_events p t)"
proof -
  show "engines_ok (lp_proc t)"
    unfolding engines_ok_def
  proof (intro allI impI)
    fix q en'
    assume t: "pr_engines (lp_proc t) q = Some en'"
    then obtain en where s: "pr_engines (lp_proc s) q = Some en"
      using process_step_None [OF assms(1)] by fastforce
    show "engine_ok (en_env en') (en_st en')"
      using process_stepD [OF assms(1) s] reaches_ok t s assms(2)
      by (metis engines_ok_def option.inject)
  qed
  show "set (engine_events p s) \<subseteq> set (engine_events p t)"
  proof (cases "pr_engines (lp_proc s) p")
    case None
    then show ?thesis by (simp add: engine_events_def)
  next
    case (Some en)
    obtain en' where t: "pr_engines (lp_proc t) p = Some en'"
      and r: "reaches (en_env en) (en_st en) (en_st en')" using process_stepD [OF assms(1) Some] .
    have "runs_on (en_env en) (en_st en) (en_st en')"
      using reaches_ok [OF r] assms(2) Some by (simp add: engines_ok_def)
    then show ?thesis using Some t by (auto simp: engine_events_def runs_on_def)
  qed
qed

definition downloaded_all :: "'n longpoll \<Rightarrow> bool" where
  "downloaded_all s \<longleftrightarrow>
     (\<exists>keys. distinct keys \<and> length itemKeys \<le> length keys \<and> set keys \<subseteq> downloaded_keys s)"

text \<open>What the goroutines hold was downloaded, and the channels keep to their capacities.\<close>

definition longpoll_inv :: "'n longpoll \<Rightarrow> bool" where
  "longpoll_inv s \<longleftrightarrow> engines_ok (lp_proc s) \<and>
     length (lp_errs s) \<le> errs_capacity \<and> length (lp_received s) \<le> received_capacity \<and>
     ri_key ` set (lp_received s) \<subseteq> downloaded_keys s \<and>
     (\<forall>item. lp_monitor s = Sending item \<longrightarrow> ri_key item \<in> downloaded_keys s) \<and>
     (\<forall>seen. lp_main s = Receiving seen \<longrightarrow> distinct seen \<and> set seen \<subseteq> downloaded_keys s) \<and>
     (lp_main s = Stopping \<or> lp_main s = Exited None \<longrightarrow> downloaded_all s)"

text \<open>
  A step of a goroutine that leaves the channels and the other goroutines alone keeps the
  invariant: downloads are never taken back.
\<close>

lemma downloaded_keys_mono:
  assumes "process_step (lp_proc s) (lp_proc t)" and "engines_ok (lp_proc s)"
  shows "downloaded_keys s \<subseteq> downloaded_keys t"
  using engines_ok_step(2) [OF assms, of Bob] by (auto simp: downloaded_keys_def)

lemma longpoll_inv_proc:
  assumes "longpoll_inv s" and "process_step (lp_proc s) (lp_proc t)"
    and "length (lp_errs t) \<le> errs_capacity" and "length (lp_received t) \<le> received_capacity"
    and "set (lp_received t) \<subseteq> set (lp_received s)"
    and "\<And>item. lp_monitor t = Sending item \<Longrightarrow> ri_key item \<in> downloaded_keys s"
    and "\<And>seen. lp_main t = Receiving seen \<Longrightarrow> distinct seen \<and> set seen \<subseteq> downloaded_keys s"
    and "lp_main t = Stopping \<or> lp_main t = Exited None \<Longrightarrow> downloaded_all s"
  shows "longpoll_inv t"
proof -
  have ok: "engines_ok (lp_proc s)" using assms(1) by (simp add: longpoll_inv_def)
  note mono = downloaded_keys_mono [OF assms(2) ok]
  have "ri_key ` set (lp_received t) \<subseteq> downloaded_keys t"
    using assms(1,5) mono unfolding longpoll_inv_def by blast
  moreover have "lp_main t = Stopping \<or> lp_main t = Exited None \<longrightarrow> downloaded_all t"
    using assms(8) mono unfolding downloaded_all_def by blast
  ultimately show ?thesis
    using engines_ok_step(1) [OF assms(2) ok] assms(3,4,6,7) mono
    unfolding longpoll_inv_def by blast
qed

lemma longpoll_invD:
  assumes "longpoll_inv s"
  shows "length (lp_errs s) \<le> errs_capacity" "length (lp_received s) \<le> received_capacity"
    and "lp_monitor s = Sending item \<Longrightarrow> ri_key item \<in> downloaded_keys s"
    and "lp_main s = Receiving seen \<Longrightarrow> distinct seen \<and> set seen \<subseteq> downloaded_keys s"
    and "lp_main s = Stopping \<or> lp_main s = Exited None \<Longrightarrow> downloaded_all s"
  using assms by (simp_all add: longpoll_inv_def)

lemma length_sendErr: "length errs \<le> errs_capacity \<Longrightarrow> length (sendErr e errs) \<le> errs_capacity"
  by (simp add: sendErr_def)

text \<open>What \<open>in_proc\<close> leaves alone.\<close>

lemma in_proc_frame:
  assumes "in_proc m s = (r, t)"
  shows "lp_errs t = lp_errs s" "lp_received t = lp_received s" "lp_main t = lp_main s"
    "lp_monitor t = lp_monitor s" "lp_read t = lp_read s"
  using assms by (auto simp: in_proc_def split: prod.splits)

lemma in_proc_frame_snd [simp]:
  "lp_errs (snd (in_proc m s)) = lp_errs s" "lp_received (snd (in_proc m s)) = lp_received s"
  "lp_main (snd (in_proc m s)) = lp_main s" "lp_monitor (snd (in_proc m s)) = lp_monitor s"
  by (simp_all add: in_proc_def split: prod.split)

lemma received_downloaded:
  assumes "receive_event Bob s = Some (Some event)" and "monitor_event event = MonitorReads key"
  shows "key \<in> downloaded_keys s"
proof -
  have "event \<in> set (engine_events Bob s)"
    using assms(1) by (auto simp: receive_event_def split: if_splits)
  moreover have "ev_Type event = EventItemDownloaded \<and> ev_Collection event = collectionName \<and>
      ev_Key event = key"
    using assms(2) by (simp add: monitor_event_def split: EventType.splits if_splits)
  ultimately show ?thesis by (auto simp: downloaded_keys_def)
qed

lemma inv_main_takes_event:
  assumes "longpoll_inv s"
  shows "longpoll_inv (main_takes_event p s)"
  by (rule longpoll_inv_proc [OF assms step_main_takes_event])
    (auto simp: main_takes_event_def wait_failed_def exits_def event_read_def initial_sync_done_def
      Let_def longpoll_invD [OF assms] in_proc_def log_Printf_def writes_def
      split: option.splits sum.splits peer.splits)

lemma inv_main_receives:
  assumes "longpoll_inv s" and "lp_main s = Receiving seen"
  shows "longpoll_inv (main_receives p seen s)"
proof (rule longpoll_inv_proc [OF assms(1) step_main_receives])
  note inv = longpoll_invD [OF assms(1)]
  show "length (lp_errs (main_receives p seen s)) \<le> errs_capacity"
    "length (lp_received (main_receives p seen s)) \<le> received_capacity"
    "set (lp_received (main_receives p seen s)) \<subseteq> set (lp_received s)"
    using inv(1,2)
    by (auto simp: main_receives_def main_picks_def exits_def
        split: option.splits sum.splits receive_pick.splits list.splits)
  show "ri_key item \<in> downloaded_keys s" if "lp_monitor (main_receives p seen s) = Sending item" for item
    using that inv(3)
    by (auto simp: main_receives_def main_picks_def exits_def
        split: option.splits sum.splits receive_pick.splits list.splits if_splits)
  have seen: "distinct seen" "set seen \<subseteq> downloaded_keys s" using inv(4) assms(2) by simp_all
  have "ri_key ` set (lp_received s) \<subseteq> downloaded_keys s"
    using assms(1) by (simp add: longpoll_inv_def)
  then show "distinct seen' \<and> set seen' \<subseteq> downloaded_keys s"
    if "lp_main (main_receives p seen s) = Receiving seen'" for seen'
    using that seen assms(2)
    by (auto simp: main_receives_def main_picks_def exits_def receive_step_def
        split: option.splits sum.splits receive_pick.splits list.splits if_splits)
  show "downloaded_all s" if "lp_main (main_receives p seen s) = Stopping \<or>
      lp_main (main_receives p seen s) = Exited None"
  proof -
    have "length itemKeys \<le> length seen"
      using that assms(2)
      by (auto simp: main_receives_def main_picks_def exits_def
          split: option.splits sum.splits receive_pick.splits list.splits if_splits)
    with seen show ?thesis by (auto simp: downloaded_all_def)
  qed
qed

lemma waitDone_frame:
  "lp_errs (waitDone p s) = lp_errs s" "lp_received (waitDone p s) = lp_received s"
  "lp_monitor (waitDone p s) = lp_monitor s" "lp_main (waitDone p s) = lp_main s"
  by (simp_all add: waitDone_def)

lemma inv_main_returns:
  assumes "longpoll_inv s" and "lp_main s = Stopping"
  shows "longpoll_inv (main_returns P s)"
  by (rule longpoll_inv_proc [OF assms(1) step_main_returns])
    (use assms(2) in \<open>simp_all add: main_returns_def exits_def Let_def waitDone_frame
      longpoll_invD [OF assms(1)]\<close>)

lemma inv_writer_wakes:
  assumes "longpoll_inv s"
  shows "longpoll_inv (writer_wakes P cancelled i s)"
proof -
  let ?m = "bindM (world_now P) (\<lambda>now.
                bindM (world_now P) (\<lambda>sentAt.
                let val = ''alice value '' @ dec_of_nat (i + 1) @ '' at '' @
                      pf_FormatTime P ''RFC3339Nano'' now
                in seqM (log_Printf ''alice wrote %s=%q'' [itemKeys ! i, val])
                     (bindM (attempt (in_world (vb_Set aliceBackend (itemKeys ! i) val))) (\<lambda>r.
                      ret (sentAt, r)))))"
  obtain r t where m: "in_proc ?m s = (r, t)" by fastforce
  have frame: "lp_errs (writer_wakes P cancelled i s) \<in> {lp_errs s} \<union> range (\<lambda>e. sendErr e (lp_errs s))"
    "lp_received (writer_wakes P cancelled i s) = lp_received s"
    "lp_main (writer_wakes P cancelled i s) = lp_main s"
    "lp_monitor (writer_wakes P cancelled i s) = lp_monitor s"
    using m in_proc_frame [OF m]
    by (auto simp: writer_wakes_def Let_def report_def split: sum.split)
  show ?thesis
    by (rule longpoll_inv_proc [OF assms step_writer_wakes])
      (use frame in \<open>auto simp: longpoll_invD [OF assms] intro!: length_sendErr\<close>)
qed

lemma inv_writer_syncs:
  assumes "longpoll_inv s"
  shows "longpoll_inv (writer_syncs i s)"
proof -
  obtain r t where m: "in_proc (on_engine Alice SyncNow) s = (r, t)" by fastforce
  show ?thesis
    by (rule longpoll_inv_proc [OF assms step_writer_syncs])
      (use in_proc_frame [OF m] m in \<open>auto simp: writer_syncs_def report_def
        longpoll_invD [OF assms] intro: length_sendErr split: sum.splits\<close>)
qed

lemma event_read_frame [simp]:
  "lp_errs (event_read p s) = lp_errs s" "lp_received (event_read p s) = lp_received s"
  "lp_monitor (event_read p s) = lp_monitor s" "lp_main (event_read p s) = lp_main s"
  "downloaded_keys (event_read p s) = downloaded_keys s"
  by (simp_all add: event_read_def downloaded_keys_def engine_events_def)

lemma inv_event_read: "longpoll_inv s \<Longrightarrow> longpoll_inv (event_read p s)"
  by (simp add: longpoll_inv_def downloaded_all_def)

lemma inv_monitor_reads:
  assumes "longpoll_inv s" and "key \<in> downloaded_keys s"
  shows "longpoll_inv (monitor_reads P key s)"
proof -
  let ?now = "\<lambda>sentAt. bindM (world_now P) (\<lambda>now. ret (pf_FormatDuration P (now - sentAt)))"
  obtain r t where m: "in_proc (in_world (vb_Get bobBackend key)) s = (r, t)" by fastforce
  note t = in_proc_frame [OF m]
  obtain q u where n: "(case map_of (lp_sentTimes t) key of None \<Rightarrow> (Inr ''unknown latency'', t)
      | Some sentAt \<Rightarrow> in_proc (?now sentAt) t) = (q, u)" by fastforce
  have u: "lp_errs u = lp_errs s" "lp_received u = lp_received s" "lp_main u = lp_main s"
    "lp_monitor u = lp_monitor s"
    using n t
    by (cases "map_of (lp_sentTimes t) key"; auto simp: in_proc_frame dest: in_proc_frame)+
  show ?thesis
    by (rule longpoll_inv_proc [OF assms(1) step_monitor_reads])
      (use m n t u assms(2) in \<open>auto simp: monitor_reads_def report_def
        longpoll_invD [OF assms(1)] intro!: length_sendErr split: sum.splits\<close>)
qed

lemma inv_monitor_takes_event:
  assumes "longpoll_inv s"
  shows "longpoll_inv (monitor_takes_event P s)"
proof (cases "receive_event Bob s")
  case None
  with assms show ?thesis by (simp add: monitor_takes_event_def)
next
  case (Some e)
  show ?thesis
  proof (cases "\<exists>event key. e = Some event \<and> monitor_event event = MonitorReads key")
    case True
    then obtain event key where e: "e = Some event" "monitor_event event = MonitorReads key" by blast
    then have "longpoll_inv (monitor_reads P key (event_read Bob s))"
      using received_downloaded Some assms by (intro inv_monitor_reads inv_event_read) auto
    with Some e show ?thesis by (simp add: monitor_takes_event_def Let_def)
  next
    case False
    with Some show ?thesis
      by (intro longpoll_inv_proc [OF assms step_monitor_takes_event])
        (auto simp: monitor_takes_event_def Let_def report_def longpoll_invD [OF assms]
          intro!: length_sendErr split: option.splits monitor_next.splits)
  qed
qed

lemma inv_monitor_sends:
  assumes "longpoll_inv s" and "lp_monitor s = Sending item"
  shows "longpoll_inv (monitor_sends item s)"
  using assms
  by (auto simp: longpoll_inv_def monitor_sends_def downloaded_keys_def downloaded_all_def
      engine_events_def)

lemma inv_engine_returns:
  assumes "longpoll_inv s"
  shows "longpoll_inv (engine_returns p s)"
  using assms
  by (auto simp: longpoll_inv_def engine_returns_def downloaded_keys_def downloaded_all_def
      engine_events_def runEngine_reports_def intro!: length_sendErr
      split: option.splits run_loop.splits)

lemma inv_step:
  assumes "longpoll_inv s"
  shows "longpoll_inv (longpoll_step P a s)"
proof -
  note inv = longpoll_invD [OF assms]
  have engine: "longpoll_inv (snd (in_proc (background_step b) s))" for b
    by (rule longpoll_inv_proc [OF assms]) (simp_all add: staysD [OF stays_background_step] inv)
  have timeout: "longpoll_inv (wait_failed p e s)" for p e
    by (rule longpoll_inv_proc [OF assms]) (simp_all add: process.R_refl inv wait_failed_def exits_def)
  have stopped: "longpoll_inv (s\<lparr>lp_monitor := MonitorReturned\<rparr>)"
    by (rule longpoll_inv_proc [OF assms]) (simp_all add: process.R_refl inv)
  show ?thesis
    using assms
    by (auto simp: longpoll_step_def engine timeout stopped inv_engine_returns
        inv_main_takes_event inv_main_receives inv_main_returns inv_writer_wakes inv_writer_syncs
        inv_monitor_takes_event inv_monitor_sends
        split: action.split main_phase.split writer_phase.split monitor_phase.split)
qed

lemma inv_start: "engines_ok proc \<Longrightarrow> longpoll_inv (start_longpoll proc runID)"
  by (simp add: longpoll_inv_def start_longpoll_def)

lemma inv_reaches:
  assumes "longpoll_reaches P s t" and "longpoll_inv s"
  shows "longpoll_inv t"
  using assms by (induction rule: longpoll_reaches.induct) (auto intro: inv_step)

end
