(* ===== verification/Demo_Properties.thy ===== *)
theory Demo_Properties
  imports Longpoll_Invariant
begin

text \<open>
  Properties of the demonstration programs: both engines of both programs stay in states of
  their histories, whatever the schedule; the long-poll program reports success only after
  Bob's engine has downloaded as many items as there are keys; its receive loop ends.
\<close>

section \<open>Both engines of both programs\<close>

text \<open>A platform with an empty disk and a server that refuses every request.\<close>

definition ex_driver :: "'w sql_driver" where
  "ex_driver =
     \<lparr>sd_Open = (\<lambda>_. ret ()), sd_Exec = (\<lambda>_ _. ret ()), sd_Close = (\<lambda>_. ret ()),
      sd_tables = (\<lambda>_ _. empty_database)\<rparr>"

definition ex_platform :: "'w platform" where
  "ex_platform =
     \<lparr>pf_LookupEnv = (\<lambda>_. None), pf_TempPath = (\<lambda>name. ''/tmp/'' @ name),
      pf_Remove = (\<lambda>_ w. w),
      pf_ParseURL = (\<lambda>_. Inr (\<lambda>req. ret \<lparr>rs_status = 500, rs_message = [], rs_body = Inr NoContent\<rparr>)),
      pf_FormatTime = (\<lambda>_ t. format_int t), pf_FormatDuration = format_int,
      pf_driver = ex_driver, pf_crypto = inj_crypto, pf_now = (\<lambda>w. (1, w)),
      pf_rand = (\<lambda>n w. (replicate n (CHR 0x09), w)), pf_db_fault = (\<lambda>w. (None, w))\<rparr>"

lemma ex_platform_ok: "platform_ok (ex_platform :: 'w platform)"
proof -
  have "items_ok E empty_database" for E :: "'w env"
    by (simp add: items_ok_def item_of_def empty_database_def lookup_row_def)
  then show ?thesis
    by (simp add: platform_ok_def ex_platform_def ex_driver_def inj_crypto_ok db_wf_empty)
qed

lemma sound_process_ok:
  assumes "platform_ok P" and "sound_process P s"
  shows "\<forall>p en. pr_engines s p = Some en \<longrightarrow>
    sound_engine P en \<and> engine_ok (en_env en) (en_st en) \<and> config_ok (env_cfg (en_env en))"
  using assms(2) sound_engine_ok [OF assms(1)] by (simp add: sound_process_def)


definition ex_demo_world :: "unit demo_world" where
  "ex_demo_world =
     \<lparr>dw_aliceAppNotes = [], dw_sharedNotes = [], dw_bobShared = [], dw_aliceConflict = [],
      dw_bobConflict = [], dw_rest = ()\<rparr>"

definition ex_longpoll_world :: "unit longpoll_world" where
  "ex_longpoll_world = \<lparr>lw_aliceBackend = [], lw_bobBackend = [], lw_rest = ()\<rparr>"

definition ex_longpoll_started :: "unit longpoll" where
  "ex_longpoll_started =
     start_longpoll (snd (longpoll_start ex_platform (start_process [] ex_longpoll_world))) ''run''"


section \<open>The receive loop ends\<close>

lemma receiveLoop_unfold:
  "receiveLoop seen (p ## picks) =
     (if length seen < length itemKeys then
        (case receive_step seen p of
           Inl e \<Rightarrow> Some (Inl e, picks) | Inr seen \<Rightarrow> receiveLoop seen picks)
      else Some (Inr seen, p ## picks))"
  by (subst receiveLoop.simps) (simp cong: sum.case_cong)

definition received_keys :: "receive_pick list \<Rightarrow> string set" where
  "received_keys picks = {ri_key item | item. ItemReceived item \<in> set picks}"

lemma received_keys_simps [simp]:
  "received_keys [] = {}"
  "received_keys (ItemReceived item # ps) = insert (ri_key item) (received_keys ps)"
  by (auto simp: received_keys_def)

definition loop_outcome :: "string list \<Rightarrow> receive_pick list \<Rightarrow> err + string list \<Rightarrow> bool" where
  "loop_outcome seen ps r \<longleftrightarrow>
     (case r of
        Inl e \<Rightarrow> ps \<noteq> [] \<and> (\<forall>item. last ps \<noteq> ItemReceived item)
      | Inr got \<Rightarrow> distinct got \<and> length itemKeys \<le> length got \<and> set got = set seen \<union> received_keys ps \<and>
          (\<forall>p \<in> set ps. \<exists>item. p = ItemReceived item))"


definition ex_received :: "string \<Rightarrow> receive_pick" where
  "ex_received key = ItemReceived \<lparr>ri_key = key, ri_value = ''value''\<rparr>"


section \<open>Success is earned\<close>

text \<open>C38: When the long-poll program ends normally, Bob's engine has downloaded an item of the
  collection for as many different keys as the program announces, whatever the interleaving of
  its goroutines, however often an item is reported and whatever else goes on. At every point the
  buffered channels keep to their capacities: reporting an error never blocks, and drops it when
  the channel is full.\<close>

theorem longpoll_success_earned:
  assumes "engines_ok proc" and "longpoll_reaches P (start_longpoll proc runID) s"
    and "lp_main s = Exited None"
  shows "(\<exists>keys. distinct keys \<and> length itemKeys \<le> length keys \<and>
           (\<forall>k \<in> set keys. \<exists>e \<in> set (engine_events Bob s).
              ev_Type e = EventItemDownloaded \<and> ev_Collection e = collectionName \<and> ev_Key e = k)) \<and>
         length (lp_errs s) \<le> errs_capacity \<and> length (lp_received s) \<le> received_capacity"
proof -
  have inv: "longpoll_inv s" by (rule inv_reaches [OF assms(2) inv_start [OF assms(1)]])
  obtain keys where "distinct keys" "length itemKeys \<le> length keys" "set keys \<subseteq> downloaded_keys s"
    using longpoll_invD(5) [OF inv] assms(3) by (auto simp: downloaded_all_def)
  then show ?thesis
    using longpoll_invD(1,2) [OF inv] unfolding downloaded_keys_def by blast
qed

text \<open>Two engines whose first passes are over; Bob's has downloaded the five items.\<close>

definition ex_longpoll_env :: "unit longpoll_world env" where
  "ex_longpoll_env =
     engine_env ex_platform (\<lambda>req. ret \<lparr>rs_status = 500, rs_message = [], rs_body = Inr NoContent\<rparr>)
       longpoll_config ex_identity"

definition ex_engine :: "Event list \<Rightarrow> unit longpoll_world engine_proc" where
  "ex_engine events =
     \<lparr>en_env = ex_longpoll_env,
      en_st = \<lparr>st_db = empty_database,
        st_identity = \<lparr>id_KeyID = env_keyID ex_longpoll_env, id_Kind = IdentityKindKeystore,
          id_AccessToken = [], id_TokenExpiry = 0, id_DefaultNamespaceID = [], id_UpdatedAt = 0\<rparr>,
        st_collections = [], st_events = events, st_requests = [], st_activitySeq = 0,
        st_idlePolling = False, st_wakeSync = False, st_loginSucceededRun = False,
        st_loginSucceededWatch = False, st_eventsClosed = False, st_closed = False,
        st_world = ex_longpoll_world\<rparr>,
      en_path = ''/tmp/db'', en_loop = Looping True, en_cancelled = False\<rparr>"

definition ex_download :: "string \<Rightarrow> Event" where
  "ex_download key =
     (plain_event EventItemDownloaded)\<lparr>ev_Collection := collectionName, ev_Key := key\<rparr>"

definition ex_process :: "unit longpoll_world process" where
  "ex_process =
     \<lparr>pr_world = \<lparr>lw_aliceBackend = [], lw_bobBackend = map (\<lambda>k. (k, ''value'')) itemKeys, lw_rest = ()\<rparr>,
      pr_engines = (\<lambda>p. case p of
          Alice \<Rightarrow> Some (ex_engine [plain_event EventSyncFinished])
        | Bob \<Rightarrow> Some (ex_engine (plain_event EventSyncFinished # map ex_download itemKeys))),
      pr_schedule = [], pr_log = []\<rparr>"

definition ex_actions :: "action list" where
  "ex_actions =
     [MainTakesEvent, MainTakesEvent] @
     concat (map (\<lambda>k. [MonitorTakesEvent, MonitorSends, MainReceives (ex_received k)]) itemKeys) @
     [MainReceives TimedOut, MainReturns]"

lemma ex_engines_ok: "engines_ok ex_process"
proof -
  have "items_ok ex_longpoll_env empty_database"
    by (simp add: items_ok_def item_of_def empty_database_def lookup_row_def)
  moreover have "lookup_row idr_key_id k (identity_states empty_database) = None" for k
    by (simp add: empty_database_def lookup_row_def)
  ultimately have "engine_ok ex_longpoll_env (en_st (ex_engine events))" for events
    by (simp add: engine_ok_def ex_engine_def db_wf_empty session_saved_def registry_ok_def
        inj_crypto_ok ex_longpoll_env_def engine_env_def ex_platform_def)
  then show ?thesis
    by (auto simp: engines_ok_def ex_process_def ex_engine_def split: peer.splits)
qed

lemma ex_success: "lp_main (longpoll_run ex_platform ex_actions (start_longpoll ex_process ''run'')) = Exited None"
  by (simp add: longpoll_run_def ex_actions_def start_longpoll_def longpoll_step_def main_takes_event_def
      receive_event_def engine_events_def ex_process_def ex_engine_def initial_sync_verdict_def
      plain_event_def event_read_def initial_sync_done_def in_proc_def log_Printf_def writes_def
      itemKeys_def monitor_takes_event_def monitor_event_def ex_download_def monitor_reads_def
      monitor_sends_def received_capacity_def main_receives_def main_picks_def receive_step_def
      ex_received_def in_world_def bobBackend_def focus_backend_def focus_def scopedMemoryBackend_def
      MemoryValueBackend_def mem_Get_def go_map_def go_string_def main_returns_def exits_def Let_def)

lemma longpoll_success_earned_witness:
  "\<exists>keys. distinct keys \<and> length itemKeys \<le> length keys \<and>
     (\<forall>k \<in> set keys. \<exists>e \<in> set (engine_events Bob
          (longpoll_run ex_platform ex_actions (start_longpoll ex_process ''run''))).
        ev_Type e = EventItemDownloaded \<and> ev_Collection e = collectionName \<and> ev_Key e = k)"
  using longpoll_success_earned [OF ex_engines_ok longpoll_run_reaches ex_success] by (rule conjunct1)

end
