(* ===== verification/Spec2Isabelle.thy ===== *)
theory Spec2Isabelle
  imports Protocol_Properties Store_Properties History_Properties Discovery_Properties
    Loop_Properties Apply_Properties Invite_Properties Upload_Properties
    Fetch_Properties Session_Properties Snapshot_Properties Flush_Properties
    Demo_Properties
begin

text \<open>
  \<^bold>\<open>Verification of the BitBoxSync Go client.\<close>

  The client keeps key/value collections of an application in sync with a server that stores
  ciphertexts only. An \<open>Engine\<close> (\<open>src/bitboxsync\<close>) owns a SQLite store
  (\<open>src/storage/sqlite\<close>), an API client (\<open>src/raw/client.go\<close>) and a key device
  (\<open>src/raw/identity.go\<close>); the wire format is \<open>src/protocol\<close>. A pass (\<open>SyncNow\<close>) queues what
  the application changed, applies what the server has that is newer, and uploads the queue
  with writes that are conditional on the version they replace. Two programs under \<open>src/cmd\<close> run
  two engines against one server. The development models these parts as functions on an
  explicit state and proves what the parts promise.

  \<^bold>\<open>Theories, in the order of imports\<close>
  \<^item> \<open>Prelude\<close>: Go values and errors, effects \<open>('s, 'a) eff = 's \<Rightarrow> (err + 'a) \<times> 's\<close>, their weakest
    preconditions (\<open>wp\<close>), the reading of successful runs (\<open>succeeds\<close>), and the locale
    \<open>step_relation\<close>: a preorder on states that every combinator stays in (\<open>stays\<close>).
  \<^item> \<open>Wire_Encoding\<close>, \<open>Wire_Numbers\<close>, \<open>Crypto_Wire\<close>, \<open>Signed_Payloads\<close>, \<open>Go_Url\<close>, \<open>Invite_Tokens\<close>:
    \<open>src/protocol/crypto.go\<close> and what it uses of Go's standard library. Every decoder is an
    instance of the locale \<open>canonical_codec\<close>.
  \<^item> \<open>Sync_Types\<close>: \<open>src/bitboxsync/types.go\<close> and the bodies of \<open>src/protocol/api.go\<close>.
  \<^item> \<open>Sqlite_Store\<close>, \<open>Store_Operations\<close>: \<open>src/storage/sqlite/store.go\<close>. A table is a list of rows
    with a primary key (locale \<open>keyed_table\<close>, interpreted on the three tables).
  \<^item> \<open>Engine_World\<close>: the \<open>Engine\<close> struct as the record \<open>st\<close>, \<open>Open\<close>, \<open>Close\<close> and events
    (\<open>engine.go\<close>, \<open>engine_events.go\<close>), and the record \<open>env\<close> of everything outside.
    \<open>Raw_Client\<close>: \<open>src/raw/client.go\<close>, one definition per endpoint.
  \<^item> \<open>Collections\<close>: codecs, merge policies, the memory backend and the byte-level form of a
    typed collection (\<open>codecs.go\<close>, \<open>merge.go\<close>, \<open>memory_backend.go\<close>, \<open>collection.go\<close>).
    \<open>Discovery\<close>: the registry and the active scope (\<open>engine_discovery.go\<close>).
  \<^item> \<open>Engine_Auth\<close>: sessions (\<open>engine_auth.go\<close>, \<open>engine_identity.go\<close>).
    \<open>Item_State\<close>, \<open>Remote_Apply\<close>, \<open>Upload\<close>: \<open>engine_items.go\<close>. \<open>Namespaces\<close>:
    \<open>engine_namespace.go\<close>. \<open>Snapshots\<close>: \<open>engine_snapshots.go\<close> and conflict resolution.
    \<open>Sync_Loop\<close>: \<open>engine_run.go\<close>, \<open>engine_watch.go\<close>. \<open>Namespace_Invites\<close>:
    \<open>namespace_invites.go\<close>. \<open>Identity_Keystore\<close>: \<open>DummyKeystore\<close> and the locale \<open>key_device\<close>.
  \<^item> \<open>Client_Setup\<close>: \<open>New\<close> of \<open>src/raw/client.go\<close>, \<open>Open\<close>, \<open>OpenInMemory\<close> and \<open>Close\<close> of the store,
    \<open>Close\<close> of the engine. \<open>Demo_Process\<close>: a process that holds the engines of Alice and Bob.
    \<open>Demo\<close>: \<open>src/cmd/demo/main.go\<close>. \<open>Longpoll_Demo\<close>: \<open>src/cmd/longpoll-demo/main.go\<close>.
  \<^item> \<open>Engine_Step\<close>: the invariant \<open>engine_ok\<close> and the relation \<open>engine_step\<close> every operation is
    shown to stay in, each in its own theory. \<open>Engine_Runs\<close>: the inductive relation
    \<open>reaches\<close>, all histories of an engine. \<open>Apply_Spec\<close>: the abstract specification of the
    application of a remote value and the proof that the code refines it.
    \<open>Upload_Trace\<close>: what an upload puts on the wire. \<open>Upload_Spec\<close>: the contract of an accepted
    upload and of the matching download. \<open>Flush_Spec\<close>: the same for the whole queue, with a loop
    invariant over the list of dirty items. \<open>Snapshot_Spec\<close>: the specification of the local
    comparison. \<open>Invite_Exchange\<close>: the two sides of an invite.
    \<open>Demo_Runs\<close>, \<open>Demo_Soundness\<close>, \<open>Longpoll_Invariant\<close>: the relation both programs stay in,
    what it keeps of the two engines, and the invariant of the channels and goroutines.
  \<^item> \<open>Example_Crypto\<close>, \<open>Examples\<close>: instances at which hypotheses hold.
  \<^item> The theories named \<open>_Properties\<close> hold the properties, numbered C1, C2, and so on.

  \<^bold>\<open>How state and calls correspond to the code\<close>
  \<^item> A Go function that can fail is a function into \<open>err + 'a\<close>; a method of the engine is an
    effect on \<open>st\<close>. A \<open>nil\<close> slice and an empty one are both \<open>[]\<close>; the text of an error is its
    format string, and only \<open>errors.Is\<close> and \<open>errors.As\<close> look into errors. Counters of type
    \<open>uint64\<close> are 64-bit words; instants and durations are \<open>int\<close> nanoseconds, with the 64-bit
    wrap-around written out where the code multiplies durations.
  \<^item> The application's storage, the clock, the random source, the transport, the key device and
    faults of the disk are functions of \<open>env\<close> on a world of arbitrary type. Each call may
    change the world in any way, so what other goroutines, other clients and the
    application do between two calls is included. Code under the lock of a key is one sequence
    of effects.
  \<^item> Channels are logs (events, requests) or booleans (wake-ups of capacity one). A round of a
    background loop is a function of what its \<open>select\<close> picked. Go maps that are ranged over
    are lists of entries in the order of the iteration, which is arbitrary.
  \<^item> The two engines of a demonstration program share one world; a call of one engine runs on
    its own state with the world of the process. In \<open>demo_main\<close> the rounds of the background
    loops of both engines run between any two statements, as a schedule given with the
    process says. After its setup the long-poll program is a state machine: one
    constructor of \<open>action\<close> per step of \<open>main\<close>, of the loop and the watch of each engine, of the
    writer and of the monitor, with the channels as queues of the capacities of the code, so a
    run is any interleaving of them.
  \<^item> A response is the body decoded into the type the request asks for (\<open>env_http\<close>); a body of
    another type is a decoding error.
  \<^item> No operation needs fuel: the loops of the code recurse on a list, on a measure
    (\<open>doublingLoop\<close>), or are modelled by their rounds. \<open>receiveLoop\<close>, which need not end by itself,
    is a \<open>partial_function\<close> over the stream of what its \<open>select\<close> picks; it is proved to return
    once the stream holds a tick of its timer.

  \<^bold>\<open>Hypotheses\<close>: what is assumed of SHA-256, the AEAD, HPKE and Ed25519 is a named predicate
  of \<open>Crypto_Wire\<close> (lengths, decryption inverts encryption, signatures made verify).
  \<open>item_ids_identify\<close> of \<open>Engine_Step\<close> idealises HMAC: item IDs derived from different logical
  keys differ. All of them hold for the primitives of \<open>Example_Crypto\<close> or \<open>Examples\<close>. What an
  application owes is the locale \<open>conditional_backend\<close> and \<open>value_codec\<close>, interpreted on
  the memory backend and the string codec.

  \<^bold>\<open>What the lemmas show\<close>: decoders accept canonical text only and signed payloads are
  unambiguous (\<open>Protocol_Properties\<close>); the store reads what was written and its queries are exact
  (\<open>Store_Properties\<close>); a remote value is applied as specified and no local change is lost
  (\<open>Apply_Properties\<close>); what a flush sends, what an accepted upload leaves behind and that it
  arrives at another client (\<open>Upload_Properties\<close>); one flush empties the whole queue when the server
  accepts (\<open>Flush_Properties\<close>); only authenticated and newer values are applied
  (\<open>Fetch_Properties\<close>); a pass over the application's values queues the local changes and nothing
  else, and a conflict is resolved as chosen (\<open>Snapshot_Properties\<close>); item writes are conditional in every history and revocation ends the
  session (\<open>Session_Properties\<close>); the invariant, versions, sessions and other identities over any history
  (\<open>History_Properties\<close>); registration and keys (\<open>Discovery_Properties\<close>); intervals and the
  decisions of the loops (\<open>Loop_Properties\<close>); invites end to end (\<open>Invite_Properties\<close>); in
  both demonstration programs every schedule leaves each engine in a state its own calls reach, and
  the long-poll program ends normally only after Bob downloaded what it waits for
  (\<open>Demo_Properties\<close>).

  \<^bold>\<open>Not modelled\<close>: of the demonstration programs, printing, log flags, sleeps, the spacing of
  timers, and an \<open>emit\<close> that blocks on a full event channel; the number of background rounds
  and their wake-ups are given by the schedule, and the helpers both programs
  define alike (\<open>env\<close>, \<open>closeOnExit\<close>, \<open>scopedMemoryBackend\<close>) are modelled once; SQL text, migrations and connection handling; HTTP transport and JSON encoding;
  the primitives themselves; cancellation of contexts other than where a loop tests it.
  \<open>CreateInvite\<close> returns the error alone where the code also returns the token, and
  \<open>url.Parse\<close> refuses every IP literal, which both of its callers refuse as well.
\<close>

end
